(* ===== verification/Prelude.thy ===== *)
theory Prelude
  imports Complex_Main "HOL-Library.Char_ord" "HOL-Library.List_Lexorder"
    "HOL-Library.Multiset"
begin

text \<open>
  What every component shares: Python exceptions as values, the combinators that give early
  returns and loops with exceptions, and the string operations the scripts use.

  An exception is a value of \<open>exn\<close>, one constructor per exception class the scripts raise or let
  through. A procedure that only checks is of type \<open>exn option\<close> (\<open>None\<close>: it returned), a function
  that returns a value is of type \<open>exn + 'a\<close>. \<open>first_fail\<close> is a sequence of checks, the first
  failure of which is raised; \<open>foldM\<close> is a \<open>for\<close> loop whose body may raise.

  Strings are lists of \<open>char\<close>, that is, texts over the code points below 256. The order on
  strings (and so \<open>sort\<close>) is the lexicographic order of code points, as in Python.
\<close>

section \<open>Exceptions\<close>

datatype exn =
    PayloadValidationError string "string option"
  | ReplayError string
  | EvaluationError string
  | ValidationError string
  | SampleError string
  | RowRejected string string
  | SystemExit string
  | ManifestError string
  | VerificationError string
  | FileNotFoundError string
  | ValueError string
  | TypeError
  | AttributeError
  | KeyError string
  | OverflowError
  | CsvError
  | UnicodeDecodeError
  | IndexError
  | ZeroDivisionError
  | InvalidOperation
  | ConnectionFault

type_synonym 'a res = "exn + 'a"

named_theorems model_defs \<open>definitions unfolded when a concrete input is evaluated\<close>
named_theorems check_iff \<open>when a sequence of checks passes\<close>

definition raise_if :: "bool \<Rightarrow> 'e \<Rightarrow> 'e option" where
  "raise_if b e = (if b then Some e else None)"

lemma raise_if_None [simp]: "raise_if b e = None \<longleftrightarrow> \<not> b"
  by (simp add: raise_if_def)

lemma raise_if_Some [simp]: "raise_if b e = Some e' \<longleftrightarrow> b \<and> e' = e"
  by (auto simp: raise_if_def)

lemma raise_if_simps [simp]: "raise_if True e = Some e" "raise_if False e = None"
  by (simp_all add: raise_if_def)

fun first_fail :: "'e option list \<Rightarrow> 'e option" where
  "first_fail [] = None"
| "first_fail (None # cs) = first_fail cs"
| "first_fail (Some e # cs) = Some e"

lemma first_fail_None_iff: "first_fail cs = None \<longleftrightarrow> (\<forall>c \<in> set cs. c = None)"
  by (induction cs rule: first_fail.induct) auto

lemma first_fail_Cons: "first_fail (c # cs) = (case c of None \<Rightarrow> first_fail cs | Some e \<Rightarrow> Some e)"
  by (cases c) auto

lemma first_fail_Cons_None [simp]: "first_fail (c # cs) = None \<longleftrightarrow> c = None \<and> first_fail cs = None"
  by (cases c) auto

lemma first_fail_mem: "first_fail cs = Some e \<Longrightarrow> Some e \<in> set cs"
  by (induction cs rule: first_fail.induct) auto

lemma first_fail_append:
  "first_fail (xs @ ys) = (case first_fail xs of None \<Rightarrow> first_fail ys | Some e \<Rightarrow> Some e)"
  by (induction xs rule: first_fail.induct) auto

text \<open>What a sequence of checks raises has a property when each of its checks raises only such.\<close>

lemma pred_raise_if [simp]: "pred_option P (raise_if b x) \<longleftrightarrow> (b \<longrightarrow> P x)"
  by (simp add: raise_if_def)

lemma first_fail_pred: "list_all (pred_option P) cs \<Longrightarrow> pred_option P (first_fail cs)"
  by (induction cs rule: first_fail.induct) auto

definition bind_res :: "'e + 'a \<Rightarrow> ('a \<Rightarrow> 'e + 'b) \<Rightarrow> 'e + 'b" where
  "bind_res m f = (case m of Inl e \<Rightarrow> Inl e | Inr x \<Rightarrow> f x)"

lemma bind_res_simps [simp]: "bind_res (Inl e) f = Inl e" "bind_res (Inr x) f = f x"
  by (simp_all add: bind_res_def)

lemma bind_res_Inr_iff [simp]: "bind_res m f = Inr y \<longleftrightarrow> (\<exists>x. m = Inr x \<and> f x = Inr y)"
  by (cases m) auto

lemma bind_res_Inl: "bind_res m f = Inl x \<longleftrightarrow> m = Inl x \<or> (\<exists>y. m = Inr y \<and> f y = Inl x)"
  by (cases m) auto

lemma bind_res_cong [fundef_cong]:
  "m = m' \<Longrightarrow> (\<And>x. m' = Inr x \<Longrightarrow> f x = f' x) \<Longrightarrow> bind_res m f = bind_res m' f'"
  by (cases m') auto

definition check_then :: "'e option \<Rightarrow> 'e + 'a \<Rightarrow> 'e + 'a" where
  "check_then c m = (case c of None \<Rightarrow> m | Some e \<Rightarrow> Inl e)"

lemma check_then_simps [simp]: "check_then None m = m" "check_then (Some e) m = Inl e"
  by (simp_all add: check_then_def)

lemma check_then_Inr_iff [simp]: "check_then c m = Inr y \<longleftrightarrow> c = None \<and> m = Inr y"
  by (cases c) auto

lemma check_then_Inl_iff: "check_then c m = Inl x \<longleftrightarrow> c = Some x \<or> c = None \<and> m = Inl x"
  by (cases c) auto

text \<open>A check that needs a value which may raise.\<close>

definition with_val :: "'e + 'a \<Rightarrow> ('a \<Rightarrow> 'e option) \<Rightarrow> 'e option" where
  "with_val m f = (case m of Inl e \<Rightarrow> Some e | Inr x \<Rightarrow> f x)"

lemma with_val_simps [simp]: "with_val (Inl e) f = Some e" "with_val (Inr x) f = f x"
  by (simp_all add: with_val_def)

lemma with_val_None [simp]: "with_val m f = None \<longleftrightarrow> (\<exists>x. m = Inr x \<and> f x = None)"
  by (cases m) auto

lemma pred_with_val [simp]:
  "pred_option P (with_val m f) \<longleftrightarrow> (\<forall>e. m = Inl e \<longrightarrow> P e) \<and> (\<forall>x. m = Inr x \<longrightarrow> pred_option P (f x))"
  by (cases m) auto

fun foldM :: "('s \<Rightarrow> 'a \<Rightarrow> 'e + 's) \<Rightarrow> 's \<Rightarrow> 'a list \<Rightarrow> 'e + 's" where
  "foldM f s [] = Inr s"
| "foldM f s (x # xs) = (case f s x of Inl e \<Rightarrow> Inl e | Inr s' \<Rightarrow> foldM f s' xs)"

lemma foldM_invariant:
  assumes "foldM f s xs = Inr s'" "P s"
    and "\<And>s x s'. x \<in> set xs \<Longrightarrow> P s \<Longrightarrow> f s x = Inr s' \<Longrightarrow> P s'"
  shows "P s'"
  using assms
proof (induction xs arbitrary: s)
  case Nil
  then show ?case by simp
next
  case (Cons x xs)
  then obtain s1 where s1: "f s x = Inr s1" "foldM f s1 xs = Inr s'"
    by (auto split: sum.splits)
  have "P s1" by (rule Cons.prems(3) [of x s s1]) (simp_all add: Cons.prems s1)
  then show ?case by (rule Cons.IH [OF s1(2)]) (rule Cons.prems(3), auto)
qed

lemma foldM_append:
  "foldM f s (xs @ ys) = (case foldM f s xs of Inl e \<Rightarrow> Inl e | Inr s' \<Rightarrow> foldM f s' ys)"
  by (induction xs arbitrary: s) (auto split: sum.splits)

lemma foldM_total:
  "(\<And>s x. f s x = Inr (g s x)) \<Longrightarrow> foldM f s xs = Inr (foldl g s xs)"
  by (induction xs arbitrary: s) auto

text \<open>A loop that checks each element against the state so far and then records it.\<close>

lemma foldM_check:
  assumes "\<And>s x. f s x = check_then (ck s x) (Inr (g x s))"
  shows "foldM f s xs = Inr s' \<longleftrightarrow> s' = fold g xs s \<and> (\<forall>i < length xs. ck (fold g (take i xs) s) (xs ! i) = None)"
proof (induction xs arbitrary: s)
  case (Cons x xs)
  have "(\<forall>i < length (x # xs). ck (fold g (take i (x # xs)) s) ((x # xs) ! i) = None) \<longleftrightarrow>
      ck s x = None \<and> (\<forall>i < length xs. ck (fold g (take i xs) (g x s)) (xs ! i) = None)"
    by (simp add: All_less_Suc2)
  then show ?case using assms [of s x] Cons.IH [of "g x s"] by (cases "ck s x") auto
qed auto

text \<open>What a loop that raises has raised: the exception of some element.\<close>

lemma foldM_Inl: "foldM f s xs = Inl e \<Longrightarrow> \<exists>x \<in> set xs. \<exists>s'. f s' x = Inl e"
  by (induction xs arbitrary: s) (auto split: sum.splits)

fun mapM :: "('a \<Rightarrow> 'e + 'b) \<Rightarrow> 'a list \<Rightarrow> 'e + 'b list" where
  "mapM f [] = Inr []"
| "mapM f (x # xs) = bind_res (f x) (\<lambda>y. bind_res (mapM f xs) (\<lambda>ys. Inr (y # ys)))"

lemma mapM_length: "mapM f xs = Inr ys \<Longrightarrow> length ys = length xs"
  by (induction xs arbitrary: ys) auto

lemma mapM_Inl: "mapM f xs = Inl e \<Longrightarrow> \<exists>x \<in> set xs. f x = Inl e"
  by (induction xs) (auto simp: bind_res_Inl)

section \<open>Characters and strings\<close>

abbreviation code_point :: "char \<Rightarrow> nat" where
  "code_point c \<equiv> of_char c"

definition is_digit :: "char \<Rightarrow> bool" where
  "is_digit c \<longleftrightarrow> 48 \<le> code_point c \<and> code_point c \<le> 57"

definition is_lower_hex :: "char \<Rightarrow> bool" where
  "is_lower_hex c \<longleftrightarrow> is_digit c \<or> (97 \<le> code_point c \<and> code_point c \<le> 102)"

definition is_hex :: "char \<Rightarrow> bool" where
  "is_hex c \<longleftrightarrow> is_lower_hex c \<or> (65 \<le> code_point c \<and> code_point c \<le> 70)"

text \<open>
  The word characters of \<open>re\<close>: a letter, a digit, any other numeric character or an underscore.
  Below 256 these are the ASCII ones, the ordinal indicators, the micro sign, the superscript
  digits, the fractions, and the letters from 192 on without the two operators.
\<close>

definition is_word_char :: "char \<Rightarrow> bool" where
  "is_word_char c \<longleftrightarrow> (let n = code_point c in
     (48 \<le> n \<and> n \<le> 57) \<or> (65 \<le> n \<and> n \<le> 90) \<or> n = 95 \<or> (97 \<le> n \<and> n \<le> 122)
     \<or> n \<in> {170, 178, 179, 181, 185, 186, 188, 189, 190}
     \<or> (192 \<le> n \<and> n \<noteq> 215 \<and> n \<noteq> 247))"

text \<open>The characters that \<open>str.strip\<close> removes.\<close>

definition is_space :: "char \<Rightarrow> bool" where
  "is_space c \<longleftrightarrow> (let n = code_point c in
     (9 \<le> n \<and> n \<le> 13) \<or> (28 \<le> n \<and> n \<le> 32) \<or> n = 133 \<or> n = 160)"

lemma digit_is_word: "is_digit c \<Longrightarrow> is_word_char c"
  by (simp add: is_digit_def is_word_char_def Let_def)

text \<open>The same tests on the bits of a character, for evaluation.\<close>

lemma char_class_code [code]:
  "is_digit (Char b0 b1 b2 b3 b4 b5 b6 b7) \<longleftrightarrow> \<not> b7 \<and> \<not> b6 \<and> b5 \<and> b4 \<and> (\<not> b3 \<or> \<not> b2 \<and> \<not> b1)"
  by (cases b0; cases b1; cases b2; cases b3; cases b4; cases b5; cases b6; cases b7; simp add: is_digit_def)

lemma is_word_char_code [code]:
  "is_word_char (Char b0 b1 b2 b3 b4 b5 b6 b7) \<longleftrightarrow>
    (if b7
     then if b6 then \<not> (b4 \<and> \<not> b3 \<and> b2 \<and> b1 \<and> b0)
       else b5 \<and> (if b4 then (if b3 then (if b2 then \<not> (b1 \<and> b0) else b1 \<noteq> b0) else (if b2 then \<not> b1 \<and> b0 else b1))
                 else b3 \<and> \<not> b2 \<and> b1 \<and> \<not> b0)
     else if b6
       then if b4 then \<not> b3 \<or> \<not> b2 \<and> \<not> (b1 \<and> b0) \<or> \<not> b5 \<and> b2 \<and> b1 \<and> b0
         else b3 \<or> b2 \<or> b1 \<or> b0
       else b5 \<and> b4 \<and> (\<not> b3 \<or> \<not> b2 \<and> \<not> b1))"
  by (cases b0; cases b1; cases b2; cases b3; cases b4; cases b5; cases b6; cases b7;
      simp add: is_word_char_def Let_def)

definition strip :: "string \<Rightarrow> string" where
  "strip s = rev (dropWhile is_space (rev (dropWhile is_space s)))"

definition starts_with :: "string \<Rightarrow> string \<Rightarrow> bool" where
  "starts_with s p \<longleftrightarrow> take (length p) s = p"

lemma starts_with_append [simp]: "starts_with (p @ s) p"
  by (simp add: starts_with_def)

lemma starts_with_iff: "starts_with s p \<longleftrightarrow> (\<exists>t. s = p @ t)"
  by (metis append_take_drop_id starts_with_append starts_with_def)

definition ends_with :: "string \<Rightarrow> string \<Rightarrow> bool" where
  "ends_with s p \<longleftrightarrow> starts_with (rev s) (rev p)"

text \<open>\<open>sep.join(parts)\<close>\<close>

fun join :: "string \<Rightarrow> string list \<Rightarrow> string" where
  "join sep [] = []"
| "join sep [s] = s"
| "join sep (s # t # ss) = s @ sep @ join sep (t # ss)"

text \<open>\<open>s.split(sep)\<close> for a separator of one character; \<open>s.split(sep, 1)[1]\<close> is \<open>after_first\<close>,
  which has a value where the separator occurs (the callers test that first).\<close>

fun split_on :: "char \<Rightarrow> string \<Rightarrow> string list" where
  "split_on d [] = [[]]"
| "split_on d (c # cs) =
     (if c = d then [] # split_on d cs
      else case split_on d cs of [] \<Rightarrow> [[c]] | p # ps \<Rightarrow> (c # p) # ps)"

definition after_first :: "char \<Rightarrow> string \<Rightarrow> string" where
  "after_first d s = tl (dropWhile (\<lambda>c. c \<noteq> d) s)"

lemma after_first_append:
  "d \<notin> set p \<Longrightarrow> after_first d (p @ d # s) = s"
  by (induction p) (auto simp: after_first_def)

text \<open>Decimal notation of integers, as \<open>str\<close> writes it.\<close>

definition digit_char :: "nat \<Rightarrow> char" where
  "digit_char d = char_of (48 + d)"

fun str_of_nat :: "nat \<Rightarrow> string" where
  "str_of_nat n = (if n < 10 then [digit_char n] else str_of_nat (n div 10) @ [digit_char (n mod 10)])"

declare str_of_nat.simps [simp del]

definition str_of_int :: "int \<Rightarrow> string" where
  "str_of_int i = (if i < 0 then CHR ''-'' # str_of_nat (nat (- i)) else str_of_nat (nat i))"

definition digit_val :: "char \<Rightarrow> nat" where
  "digit_val c = code_point c - 48"

definition nat_of_digits :: "string \<Rightarrow> nat" where
  "nat_of_digits s = foldl (\<lambda>n c. 10 * n + digit_val c) 0 s"

lemma of_char_digit_char: "d < 10 \<Longrightarrow> code_point (digit_char d) = 48 + d"
  by (simp add: digit_char_def)

lemma digit_char_is_digit [simp]: "d < 10 \<Longrightarrow> is_digit (digit_char d)"
  by (simp add: is_digit_def of_char_digit_char)

lemma digit_val_digit_char [simp]: "d < 10 \<Longrightarrow> digit_val (digit_char d) = d"
  by (simp add: digit_val_def of_char_digit_char)

lemma str_of_nat_digits: "list_all is_digit (str_of_nat n)"
proof (induction n rule: str_of_nat.induct)
  case (1 n)
  then show ?case by (subst str_of_nat.simps) simp
qed

lemma str_of_nat_nonempty [simp]: "str_of_nat n \<noteq> []"
  by (subst str_of_nat.simps) simp

lemma nat_of_digits_snoc: "nat_of_digits (s @ [c]) = 10 * nat_of_digits s + digit_val c"
  by (simp add: nat_of_digits_def)

lemma nat_of_digits_str_of_nat [simp]: "nat_of_digits (str_of_nat n) = n"
proof (induction n rule: str_of_nat.induct)
  case (1 n)
  show ?case
  proof (cases "n < 10")
    case True
    then show ?thesis by (subst str_of_nat.simps) (simp add: nat_of_digits_def)
  next
    case False
    then show ?thesis
      using 1 by (subst str_of_nat.simps) (simp add: nat_of_digits_snoc)
  qed
qed

lemma str_of_nat_inj: "str_of_nat m = str_of_nat n \<longleftrightarrow> m = n"
  by (metis nat_of_digits_str_of_nat)

end
