(* ===== verification/PyFloat.thy ===== *)
theory PyFloat
  imports Prelude
begin

text \<open>
  Python's \<open>float\<close>: IEEE binary64 with rounding to nearest, ties to even. A finite float is the
  rational it denotes (the sign of zero is not kept: no script prints or tests it), and
  \<open>to_double\<close> rounds a rational to the nearest float, with the 53 bit significand, gradual underflow
  at \<open>2 ^ -1074\<close> and overflow to infinity at \<open>2 ^ 1024\<close>. Every arithmetic operation is the exact
  operation followed by \<open>to_double\<close>, which is what the standard requires, so the definitions compute
  the very value the scripts compute. Comparisons are exact and false on NaN.

  The lemmas: \<open>to_double\<close> is monotone, keeps every representable value and therefore keeps the
  interval from 0 to 1, which is what the ratios and shares of the scripts need.
\<close>

section \<open>Rounding a rational to a float\<close>

fun log2_nat :: "nat \<Rightarrow> nat" where
  "log2_nat n = (if n < 2 then 0 else Suc (log2_nat (n div 2)))"

declare log2_nat.simps [simp del]

definition round_half_even :: "rat \<Rightarrow> int" where
  "round_half_even x = (let f = \<lfloor>x\<rfloor>; d = x - of_int f in
     if d < 1/2 then f else if 1/2 < d then f + 1 else if even f then f else f + 1)"

text \<open>\<open>ilog2 x\<close> is the exponent of a positive \<open>x\<close>: \<open>2 powi ilog2 x \<le> x < 2 powi (ilog2 x + 1)\<close>.\<close>

definition ilog2 :: "rat \<Rightarrow> int" where
  "ilog2 x = (let (p, q) = quotient_of x; k = int (log2_nat (nat p)) - int (log2_nat (nat q))
     in if 2 powi k \<le> x then k else k - 1)"

definition ulp_exp :: "rat \<Rightarrow> int" where
  "ulp_exp x = max (ilog2 x - 52) (-1074)"

definition rnd_pos :: "rat \<Rightarrow> rat" where
  "rnd_pos x = of_int (round_half_even (x / 2 powi ulp_exp x)) * 2 powi ulp_exp x"

datatype pyfloat = Fin rat | PInf | NInf | NaN

definition to_double :: "rat \<Rightarrow> pyfloat" where
  "to_double x =
     (if x = 0 then Fin 0
      else let y = rnd_pos \<bar>x\<bar> in
        if 2 ^ 1024 \<le> y then (if 0 < x then PInf else NInf)
        else Fin (if 0 < x then y else - y))"

section \<open>Arithmetic and comparison\<close>

fun is_nan :: "pyfloat \<Rightarrow> bool" where
  "is_nan NaN = True"
| "is_nan _ = False"

fun is_fin :: "pyfloat \<Rightarrow> bool" where
  "is_fin (Fin _) = True"
| "is_fin _ = False"

fun fin_val :: "pyfloat \<Rightarrow> rat" where
  "fin_val (Fin r) = r"
| "fin_val _ = 0"

fun flt :: "pyfloat \<Rightarrow> pyfloat \<Rightarrow> bool" where
  "flt (Fin x) (Fin y) = (x < y)"
| "flt (Fin x) PInf = True"
| "flt NInf (Fin y) = True"
| "flt NInf PInf = True"
| "flt _ _ = False"

fun feq :: "pyfloat \<Rightarrow> pyfloat \<Rightarrow> bool" where
  "feq NaN _ = False"
| "feq _ NaN = False"
| "feq x y = (x = y)"

definition fle :: "pyfloat \<Rightarrow> pyfloat \<Rightarrow> bool" where
  "fle x y = (flt x y \<or> feq x y)"

fun fneg :: "pyfloat \<Rightarrow> pyfloat" where
  "fneg (Fin x) = Fin (- x)"
| "fneg PInf = NInf"
| "fneg NInf = PInf"
| "fneg NaN = NaN"

fun fabs :: "pyfloat \<Rightarrow> pyfloat" where
  "fabs (Fin x) = Fin \<bar>x\<bar>"
| "fabs PInf = PInf"
| "fabs NInf = PInf"
| "fabs NaN = NaN"

fun fadd :: "pyfloat \<Rightarrow> pyfloat \<Rightarrow> pyfloat" where
  "fadd (Fin x) (Fin y) = to_double (x + y)"
| "fadd NaN _ = NaN"
| "fadd _ NaN = NaN"
| "fadd PInf NInf = NaN"
| "fadd NInf PInf = NaN"
| "fadd PInf _ = PInf"
| "fadd _ PInf = PInf"
| "fadd NInf _ = NInf"
| "fadd _ NInf = NInf"

definition fsub :: "pyfloat \<Rightarrow> pyfloat \<Rightarrow> pyfloat" where
  "fsub x y = fadd x (fneg y)"

definition inf_with_sign :: "bool \<Rightarrow> pyfloat" where
  "inf_with_sign pos = (if pos then PInf else NInf)"

fun fpos :: "pyfloat \<Rightarrow> bool" where
  "fpos (Fin x) = (0 < x)"
| "fpos PInf = True"
| "fpos _ = False"

fun fmul :: "pyfloat \<Rightarrow> pyfloat \<Rightarrow> pyfloat" where
  "fmul (Fin x) (Fin y) = to_double (x * y)"
| "fmul NaN _ = NaN"
| "fmul _ NaN = NaN"
| "fmul x y = (if x = Fin 0 \<or> y = Fin 0 then NaN else inf_with_sign (fpos x = fpos y))"

text \<open>\<open>/\<close> on floats: division by zero raises.\<close>

fun fdiv :: "pyfloat \<Rightarrow> pyfloat \<Rightarrow> pyfloat res" where
  "fdiv x (Fin y) =
     (if y = 0 then Inl ZeroDivisionError
      else case x of Fin x' \<Rightarrow> Inr (to_double (x' / y))
           | NaN \<Rightarrow> Inr NaN | _ \<Rightarrow> Inr (inf_with_sign (fpos x = (0 < y))))"
| "fdiv x NaN = Inr NaN"
| "fdiv x y = (case x of Fin _ \<Rightarrow> Inr (Fin 0) | _ \<Rightarrow> Inr NaN)"

text \<open>\<open>float(n)\<close> and \<open>a / b\<close> on integers: too large a result raises.\<close>

definition float_of_int :: "int \<Rightarrow> pyfloat res" where
  "float_of_int n = (let y = to_double (of_int n) in if is_fin y then Inr y else Inl OverflowError)"

definition true_div :: "int \<Rightarrow> int \<Rightarrow> pyfloat res" where
  "true_div a b =
     (if b = 0 then Inl ZeroDivisionError
      else let y = to_double (of_int a / of_int b) in if is_fin y then Inr y else Inl OverflowError)"

text \<open>\<open>int(x)\<close> truncates towards zero.\<close>

definition trunc_rat :: "rat \<Rightarrow> int" where
  "trunc_rat x = (if 0 \<le> x then \<lfloor>x\<rfloor> else \<lceil>x\<rceil>)"

text \<open>\<open>round(x, n)\<close>: the exact value of \<open>x\<close> to \<open>n\<close> decimals, ties to even, then to the nearest float.\<close>

definition py_round :: "pyfloat \<Rightarrow> nat \<Rightarrow> pyfloat" where
  "py_round x n = (case x of
     Fin r \<Rightarrow> to_double (of_int (round_half_even (r * 10 ^ n)) / 10 ^ n) | _ \<Rightarrow> x)"

section \<open>The exponent\<close>

lemma log2_nat_bounds: "0 < n \<Longrightarrow> 2 ^ log2_nat n \<le> n \<and> n < 2 ^ Suc (log2_nat n)"
proof (induction n rule: log2_nat.induct)
  case (1 n)
  show ?case
  proof (cases "n < 2")
    case True
    with "1.prems" show ?thesis by (subst (1 2) log2_nat.simps) simp
  next
    case False
    then have "2 ^ log2_nat (n div 2) \<le> n div 2 \<and> n div 2 < 2 ^ Suc (log2_nat (n div 2))"
      using 1 by simp
    then have "2 * 2 ^ log2_nat (n div 2) \<le> n \<and> n < 2 * 2 ^ Suc (log2_nat (n div 2))"
      by linarith
    with False show ?thesis by (subst (1 2) log2_nat.simps) simp
  qed
qed

lemma ilog2_bounds:
  assumes "0 < x"
  shows "2 powi ilog2 x \<le> x" and "x < 2 powi (ilog2 x + 1)"
proof -
  obtain p q where pq: "quotient_of x = (p, q)" by fastforce
  have q: "0 < q" and x: "x = of_int p / of_int q"
    using pq by (auto simp: quotient_of_denom_pos quotient_of_div)
  have p: "0 < p" using assms q x by (simp add: zero_less_divide_iff)
  define a b where "a = log2_nat (nat p)" and "b = log2_nat (nat q)"
  have pb: "2 ^ a \<le> nat p" "nat p < 2 ^ Suc a" and qb: "2 ^ b \<le> nat q" "nat q < 2 ^ Suc b"
    using log2_nat_bounds [of "nat p"] log2_nat_bounds [of "nat q"] p q
    unfolding a_def b_def by auto
  have lift: "(2 :: rat) ^ k \<le> of_int i \<and> of_int i < (2 :: rat) ^ Suc k"
    if i: "0 < i" and b: "2 ^ k \<le> nat i" "nat i < 2 ^ Suc k" for i k
  proof -
    have "(2 :: int) ^ k \<le> i" "i < 2 ^ Suc k"
      using i b by (simp_all add: nat_less_iff le_nat_iff)
    then have "(of_int (2 ^ k) :: rat) \<le> of_int i" "(of_int i :: rat) < of_int (2 ^ Suc k)"
      by (simp_all only: of_int_le_iff of_int_less_iff)
    then show ?thesis by simp
  qed
  have P: "(2 :: rat) ^ a \<le> of_int p" "of_int p < (2 :: rat) ^ Suc a"
    using lift [OF p pb] by simp_all
  have Q: "(2 :: rat) ^ b \<le> of_int q" "of_int q < (2 :: rat) ^ Suc b"
    using lift [OF q qb] by simp_all
  have qpos: "(0 :: rat) < of_int q" using q by simp
  let ?k = "int a - int b"
  have pw: "(2 :: rat) powi ?k = 2 ^ a / 2 ^ b"
    by (simp add: power_int_diff)
  have up: "x < 2 * 2 powi ?k"
  proof -
    have "x < 2 ^ Suc a / of_int q"
      unfolding x using P(2) qpos by (simp add: divide_strict_right_mono)
    also have "\<dots> \<le> 2 ^ Suc a / 2 ^ b"
      using Q(1) q by (intro divide_left_mono) auto
    finally show ?thesis using pw by simp
  qed
  have lo: "2 powi ?k / 2 < x"
  proof -
    have "2 powi ?k / 2 = (2 :: rat) ^ a / 2 ^ Suc b" using pw by simp
    also have "\<dots> < 2 ^ a / of_int q"
      using Q(2) q by (intro divide_strict_left_mono) auto
    also have "\<dots> \<le> x"
      unfolding x using P(1) qpos by (simp add: divide_right_mono)
    finally show ?thesis .
  qed
  have e: "ilog2 x = (if 2 powi ?k \<le> x then ?k else ?k - 1)"
    by (simp add: ilog2_def pq a_def b_def)
  show "2 powi ilog2 x \<le> x"
    using lo by (auto simp: e power_int_diff)
  have "(2 :: rat) powi (?k - 1 + 1) = 2 powi ?k" "(2 :: rat) powi (?k + 1) = 2 * 2 powi ?k"
    by (simp_all add: power_int_add)
  then show "x < 2 powi (ilog2 x + 1)"
    using up by (auto simp: e not_le simp del: diff_add_cancel)
qed

lemma ilog2_unique:
  assumes "2 powi k \<le> x" and "x < 2 powi (k + 1)"
  shows "ilog2 x = k"
proof -
  have x: "0 < x" using assms(1) zero_less_power_int [of "2 :: rat" k] by linarith
  have "(2 :: rat) powi k < 2 powi (ilog2 x + 1)" "(2 :: rat) powi ilog2 x < 2 powi (k + 1)"
    using ilog2_bounds [OF x] assms by linarith+
  then have "k < ilog2 x + 1" "ilog2 x < k + 1"
    by (metis less_le_not_le linorder_not_less one_less_numeral_iff power_int_increasing one_le_numeral)+
  then show ?thesis by simp
qed

lemma ilog2_mono:
  assumes "0 < x" "x \<le> y"
  shows "ilog2 x \<le> ilog2 y"
proof (rule ccontr)
  assume "\<not> ?thesis"
  then have "(2 :: rat) powi (ilog2 y + 1) \<le> 2 powi ilog2 x"
    by (intro power_int_increasing) auto
  then show False
    using ilog2_bounds [of x] ilog2_bounds [of y] assms by linarith
qed

text \<open>For evaluation the logarithm is taken of integers in binary.\<close>

function int_log2 :: "int \<Rightarrow> int" where
  "int_log2 n = (if n < 2 then 0 else 1 + int_log2 (n div 2))"
  by pat_completeness auto
termination
  by (relation "measure nat") auto

declare int_log2.simps [simp del]

lemma int_log2_nat: "int_log2 (int n) = int (log2_nat n)"
proof (induction n rule: log2_nat.induct)
  case (1 n)
  then show ?case by (subst int_log2.simps, subst log2_nat.simps) (auto simp: zdiv_int)
qed

lemma ilog2_code [code]:
  "ilog2 x = (let (p, q) = quotient_of x; k = int_log2 p - int_log2 q in if 2 powi k \<le> x then k else k - 1)"
proof -
  have neg: "int_log2 i = int (log2_nat (nat i))" for i
    using int_log2_nat [of "nat i"] by (cases "0 \<le> i") (auto simp: int_log2.simps [of i] log2_nat.simps [of 0])
  show ?thesis unfolding ilog2_def neg by simp
qed

section \<open>Rounding\<close>

lemma round_half_even_bounds: "\<lfloor>x\<rfloor> \<le> round_half_even x" "round_half_even x \<le> \<lfloor>x\<rfloor> + 1"
  by (simp_all add: round_half_even_def Let_def)

lemma round_half_even_of_int [simp]: "round_half_even (of_int n) = n"
  by (simp add: round_half_even_def)

lemma round_half_even_err: "\<bar>of_int (round_half_even x) - x\<bar> \<le> 1/2"
proof -
  have "of_int \<lfloor>x\<rfloor> \<le> x" "x < of_int \<lfloor>x\<rfloor> + 1" by linarith+
  then show ?thesis unfolding round_half_even_def Let_def by (auto split: abs_split; linarith)
qed

lemma round_half_even_mono:
  assumes "x \<le> y"
  shows "round_half_even x \<le> round_half_even y"
proof (cases "\<lfloor>x\<rfloor> = \<lfloor>y\<rfloor>")
  case True
  then show ?thesis using assms by (auto simp: round_half_even_def Let_def)
next
  case False
  then have "\<lfloor>x\<rfloor> + 1 \<le> \<lfloor>y\<rfloor>" using floor_mono [OF assms] by linarith
  then show ?thesis using round_half_even_bounds [of x] round_half_even_bounds [of y] by linarith
qed

lemma round_half_even_le_of_int: "x \<le> of_int n \<Longrightarrow> round_half_even x \<le> n"
  using round_half_even_mono [of x "of_int n"] by simp

lemma round_half_even_ge_of_int: "of_int n \<le> x \<Longrightarrow> n \<le> round_half_even x"
  using round_half_even_mono [of "of_int n" x] by simp

lemma scaled_bounds:
  assumes "0 < x"
  shows "x / 2 powi ulp_exp x < 2 ^ 53"
    and "- 1074 < ulp_exp x \<Longrightarrow> 2 ^ 52 \<le> x / 2 powi ulp_exp x"
proof -
  have p: "(0 :: rat) < 2 powi ulp_exp x" by simp
  have "x < 2 powi (ilog2 x + 1)" using ilog2_bounds [OF assms] by simp
  also have "\<dots> \<le> 2 powi (ulp_exp x + 53)"
    by (intro power_int_increasing) (auto simp: ulp_exp_def)
  also have "\<dots> = 2 powi ulp_exp x * 2 ^ 53" by (simp add: power_int_add)
  finally show "x / 2 powi ulp_exp x < 2 ^ 53" using p by (simp add: divide_less_eq mult.commute)
  assume "- 1074 < ulp_exp x"
  then have "ilog2 x = ulp_exp x + 52" by (simp add: ulp_exp_def)
  then have "2 powi ulp_exp x * 2 ^ 52 \<le> x"
    using ilog2_bounds(1) [OF assms] by (simp add: power_int_add)
  then show "2 ^ 52 \<le> x / 2 powi ulp_exp x" using p by (simp add: le_divide_eq mult.commute)
qed

lemma rnd_pos_nonneg: "0 < x \<Longrightarrow> 0 \<le> rnd_pos x"
  unfolding rnd_pos_def
  by (intro mult_nonneg_nonneg of_int_nonneg round_half_even_ge_of_int) auto

lemma rnd_pos_mono:
  assumes "0 < x" "x \<le> y"
  shows "rnd_pos x \<le> rnd_pos y"
proof -
  let ?e = "ulp_exp x" and ?f = "ulp_exp y"
  have y: "0 < y" using assms by simp
  have ef: "?e \<le> ?f" using ilog2_mono [OF assms] by (simp add: ulp_exp_def)
  show ?thesis
  proof (cases "?e = ?f")
    case True
    then have "round_half_even (x / 2 powi ?e) \<le> round_half_even (y / 2 powi ?f)"
      using assms by (intro round_half_even_mono) (simp add: divide_right_mono)
    with True show ?thesis by (simp add: rnd_pos_def mult_right_mono)
  next
    case False
    with ef have "?e + 1 \<le> ?f" by simp
    then have f: "- 1074 < ?f" by (simp add: ulp_exp_def)
    have "round_half_even (x / 2 powi ?e) \<le> 2 ^ 53"
      using scaled_bounds(1) [OF assms(1)] by (intro round_half_even_le_of_int) simp
    then have "rnd_pos x \<le> of_int (2 ^ 53) * 2 powi ?e"
      unfolding rnd_pos_def by (intro mult_right_mono) (simp_all only: of_int_le_iff, simp)
    also have "\<dots> = 2 ^ 52 * 2 powi (?e + 1)" by (simp add: power_int_add)
    also have "\<dots> \<le> 2 ^ 52 * 2 powi ?f"
      using \<open>?e + 1 \<le> ?f\<close> by (intro mult_left_mono power_int_increasing) auto
    also have "\<dots> \<le> rnd_pos y"
    proof -
      have "2 ^ 52 \<le> round_half_even (y / 2 powi ?f)"
        using scaled_bounds(2) [OF y f] by (intro round_half_even_ge_of_int) simp
      then have "(of_int (2 ^ 52) :: rat) \<le> of_int (round_half_even (y / 2 powi ?f))"
        by (simp only: of_int_le_iff)
      then show ?thesis unfolding rnd_pos_def by (intro mult_right_mono) simp_all
    qed
    finally show ?thesis .
  qed
qed

text \<open>The representable values \<open>m * 2 ^ e\<close> with \<open>m < 2 ^ 53\<close> are kept.\<close>

lemma rnd_pos_exact:
  assumes "0 < m" "m < 2 ^ 53" "- 1074 \<le> e"
  shows "rnd_pos (of_int m * 2 powi e) = of_int m * 2 powi e"
proof -
  let ?x = "of_int m * 2 powi e :: rat"
  have x: "0 < ?x" using assms(1) by simp
  have "(of_int m :: rat) < of_int (2 ^ 53)" using assms(2) by (simp only: of_int_less_iff)
  then have "?x < 2 ^ 53 * 2 powi e" by (simp add: mult_strict_right_mono)
  also have "\<dots> = 2 powi (e + 53)" by (simp add: power_int_add)
  finally have "2 powi ilog2 ?x < (2 :: rat) powi (e + 53)"
    using ilog2_bounds(1) [OF x] by linarith
  then have "ilog2 ?x < e + 53"
    by (metis linorder_not_less one_le_numeral power_int_increasing)
  then have le: "ulp_exp ?x \<le> e" using assms(3) by (simp add: ulp_exp_def)
  define d where "d = nat (e - ulp_exp ?x)"
  define u :: rat where "u = 2 powi ulp_exp ?x"
  have u: "u \<noteq> 0" by (simp add: u_def)
  have "(2 :: rat) powi e = 2 ^ d * u"
    using le by (simp add: d_def u_def flip: power_int_of_nat power_int_add)
  then have "?x / u = of_int (m * 2 ^ d)" using u by (simp only: of_int_mult of_int_power) simp
  then have q: "?x / 2 powi ulp_exp ?x = of_int (m * 2 ^ d)" by (simp only: u_def)
  have "rnd_pos ?x = of_int (m * 2 ^ d) * 2 powi ulp_exp ?x"
    unfolding rnd_pos_def q round_half_even_of_int ..
  also have "\<dots> = ?x" using q by (auto simp: field_simps)
  finally show ?thesis .
qed

lemma rnd_pos_nat:
  assumes "0 < n" "n < 2 ^ 53"
  shows "rnd_pos (of_int n) = of_int n"
  using rnd_pos_exact [of n 0] assms by simp

lemma rnd_pos_1 [simp]: "rnd_pos 1 = 1"
  using rnd_pos_nat [of 1] by simp

text \<open>For evaluation overflow is seen in the exponent.\<close>

lemma ilog2_ge: "0 < y \<Longrightarrow> int k \<le> ilog2 y \<longleftrightarrow> 2 ^ k \<le> y"
proof -
  assume y: "0 < y"
  have "2 ^ k \<le> y" if "int k \<le> ilog2 y"
    using power_int_increasing [OF that, of "2 :: rat"] ilog2_bounds(1) [OF y] by simp
  moreover have "int k \<le> ilog2 y" if "2 ^ k \<le> y"
  proof (rule ccontr)
    assume "\<not> int k \<le> ilog2 y"
    then have "(2 :: rat) powi (ilog2 y + 1) \<le> 2 powi int k" by (intro power_int_increasing) auto
    then show False using ilog2_bounds(2) [OF y] that by simp
  qed
  ultimately show ?thesis by blast
qed

lemma to_double_code [code]:
  "to_double x =
     (if x = 0 then Fin 0
      else let y = rnd_pos \<bar>x\<bar> in
        if y \<noteq> 0 \<and> 1024 \<le> ilog2 y then (if 0 < x then PInf else NInf)
        else Fin (if 0 < x then y else - y))"
proof (cases "x = 0 \<or> rnd_pos \<bar>x\<bar> = 0")
  case True
  then show ?thesis by (auto simp: to_double_def)
next
  case False
  then have "0 < rnd_pos \<bar>x\<bar>" using rnd_pos_nonneg [of "\<bar>x\<bar>"] by simp
  from ilog2_ge [OF this, of 1024] False show ?thesis by (simp add: to_double_def Let_def)
qed

lemma to_double_0 [simp]: "to_double 0 = Fin 0"
  by (simp add: to_double_def)

lemma to_double_unit:
  assumes "0 \<le> x" "x \<le> 1"
  obtains r where "to_double x = Fin r" "0 \<le> r" "r \<le> 1"
proof (cases "x = 0")
  case True
  then show ?thesis by (intro that [of 0]) simp_all
next
  case False
  with assms have x: "0 < x" by simp
  then have "rnd_pos x \<le> 1" using rnd_pos_mono [of x 1] assms by simp
  moreover from this have "\<not> 2 ^ 1024 \<le> rnd_pos x" by simp
  ultimately show ?thesis using x rnd_pos_nonneg [OF x]
    by (intro that [of "rnd_pos x"]) (simp_all add: to_double_def)
qed

lemma to_double_nat:
  assumes "0 \<le> n" "n < 2 ^ 53"
  shows "to_double (of_int n) = Fin (of_int n)"
proof (cases "n = 0")
  case False
  then have "(of_int n :: rat) < of_int (2 ^ 53)" using assms by (simp only: of_int_less_iff)
  then have "\<not> 2 ^ 1024 \<le> (of_int n :: rat)" by simp
  then show ?thesis using False assms rnd_pos_nat [of n] by (simp add: to_double_def)
qed simp

lemma to_double_fin_mono:
  assumes "to_double x = Fin r" "to_double y = Fin s" "0 \<le> x" "x \<le> y"
  shows "r \<le> s"
proof (cases "x = 0")
  case True
  then show ?thesis using assms rnd_pos_nonneg [of y]
    by (auto simp: to_double_def Let_def split: if_splits)
next
  case False
  then show ?thesis using assms rnd_pos_mono [of x y]
    by (auto simp: to_double_def Let_def split: if_splits)
qed

lemma true_div_unit:
  assumes "0 \<le> a" "a \<le> b" "0 < b"
  obtains r where "true_div a b = Inr (Fin r)" "0 \<le> r" "r \<le> 1"
proof -
  have "0 \<le> (of_int a / of_int b :: rat)" "(of_int a / of_int b :: rat) \<le> 1"
    using assms by simp_all
  then obtain r where "to_double (of_int a / of_int b) = Fin r" "0 \<le> r" "r \<le> 1"
    by (rule to_double_unit)
  then show ?thesis using assms by (intro that [of r]) (simp_all add: true_div_def)
qed

lemma to_double_le:
  assumes "0 \<le> x" "x \<le> of_int n" "0 < n" "n < 2 ^ 53"
  obtains r where "to_double x = Fin r" "0 \<le> r" "r \<le> of_int n"
proof (cases "x = 0")
  case True
  then show ?thesis using assms by (intro that [of 0]) simp_all
next
  case False
  with assms have x: "0 < x" by simp
  then have le: "rnd_pos x \<le> of_int n" using rnd_pos_mono [of x "of_int n"] rnd_pos_nat [of n] assms by simp
  have "(of_int n :: rat) < of_int (2 ^ 53)" using assms(4) by (simp only: of_int_less_iff)
  with le have "\<not> 2 ^ 1024 \<le> rnd_pos x" by simp
  then show ?thesis using x le rnd_pos_nonneg [OF x]
    by (intro that [of "rnd_pos x"]) (simp_all add: to_double_def)
qed

text \<open>Doubling a float of the unit interval is exact.\<close>

lemma rnd_pos_twice:
  assumes "0 < x" "rnd_pos x \<noteq> 0"
  shows "rnd_pos (2 * rnd_pos x) = 2 * rnd_pos x"
proof -
  define m e where "m = round_half_even (x / 2 powi ulp_exp x)" and "e = ulp_exp x"
  have r: "rnd_pos x = of_int m * 2 powi e" by (simp add: rnd_pos_def m_def e_def)
  have e: "- 1074 \<le> e" by (simp add: e_def ulp_exp_def)
  have "m \<le> 2 ^ 53" unfolding m_def
    using scaled_bounds(1) [OF assms(1)] by (intro round_half_even_le_of_int) simp
  moreover have "0 < m"
    using rnd_pos_nonneg [OF assms(1)] assms(2) zero_less_power_int [of "2 :: rat" e] unfolding r
    by (auto simp: zero_le_mult_iff simp del: zero_less_power_int)
  ultimately consider "0 < m" "m < 2 ^ 53" | "m = 2 ^ 53" by linarith
  then show ?thesis
  proof cases
    case 1
    have "2 * rnd_pos x = of_int m * 2 powi (e + 1)" by (simp add: r power_int_add)
    then show ?thesis using rnd_pos_exact [OF 1, of "e + 1"] e by simp
  next
    case 2
    have "2 * rnd_pos x = of_int (2 ^ 52) * 2 powi (e + 2)" by (simp add: r 2 power_int_add)
    then show ?thesis using rnd_pos_exact [of "2 ^ 52" "e + 2"] e by simp
  qed
qed

lemma to_double_twice:
  assumes "to_double x = Fin r" "0 \<le> x" "r \<le> 1"
  shows "to_double (2 * r) = Fin (2 * r)"
proof (cases "r = 0")
  case False
  then have x: "0 < x" using assms(1,2) by (cases "x = 0") simp_all
  have r: "r = rnd_pos x" using assms(1) x by (auto simp: to_double_def Let_def split: if_splits)
  have "0 < r" using r rnd_pos_nonneg [OF x] False by simp
  moreover have "\<not> 2 ^ 1024 \<le> 2 * r" using assms(3) by simp
  ultimately show ?thesis using rnd_pos_twice [OF x] False r by (simp add: to_double_def)
qed simp

end
