(* ===== verification/PyValue.thy ===== *)
theory PyValue
  imports PyFloat
begin

text \<open>
  The values \<open>json.loads\<close> returns and the Python built-ins the scripts apply to them: \<open>dict.get\<close>,
  \<open>in\<close>, \<open>isinstance\<close>, truth values, \<open>str\<close>, \<open>int\<close>, \<open>float\<close>, \<open>Decimal\<close> and
  \<open>format(d, "f")\<close>, \<open>collections.Counter\<close>, and the reading of a JSON-lines file.

  A dict is an association list in insertion order with distinct keys. JSON's \<open>null\<close> is Python's
  \<open>None\<close>, so \<open>d.get(k)\<close> is \<open>JNull\<close> both for a missing key and for a \<open>null\<close> one. An
  operation that raises on some type (hashing a list, \<open>float\<close> of a dict) says so in its result.
\<close>

section \<open>Values\<close>

datatype json =
    JNull
  | JBool bool
  | JInt int
  | JFloat pyfloat
  | JStr string
  | JList "json list"
  | JObj "(string \<times> json) list"

type_synonym jobj = "(string \<times> json) list"

definition has_key :: "jobj \<Rightarrow> string \<Rightarrow> bool" where
  "has_key d k \<longleftrightarrow> k \<in> set (map fst d)"

definition jget_or :: "jobj \<Rightarrow> string \<Rightarrow> json \<Rightarrow> json" where
  "jget_or d k v = (case map_of d k of None \<Rightarrow> v | Some w \<Rightarrow> w)"

abbreviation jget :: "jobj \<Rightarrow> string \<Rightarrow> json" where
  "jget d k \<equiv> jget_or d k JNull"

lemma has_key_iff: "has_key d k \<longleftrightarrow> map_of d k \<noteq> None"
  by (simp add: has_key_def map_of_eq_None_iff)

text \<open>Looking a key up in a literal, one entry at a time.\<close>

lemma jget_or_Cons: "jget_or ((k, v) # d) k' w = (if k' = k then v else jget_or d k' w)"
  by (simp add: jget_or_def)

lemmas jget_literal = jget_or_Cons list.inject list.distinct char.inject simp_thms if_True if_False

lemma jget_or_default: "\<not> has_key d k \<Longrightarrow> jget_or d k v = v"
  by (simp add: has_key_iff jget_or_def)

lemma jget_mem: "has_key d k \<Longrightarrow> (k, jget_or d k v) \<in> set d"
  by (auto simp: has_key_iff jget_or_def dest: map_of_SomeD)

lemma jget_non_null: "jget d k \<noteq> JNull \<Longrightarrow> (k, jget d k) \<in> set d"
  using jget_mem jget_or_default by metis

text \<open>The assignment \<open>d[k] = v\<close>: a new key goes to the end.\<close>

fun jset :: "('k \<times> 'a) list \<Rightarrow> 'k \<Rightarrow> 'a \<Rightarrow> ('k \<times> 'a) list" where
  "jset [] k v = [(k, v)]"
| "jset ((k', w) # d) k v = (if k' = k then (k, v) # d else (k', w) # jset d k v)"

lemma map_of_jset [simp]: "map_of (jset d k v) = (map_of d)(k \<mapsto> v)"
  by (induction d k v rule: jset.induct) auto

lemma keys_jset: "set (map fst (jset d k v)) = insert k (set (map fst d))"
  by (induction d k v rule: jset.induct) auto

lemma distinct_jset: "distinct (map fst d) \<Longrightarrow> distinct (map fst (jset d k v))"
proof (induction d k v rule: jset.induct)
  case (2 k' w d k v)
  then show ?case using keys_jset [of d k v] by auto
qed simp

lemma set_jset: "set (jset d k v) \<subseteq> insert (k, v) (set d)"
  by (induction d k v rule: jset.induct) auto

fun is_str :: "json \<Rightarrow> bool" where
  "is_str (JStr _) = True"
| "is_str _ = False"

fun is_bool :: "json \<Rightarrow> bool" where
  "is_bool (JBool _) = True"
| "is_bool _ = False"

text \<open>\<open>isinstance(v, int)\<close>: a bool is an int.\<close>

fun is_int :: "json \<Rightarrow> bool" where
  "is_int (JInt _) = True"
| "is_int (JBool _) = True"
| "is_int _ = False"

fun is_list :: "json \<Rightarrow> bool" where
  "is_list (JList _) = True"
| "is_list _ = False"

fun is_obj :: "json \<Rightarrow> bool" where
  "is_obj (JObj _) = True"
| "is_obj _ = False"

fun the_str :: "json \<Rightarrow> string" where
  "the_str (JStr s) = s"
| "the_str _ = []"

fun the_list :: "json \<Rightarrow> json list" where
  "the_list (JList vs) = vs"
| "the_list _ = []"

fun the_obj :: "json \<Rightarrow> jobj" where
  "the_obj (JObj d) = d"
| "the_obj _ = []"

fun the_bool :: "json \<Rightarrow> bool" where
  "the_bool (JBool b) = b"
| "the_bool _ = False"

text \<open>The integer an \<open>int\<close> instance stands for.\<close>

fun the_int :: "json \<Rightarrow> int" where
  "the_int (JInt i) = i"
| "the_int (JBool b) = of_bool b"
| "the_int _ = 0"

text \<open>\<open>isinstance(v, str) and v\<close>\<close>

definition nonempty_str :: "json \<Rightarrow> bool" where
  "nonempty_str v \<longleftrightarrow> is_str v \<and> the_str v \<noteq> []"

lemma nonempty_str_iff: "nonempty_str v \<longleftrightarrow> (\<exists>s. v = JStr s \<and> s \<noteq> [])"
  by (cases v) (auto simp: nonempty_str_def)

fun truthy :: "json \<Rightarrow> bool" where
  "truthy JNull = False"
| "truthy (JBool b) = b"
| "truthy (JInt i) = (i \<noteq> 0)"
| "truthy (JFloat x) = (x \<noteq> Fin 0)"
| "truthy (JStr s) = (s \<noteq> [])"
| "truthy (JList vs) = (vs \<noteq> [])"
| "truthy (JObj d) = (d \<noteq> [])"

text \<open>\<open>v in S\<close> for a set or the keys of a dict \<open>S\<close> of strings: a list or a dict cannot be hashed.\<close>

fun hashable :: "json \<Rightarrow> bool" where
  "hashable (JList _) = False"
| "hashable (JObj _) = False"
| "hashable _ = True"

definition in_strings :: "json \<Rightarrow> string list \<Rightarrow> bool" where
  "in_strings v S \<longleftrightarrow> (case v of JStr s \<Rightarrow> s \<in> set S | _ \<Rightarrow> False)"

text \<open>The number a value denotes in a comparison; \<open>bool\<close> counts as 0 or 1.\<close>

fun num_val :: "json \<Rightarrow> pyfloat option" where
  "num_val (JInt i) = Some (Fin (of_int i))"
| "num_val (JBool b) = Some (Fin (of_bool b))"
| "num_val (JFloat x) = Some x"
| "num_val _ = None"

text \<open>\<open>v == n\<close> for an integer \<open>n\<close>\<close>

definition eq_int :: "json \<Rightarrow> int \<Rightarrow> bool" where
  "eq_int v n \<longleftrightarrow> num_val v = Some (Fin (of_int n))"

section \<open>Numbers in text\<close>

definition is_ascii :: "char \<Rightarrow> bool" where
  "is_ascii c \<longleftrightarrow> code_point c < 128"

definition is_ascii_space :: "char \<Rightarrow> bool" where
  "is_ascii_space c \<longleftrightarrow> (9 \<le> code_point c \<and> code_point c \<le> 13) \<or> code_point c = 32"

text \<open>
  \<open>int\<close> and \<open>float\<close> strip ASCII white space; a text with a character outside ASCII first has
  every white space character turned into a blank.
\<close>

definition num_strip :: "string \<Rightarrow> string" where
  "num_strip s = (let t = if list_all is_ascii s then s
      else map (\<lambda>c. if is_space c then CHR '' '' else c) s
    in rev (dropWhile is_ascii_space (rev (dropWhile is_ascii_space t))))"

definition split_sign :: "string \<Rightarrow> bool \<times> string" where
  "split_sign s = (case s of [] \<Rightarrow> (False, [])
     | c # cs \<Rightarrow> if c = CHR ''-'' then (True, cs) else if c = CHR ''+'' then (False, cs) else (False, s))"

text \<open>Digits with single underscores between them, as \<open>int\<close> and \<open>float\<close> allow.\<close>

definition underscores_ok :: "string \<Rightarrow> bool" where
  "underscores_ok s \<longleftrightarrow> (\<forall>i < length s. s ! i = CHR ''_'' \<longrightarrow>
     0 < i \<and> Suc i < length s \<and> is_digit (s ! (i - 1)) \<and> is_digit (s ! Suc i))"

definition drop_underscores :: "string \<Rightarrow> string" where
  "drop_underscores s = filter (\<lambda>c. c \<noteq> CHR ''_'') s"

definition int_of_str :: "string \<Rightarrow> int option" where
  "int_of_str s = (let (neg, t) = split_sign (num_strip s); ds = drop_underscores t in
     if underscores_ok t \<and> ds \<noteq> [] \<and> list_all is_digit ds
     then Some (if neg then - int (nat_of_digits ds) else int (nat_of_digits ds)) else None)"

text \<open>\<open>digits [. digits] [e [sign] digits]\<close>: the coefficient and the exponent of ten.\<close>

definition exponent_of :: "string \<Rightarrow> int option" where
  "exponent_of s = (case s of [] \<Rightarrow> Some 0
     | c # cs \<Rightarrow> if c = CHR ''e'' \<or> c = CHR ''E''
         then let (neg, ds) = split_sign cs in
           if ds \<noteq> [] \<and> list_all is_digit ds
           then Some (if neg then - int (nat_of_digits ds) else int (nat_of_digits ds)) else None
         else None)"

definition decimal_literal :: "string \<Rightarrow> (string \<times> int) option" where
  "decimal_literal s =
     (let ip = takeWhile is_digit s; r = dropWhile is_digit s;
          dot = (r \<noteq> [] \<and> hd r = CHR ''.'');
          fp = (if dot then takeWhile is_digit (tl r) else []);
          r' = (if dot then dropWhile is_digit (tl r) else r)
      in if ip = [] \<and> fp = [] then None
         else case exponent_of r' of None \<Rightarrow> None
           | Some e \<Rightarrow> Some (ip @ fp, e - int (length fp)))"

definition lower_char :: "char \<Rightarrow> char" where
  "lower_char c = (let n = code_point c in
     if (65 \<le> n \<and> n \<le> 90) \<or> (192 \<le> n \<and> n \<le> 222 \<and> n \<noteq> 215) then char_of (n + 32) else c)"

definition lower :: "string \<Rightarrow> string" where
  "lower s = map lower_char s"

definition float_of_str :: "string \<Rightarrow> pyfloat option" where
  "float_of_str s =
     (let (neg, t) = split_sign (num_strip s); u = drop_underscores t in
      if lower t \<in> {''inf'', ''infinity''} then Some (if neg then NInf else PInf)
      else if lower t = ''nan'' then Some NaN
      else if \<not> underscores_ok t then None
      else case decimal_literal u of None \<Rightarrow> None
        | Some (ds, e) \<Rightarrow>
            Some (let x = of_nat (nat_of_digits ds) * 10 powi e in to_double (if neg then - x else x)))"

section \<open>\<open>decimal.Decimal\<close>\<close>

text \<open>A finite decimal has a sign, a coefficient and an exponent of ten.\<close>

datatype decimal = DFin bool nat int | DInf bool | DNaN

definition max_emax :: int where
  "max_emax = 999999999999999999"

definition min_etiny :: int where
  "min_etiny = - 1999999999999999997"

definition decimal_of_str :: "string \<Rightarrow> decimal option" where
  "decimal_of_str s =
     (let (neg, t) = split_sign (drop_underscores (strip s)); u = lower t in
      if u \<in> {''inf'', ''infinity''} then Some (DInf neg)
      else if (\<exists>p \<in> {''nan'', ''snan''}. starts_with u p \<and> list_all is_digit (drop (length p) u))
      then Some DNaN
      else case decimal_literal t of None \<Rightarrow> None
        | Some (ds, e) \<Rightarrow>
            let c = nat_of_digits ds in
            if e < min_etiny \<or> max_emax < e + int (length (str_of_nat c)) - 1 then None
            else Some (DFin neg c e))"

fun dec_finite :: "decimal \<Rightarrow> bool" where
  "dec_finite (DFin _ _ _) = True"
| "dec_finite _ = False"

fun dec_val :: "decimal \<Rightarrow> rat" where
  "dec_val (DFin neg c e) = (if neg then - 1 else 1) * of_nat c * 10 powi e"
| "dec_val _ = 0"

lemma dec_val_pos_iff: "0 < dec_val (DFin neg c e) \<longleftrightarrow> \<not> neg \<and> 0 < c"
  using zero_less_power_int [of "10 :: rat" e]
  by (auto simp: zero_less_mult_iff mult_less_0_iff simp del: zero_less_power_int)

lemma dec_val_neg_iff: "dec_val (DFin neg c e) < 0 \<longleftrightarrow> neg \<and> 0 < c"
  using zero_less_power_int [of "10 :: rat" e]
  by (auto simp: zero_less_mult_iff mult_less_0_iff simp del: zero_less_power_int)

text \<open>\<open>format(d, "f")\<close>: positional notation, with the trailing zeros the exponent asks for.\<close>

definition decimal_string :: "decimal \<Rightarrow> string" where
  "decimal_string d = (case d of
     DFin neg c e \<Rightarrow>
       (if neg then ''-'' else []) @
       (let ds = str_of_nat c in
        if 0 \<le> e then (if c = 0 then ''0'' else ds @ replicate (nat e) CHR ''0'')
        else let k = nat (- e); qs = replicate (Suc k - length ds) CHR ''0'' @ ds in
          take (length qs - k) qs @ CHR ''.'' # drop (length qs - k) qs)
   | DInf neg \<Rightarrow> (if neg then ''-Infinity'' else ''Infinity'')
   | DNaN \<Rightarrow> ''NaN'')"

section \<open>\<open>str\<close> and \<open>repr\<close>\<close>

text \<open>\<open>repr\<close> of a float: the shortest decimal that rounds back to it; 17 digits always do.\<close>

definition ilog10 :: "rat \<Rightarrow> int" where
  "ilog10 x = (let (p, q) = quotient_of x;
      k = int (length (str_of_nat (nat p))) - int (length (str_of_nat (nat q)))
    in if 10 powi k \<le> x then k else k - 1)"

definition sig_round :: "rat \<Rightarrow> nat \<Rightarrow> nat \<times> int" where
  "sig_round x n = (let e = ilog10 x - int n + 1 in (nat (round_half_even (x / 10 powi e)), e))"

definition shortest_digits :: "rat \<Rightarrow> nat \<times> int" where
  "shortest_digits x =
     (case List.find (\<lambda>(m, e). to_double (of_nat m * 10 powi e) = Fin x) (map (sig_round x) [1..<18]) of
        Some me \<Rightarrow> me | None \<Rightarrow> sig_round x 17)"

definition float_repr :: "pyfloat \<Rightarrow> string" where
  "float_repr x = (case x of NaN \<Rightarrow> ''nan'' | PInf \<Rightarrow> ''inf'' | NInf \<Rightarrow> ''-inf''
   | Fin r \<Rightarrow> if r = 0 then ''0.0'' else (if r < 0 then ''-'' else []) @
      (let (m, e) = shortest_digits \<bar>r\<bar>; ds = str_of_nat m; n = int (length ds); pt = n + e in
       if pt \<le> - 4 \<or> 16 < pt
       then hd ds # (if tl ds = [] then [] else CHR ''.'' # tl ds) @ ''e'' @
            (if pt - 1 < 0 then ''-'' else ''+'') @
            (let es = str_of_nat (nat \<bar>pt - 1\<bar>) in if length es < 2 then CHR ''0'' # es else es)
       else if pt \<le> 0 then ''0.'' @ replicate (nat (- pt)) CHR ''0'' @ ds
       else if n \<le> pt then ds @ replicate (nat (pt - n)) CHR ''0'' @ ''.0''
       else take (nat pt) ds @ CHR ''.'' # drop (nat pt) ds))"

definition hex_digit :: "nat \<Rightarrow> char" where
  "hex_digit d = (if d < 10 then char_of (48 + d) else char_of (87 + d))"

definition escape_char :: "char \<Rightarrow> char \<Rightarrow> string" where
  "escape_char q c = (let n = code_point c in
     if c = q \<or> n = 92 then [char_of (92 :: nat), c]
     else if n = 10 then [char_of (92 :: nat), CHR ''n'']
     else if n = 13 then [char_of (92 :: nat), CHR ''r'']
     else if n = 9 then [char_of (92 :: nat), CHR ''t'']
     else if n < 32 \<or> (127 \<le> n \<and> n \<le> 160) \<or> n = 173
     then [char_of (92 :: nat), CHR ''x'', hex_digit (n div 16), hex_digit (n mod 16)]
     else [c])"

definition str_repr :: "string \<Rightarrow> string" where
  "str_repr s = (let sq = char_of (39 :: nat); dq = char_of (34 :: nat);
      q = (if sq \<in> set s \<and> dq \<notin> set s then dq else sq)
    in q # concat (map (escape_char q) s) @ [q])"

fun py_repr :: "json \<Rightarrow> string" where
  "py_repr JNull = ''None''"
| "py_repr (JBool b) = (if b then ''True'' else ''False'')"
| "py_repr (JInt i) = str_of_int i"
| "py_repr (JFloat x) = float_repr x"
| "py_repr (JStr s) = str_repr s"
| "py_repr (JList vs) = ''['' @ join '', '' (map py_repr vs) @ '']''"
| "py_repr (JObj d) = ''{'' @ join '', '' (map (\<lambda>kv. str_repr (fst kv) @ '': '' @ py_repr (snd kv)) d) @ ''}''"

definition py_str :: "json \<Rightarrow> string" where
  "py_str v = (case v of JStr s \<Rightarrow> s | _ \<Rightarrow> py_repr v)"

section \<open>Conversions of a value\<close>

text \<open>\<open>float(v)\<close>\<close>

definition py_float :: "json \<Rightarrow> pyfloat res" where
  "py_float v = (case v of
     JInt i \<Rightarrow> float_of_int i
   | JBool b \<Rightarrow> Inr (Fin (of_bool b))
   | JFloat x \<Rightarrow> Inr x
   | JStr s \<Rightarrow> (case float_of_str s of Some x \<Rightarrow> Inr x
       | None \<Rightarrow> Inl (ValueError ''could not convert string to float''))
   | _ \<Rightarrow> Inl TypeError)"

text \<open>\<open>int(v)\<close>\<close>

definition py_int :: "json \<Rightarrow> int res" where
  "py_int v = (case v of
     JInt i \<Rightarrow> Inr i
   | JBool b \<Rightarrow> Inr (of_bool b)
   | JFloat x \<Rightarrow> (case x of Fin r \<Rightarrow> Inr (trunc_rat r)
       | NaN \<Rightarrow> Inl (ValueError ''cannot convert float NaN to integer'') | _ \<Rightarrow> Inl OverflowError)
   | JStr s \<Rightarrow> (case int_of_str s of Some i \<Rightarrow> Inr i
       | None \<Rightarrow> Inl (ValueError ''invalid literal for int()''))
   | _ \<Rightarrow> Inl TypeError)"

text \<open>\<open>d[k]\<close>\<close>

definition jitem :: "jobj \<Rightarrow> string \<Rightarrow> json res" where
  "jitem d k = (case map_of d k of None \<Rightarrow> Inl (KeyError k) | Some v \<Rightarrow> Inr v)"

section \<open>Counters\<close>

type_synonym 'k counter = "('k \<times> nat) list"

definition cget :: "'k counter \<Rightarrow> 'k \<Rightarrow> nat" where
  "cget c k = (case map_of c k of None \<Rightarrow> 0 | Some n \<Rightarrow> n)"

definition cinc :: "'k \<Rightarrow> 'k counter \<Rightarrow> 'k counter" where
  "cinc k c = jset c k (Suc (cget c k))"

definition ctotal :: "'k counter \<Rightarrow> nat" where
  "ctotal c = sum_list (map snd c)"

text \<open>\<open>if isinstance(v, str) and v: counter[v] += 1\<close>\<close>

definition cinc_str :: "json \<Rightarrow> string counter \<Rightarrow> string counter" where
  "cinc_str v c = (if nonempty_str v then cinc (the_str v) c else c)"

text \<open>\<open>dict(sorted(counter.items()))\<close>\<close>

definition sorted_items :: "string counter \<Rightarrow> string counter" where
  "sorted_items c = sort_key fst c"

definition counter_json :: "string counter \<Rightarrow> json" where
  "counter_json c = JObj (map (\<lambda>(k, n). (k, JInt (int n))) c)"

lemma ctotal_jset: "ctotal (jset c k n) + cget c k = ctotal c + n"
  by (induction c k n rule: jset.induct) (auto simp: ctotal_def cget_def)

text \<open>
  The interface of a counter: what the clients use of it is that incrementing adds one to one key
  and to the total.
\<close>

locale counter_ops =
  fixes empty :: "'c" and inc :: "'k \<Rightarrow> 'c \<Rightarrow> 'c" and get :: "'c \<Rightarrow> 'k \<Rightarrow> nat" and total :: "'c \<Rightarrow> nat"
  assumes get_empty: "get empty k = 0"
    and get_inc: "get (inc k c) k' = (if k' = k then Suc (get c k) else get c k')"
    and total_empty: "total empty = 0"
    and total_inc: "total (inc k c) = Suc (total c)"
begin

lemma get_fold: "get (fold inc ks c) k = get c k + count_list ks k"
  by (induction ks arbitrary: c) (simp_all add: get_inc)

lemma total_fold: "total (fold inc ks c) = total c + length ks"
  by (induction ks arbitrary: c) (simp_all add: total_inc)

lemma tally: "get (fold inc ks empty) k = count_list ks k"
  by (simp add: get_fold get_empty)

end

interpretation ctr: counter_ops "[]" cinc cget ctotal
proof
  fix k k' :: 'k and c :: "'k counter"
  show "cget [] k = 0" by (simp add: cget_def)
  show "cget (cinc k c) k' = (if k' = k then Suc (cget c k) else cget c k')"
    by (simp add: cget_def cinc_def)
  show "ctotal [] = 0" by (simp add: ctotal_def)
  show "ctotal (cinc k c) = Suc (ctotal c)"
    using ctotal_jset [of c k "Suc (cget c k)"] by (simp add: cinc_def)
qed

lemmas counter_simps = ctr.get_empty ctr.get_inc ctr.total_empty ctr.total_inc

lemma ctotal_sorted_items: "ctotal (sorted_items c) = ctotal c"
proof -
  have "mset (map snd (sorted_items c)) = mset (map snd c)"
    by (simp add: sorted_items_def)
  then show ?thesis
    unfolding ctotal_def by (metis sum_mset_sum_list)
qed

lemma distinct_cinc: "distinct (map fst c) \<Longrightarrow> distinct (map fst (cinc k c))"
  by (simp add: cinc_def distinct_jset)

lemma keys_cinc: "set (map fst (cinc k c)) = insert k (set (map fst c))"
  by (simp add: cinc_def keys_jset del: set_map)

lemma ctotal_cinc_str: "ctotal (cinc_str v c) = (if nonempty_str v then Suc (ctotal c) else ctotal c)"
  by (simp add: cinc_str_def counter_simps)

section \<open>Reading a JSON-lines file\<close>

text \<open>
  \<open>read_jsonl\<close> is a generator: rows are handed out one at a time, and a bad line raises when the
  consumer reaches it. Its result is the list of what the generator yields, with the exception, if
  any, as its last item. \<open>loads\<close> is \<open>json.loads\<close> (\<open>None\<close>: it raises \<open>JSONDecodeError\<close>);
  the two exceptions depend on the script and on the line number.
\<close>

type_synonym item = "exn + (nat \<times> jobj)"

fun jsonl_items :: "(nat \<Rightarrow> exn) \<Rightarrow> (nat \<Rightarrow> exn) \<Rightarrow> (string \<Rightarrow> json option) \<Rightarrow> nat \<Rightarrow> string list \<Rightarrow> item list" where
  "jsonl_items bad_json not_obj loads n [] = []"
| "jsonl_items bad_json not_obj loads n (l # ls) =
     (if strip l = [] then jsonl_items bad_json not_obj loads (Suc n) ls
      else case loads (strip l) of
        None \<Rightarrow> [Inl (bad_json n)]
      | Some (JObj d) \<Rightarrow> Inr (n, d) # jsonl_items bad_json not_obj loads (Suc n) ls
      | Some _ \<Rightarrow> [Inl (not_obj n)])"

text \<open>The rows read before the first bad line.\<close>

fun rows_of :: "item list \<Rightarrow> (nat \<times> jobj) list" where
  "rows_of (Inr r # is) = r # rows_of is"
| "rows_of _ = []"

text \<open>A \<open>for\<close> loop over the generator.\<close>

fun for_items :: "('s \<Rightarrow> nat \<Rightarrow> jobj \<Rightarrow> 's res) \<Rightarrow> 's \<Rightarrow> item list \<Rightarrow> 's res" where
  "for_items f s [] = Inr s"
| "for_items f s (Inl e # is) = Inl e"
| "for_items f s (Inr (n, d) # is) = bind_res (f s n d) (\<lambda>s'. for_items f s' is)"

lemma for_items_rows:
  "for_items f s is = Inr s' \<Longrightarrow> is = map Inr (rows_of is) \<and> foldM (\<lambda>s (n, d). f s n d) s (rows_of is) = Inr s'"
proof (induction f s "is" rule: for_items.induct)
  case (3 f s n d "is")
  then obtain s1 where "f s n d = Inr s1" "for_items f s1 is = Inr s'" by auto
  with "3.IH" [of s1] show ?case by simp
qed simp_all

lemma for_items_map_Inr: "for_items f s (map Inr rs) = foldM (\<lambda>s (n, d). f s n d) s rs"
  by (induction rs arbitrary: s) (auto split: sum.splits prod.splits)

lemma for_items_invariant:
  assumes "for_items f s is = Inr s'" "P s"
    and "\<And>s n d s'. Inr (n, d) \<in> set is \<Longrightarrow> P s \<Longrightarrow> f s n d = Inr s' \<Longrightarrow> P s'"
  shows "P s'"
  using assms
proof (induction f s "is" rule: for_items.induct)
  case (3 f s n d "is")
  then obtain s1 where s1: "f s n d = Inr s1" "for_items f s1 is = Inr s'" by auto
  have "P s1" by (rule "3.prems"(3) [of n d s s1]) (simp_all add: "3.prems" s1)
  with s1 show ?case by (rule "3.IH") (rule "3.prems"(3), auto)
qed simp_all

text \<open>What a loop over the lines raises: the exception of a bad line or of the body.\<close>

lemma for_items_exn:
  assumes "for_items f s is = Inl x" "\<And>y. Inl y \<in> set is \<Longrightarrow> P y" "\<And>s n row y. f s n row = Inl y \<Longrightarrow> P y"
  shows "P x"
  using assms by (induction f s "is" rule: for_items.induct) (auto simp: bind_res_def split: sum.splits)

lemma jsonl_items_exn: "Inl y \<in> set (jsonl_items f g loads n ls) \<Longrightarrow> \<exists>m. y = f m \<or> y = g m"
  by (induction f g loads n ls rule: jsonl_items.induct) (auto split: if_splits option.splits json.splits)

end
