(* ===== verification/Scanning.thy ===== *)
theory Scanning
  imports PyValue
begin

text \<open>
  The regular expressions the scripts share (the raw PaySim identifier, the pseudonymous ids, the
  SHA-256 digest) and the walk over a JSON value that refuses raw identifiers and forbidden fields.

  Four scripts carry their own copy of that walk, with different forbidden fields and messages;
  \<open>scan_json\<close> is the walk, and each script's \<open>scan_forbidden\<close> is an instance in its own theory.
  The locale \<open>forbidden_scanner\<close> is the contract the scripts' callers rely on: the scan passes
  exactly the values without a forbidden key and without a raw identifier at any depth.
\<close>

section \<open>Regular expressions\<close>

text \<open>\<open>RAW_IDENTIFIER_PATTERN.search(s)\<close>: between two word boundaries, a C or an M and then three
  or more digits. The digits are taken greedily: fewer of them would be followed by a digit, which is
  no boundary.\<close>

definition digits_then_boundary :: "string \<Rightarrow> bool" where
  "digits_then_boundary s \<longleftrightarrow> 3 \<le> length (takeWhile is_digit s) \<and>
     (case dropWhile is_digit s of [] \<Rightarrow> True | c # _ \<Rightarrow> \<not> is_word_char c)"

fun raw_id_from :: "bool \<Rightarrow> string \<Rightarrow> bool" where
  "raw_id_from prev_word [] = False"
| "raw_id_from prev_word (c # cs) =
     ((\<not> prev_word \<and> (c = CHR ''C'' \<or> c = CHR ''M'') \<and> digits_then_boundary cs)
      \<or> raw_id_from (is_word_char c) cs)"

definition raw_identifier_search :: "string \<Rightarrow> bool" where
  "raw_identifier_search s = raw_id_from False s"

text \<open>What the expression means, independently of the matching order.\<close>

definition contains_raw_identifier :: "string \<Rightarrow> bool" where
  "contains_raw_identifier s \<longleftrightarrow> (\<exists>p c ds q. s = p @ c # ds @ q
     \<and> (c = CHR ''C'' \<or> c = CHR ''M'') \<and> 3 \<le> length ds \<and> list_all is_digit ds
     \<and> (p = [] \<or> \<not> is_word_char (last p)) \<and> (q = [] \<or> \<not> is_word_char (hd q)))"

lemma digits_then_boundary_iff:
  "digits_then_boundary s \<longleftrightarrow> (\<exists>ds q. s = ds @ q \<and> 3 \<le> length ds \<and> list_all is_digit ds
     \<and> (q = [] \<or> \<not> is_word_char (hd q)))"
proof
  assume "digits_then_boundary s"
  then show "\<exists>ds q. s = ds @ q \<and> 3 \<le> length ds \<and> list_all is_digit ds \<and> (q = [] \<or> \<not> is_word_char (hd q))"
    unfolding digits_then_boundary_def
    by (intro exI [of _ "takeWhile is_digit s"] exI [of _ "dropWhile is_digit s"])
       (auto simp: list_all_iff dest: set_takeWhileD split: list.splits)
next
  assume "\<exists>ds q. s = ds @ q \<and> 3 \<le> length ds \<and> list_all is_digit ds \<and> (q = [] \<or> \<not> is_word_char (hd q))"
  then obtain ds q where s: "s = ds @ q" "3 \<le> length ds" "list_all is_digit ds"
    and q: "q = [] \<or> \<not> is_word_char (hd q)" by blast
  have "takeWhile is_digit q = [] \<and> dropWhile is_digit q = q"
    using q by (cases q) (auto simp: digit_is_word)
  then have "takeWhile is_digit s = ds \<and> dropWhile is_digit s = q"
    using s(3) unfolding s(1) by (simp add: list_all_iff takeWhile_append2 dropWhile_append2)
  then have t: "takeWhile is_digit s = ds" "dropWhile is_digit s = q" by simp_all
  show "digits_then_boundary s"
    unfolding digits_then_boundary_def t using s(2) q by (cases q) simp_all
qed

lemma ex_append_Cons:
  "(\<exists>p d t. c # cs = p @ d # t \<and> Q p d t) \<longleftrightarrow> Q [] c cs \<or> (\<exists>p d t. cs = p @ d # t \<and> Q (c # p) d t)"
  (is "?L \<longleftrightarrow> ?R")
proof
  assume ?L
  then obtain p d t where "c # cs = p @ d # t" "Q p d t" by blast
  then show ?R by (cases p) auto
next
  assume ?R
  then show ?L by (metis append_Cons append_Nil)
qed

definition id_occurs :: "bool \<Rightarrow> string \<Rightarrow> char \<Rightarrow> string \<Rightarrow> bool" where
  "id_occurs w p c t \<longleftrightarrow> (c = CHR ''C'' \<or> c = CHR ''M'') \<and> digits_then_boundary t
     \<and> (if p = [] then \<not> w else \<not> is_word_char (last p))"

lemma id_occurs_Cons: "id_occurs w (c # p) d t \<longleftrightarrow> id_occurs (is_word_char c) p d t"
  by (simp add: id_occurs_def)

lemma raw_id_from_iff:
  "raw_id_from w s \<longleftrightarrow> (\<exists>p c t. s = p @ c # t \<and> id_occurs w p c t)"
proof (induction w s rule: raw_id_from.induct)
  case (2 w c cs)
  have "raw_id_from w (c # cs) \<longleftrightarrow> id_occurs w [] c cs \<or> raw_id_from (is_word_char c) cs"
    by (auto simp: id_occurs_def)
  then show ?case by (simp only: ex_append_Cons id_occurs_Cons "2.IH")
qed simp

lemma raw_identifier_search_iff: "raw_identifier_search s \<longleftrightarrow> contains_raw_identifier s"
proof
  assume "raw_identifier_search s"
  then obtain p c t where s: "s = p @ c # t" "id_occurs False p c t"
    unfolding raw_identifier_search_def raw_id_from_iff by blast
  then obtain ds q where "t = ds @ q" "3 \<le> length ds" "list_all is_digit ds" "q = [] \<or> \<not> is_word_char (hd q)"
    unfolding id_occurs_def digits_then_boundary_iff by blast
  with s show "contains_raw_identifier s"
    unfolding contains_raw_identifier_def id_occurs_def by (metis (full_types))
next
  assume "contains_raw_identifier s"
  then obtain p c ds q where s: "s = p @ c # ds @ q" "c = CHR ''C'' \<or> c = CHR ''M''"
    "3 \<le> length ds" "list_all is_digit ds" "p = [] \<or> \<not> is_word_char (last p)"
    "q = [] \<or> \<not> is_word_char (hd q)"
    unfolding contains_raw_identifier_def by blast
  then have "id_occurs False p c (ds @ q)"
    unfolding id_occurs_def digits_then_boundary_iff by auto
  with s(1) show "raw_identifier_search s"
    unfolding raw_identifier_search_def raw_id_from_iff by blast
qed

text \<open>A text without the letters C and M has no raw identifier.\<close>

lemma no_raw_identifier:
  "CHR ''C'' \<notin> set s \<Longrightarrow> CHR ''M'' \<notin> set s \<Longrightarrow> \<not> raw_identifier_search s"
  by (auto simp: raw_identifier_search_iff contains_raw_identifier_def)

text \<open>\<open>re.compile(r"^X-[0-9a-f]{16}$").match(s)\<close>: \<open>$\<close> also matches before a line end at the end
  of the text.\<close>

definition before_dollar :: "string \<Rightarrow> string list" where
  "before_dollar s = (if s \<noteq> [] \<and> last s = char_of (10 :: nat) then [s, butlast s] else [s])"

definition hash_id_full :: "char \<Rightarrow> string \<Rightarrow> bool" where
  "hash_id_full x t \<longleftrightarrow> length t = 18 \<and> take 2 t = [x, CHR ''-''] \<and> list_all is_lower_hex (drop 2 t)"

definition hash_id_match :: "char \<Rightarrow> string \<Rightarrow> bool" where
  "hash_id_match x s \<longleftrightarrow> list_ex (hash_id_full x) (before_dollar s)"

definition sha256_match :: "string \<Rightarrow> bool" where
  "sha256_match s \<longleftrightarrow> list_ex (\<lambda>t. length t = 64 \<and> list_all is_hex t) (before_dollar s)"

lemma hash_id_full_match: "hash_id_full x s \<Longrightarrow> hash_id_match x s"
  by (simp add: hash_id_match_def before_dollar_def)

section \<open>The walk over a value\<close>

fun scan_json :: "(jobj \<Rightarrow> string \<Rightarrow> string \<Rightarrow> exn option) \<Rightarrow> (string \<Rightarrow> exn) \<Rightarrow> string \<Rightarrow> json \<Rightarrow> exn option"
  and scan_fields :: "(jobj \<Rightarrow> string \<Rightarrow> string \<Rightarrow> exn option) \<Rightarrow> (string \<Rightarrow> exn) \<Rightarrow> string \<Rightarrow> jobj \<Rightarrow> jobj \<Rightarrow> exn option"
  and scan_elems :: "(jobj \<Rightarrow> string \<Rightarrow> string \<Rightarrow> exn option) \<Rightarrow> (string \<Rightarrow> exn) \<Rightarrow> string \<Rightarrow> nat \<Rightarrow> json list \<Rightarrow> exn option"
where
  "scan_json ck es path (JObj d) = scan_fields ck es path d d"
| "scan_json ck es path (JList vs) = scan_elems ck es path 0 vs"
| "scan_json ck es path (JStr s) = raise_if (raw_identifier_search s) (es path)"
| "scan_json ck es path _ = None"
| "scan_fields ck es path d [] = None"
| "scan_fields ck es path d ((k, v) # r) =
     (case ck d (path @ ''.'' @ k) k of Some e \<Rightarrow> Some e
      | None \<Rightarrow> (case scan_json ck es (path @ ''.'' @ k) v of Some e \<Rightarrow> Some e
                | None \<Rightarrow> scan_fields ck es path d r))"
| "scan_elems ck es path i [] = None"
| "scan_elems ck es path i (v # vs) =
     (case scan_json ck es (path @ ''['' @ str_of_nat i @ '']'') v of Some e \<Rightarrow> Some e
      | None \<Rightarrow> scan_elems ck es path (Suc i) vs)"

fun all_keys :: "json \<Rightarrow> string list" where
  "all_keys (JObj d) = concat (map (\<lambda>kv. fst kv # all_keys (snd kv)) d)"
| "all_keys (JList vs) = concat (map all_keys vs)"
| "all_keys _ = []"

fun all_strings :: "json \<Rightarrow> string list" where
  "all_strings (JObj d) = concat (map (\<lambda>kv. all_strings (snd kv)) d)"
| "all_strings (JList vs) = concat (map all_strings vs)"
| "all_strings (JStr s) = [s]"
| "all_strings _ = []"

definition clean :: "(string \<Rightarrow> bool) \<Rightarrow> json \<Rightarrow> bool" where
  "clean bad v \<longleftrightarrow> (\<forall>k \<in> set (all_keys v). \<not> bad k) \<and> (\<forall>s \<in> set (all_strings v). \<not> raw_identifier_search s)"

lemma clean_simps [simp]:
  "clean bad (JObj d) \<longleftrightarrow> (\<forall>(k, v) \<in> set d. \<not> bad k \<and> clean bad v)"
  "clean bad (JList vs) \<longleftrightarrow> (\<forall>v \<in> set vs. clean bad v)"
  "clean bad (JStr s) \<longleftrightarrow> \<not> raw_identifier_search s"
  "clean bad JNull" "clean bad (JBool b)" "clean bad (JInt i)" "clean bad (JFloat x)"
  by (auto simp: clean_def)

lemma case_first_None [simp]:
  "(case a of Some e \<Rightarrow> Some e | None \<Rightarrow> b) = None \<longleftrightarrow> a = None \<and> b = None"
  by (cases a) auto

lemma scan_json_None_iff:
  assumes "\<And>d path k. ck d path k = None \<longleftrightarrow> \<not> bad k"
  shows "scan_json ck es path v = None \<longleftrightarrow> clean bad v"
    and "scan_fields ck es path d r = None \<longleftrightarrow> (\<forall>(k, v) \<in> set r. \<not> bad k \<and> clean bad v)"
    and "scan_elems ck es path i vs = None \<longleftrightarrow> (\<forall>v \<in> set vs. clean bad v)"
  using assms
  by (induction ck es path v and ck es path d r and ck es path i vs
      rule: scan_json_scan_fields_scan_elems.induct) auto

text \<open>What the walk raises comes from one of its two error functions.\<close>

lemma scan_json_Some:
  assumes "\<And>d path k x. ck d path k = Some x \<Longrightarrow> P x" "\<And>path. P (es path)"
  shows "scan_json ck es path v = Some x \<Longrightarrow> P x"
    and "scan_fields ck es path d r = Some x \<Longrightarrow> P x"
    and "scan_elems ck es path i vs = Some x \<Longrightarrow> P x"
  using assms
  by (induction ck es path v and ck es path d r and ck es path i vs
      rule: scan_json_scan_fields_scan_elems.induct) (auto split: option.splits)

locale forbidden_scanner =
  fixes scan :: "json \<Rightarrow> exn option" and bad :: "string \<Rightarrow> bool"
  assumes scan_passes: "scan v = None \<longleftrightarrow> clean bad v"
begin

lemma no_bad_key: "scan (JObj d) = None \<Longrightarrow> bad k \<Longrightarrow> \<not> has_key d k"
  by (force simp: scan_passes has_key_def)

lemma no_raw_string: "scan (JObj d) = None \<Longrightarrow> (k, JStr s) \<in> set d \<Longrightarrow> \<not> contains_raw_identifier s"
  by (auto simp: scan_passes simp flip: raw_identifier_search_iff)

lemma member_passes: "scan (JObj d) = None \<Longrightarrow> (k, v) \<in> set d \<Longrightarrow> scan v = None"
  by (auto simp: scan_passes)

lemma sub_object_passes: "scan (JObj d) = None \<Longrightarrow> set d' \<subseteq> set d \<Longrightarrow> scan (JObj d') = None"
  by (auto simp: scan_passes)

lemma rejects_raw_anywhere: "s \<in> set (all_strings v) \<Longrightarrow> contains_raw_identifier s \<Longrightarrow> scan v \<noteq> None"
  by (auto simp: scan_passes clean_def raw_identifier_search_iff)

lemma rejects_key_anywhere: "k \<in> set (all_keys v) \<Longrightarrow> bad k \<Longrightarrow> scan v \<noteq> None"
  by (auto simp: scan_passes clean_def)

end

end
