(* ===== verification/TypeMapping.thy ===== *)
theory TypeMapping
  imports PyValue
begin

text \<open>
  \<open>scripts/data/paysim_native_type_mapping.py\<close>: the policy that maps a native PaySim transaction
  type to the transaction type of the runtime contract. The table is a list of pairs in the order of
  the source; \<open>mapping_for\<close> looks a type up and gives an unknown one the "unsupported" mapping.

  The lemmas say which types are mapped and to what, and that a type is mapped to nothing exactly
  when it is unsupported, with a reason that starts with \<open>UNSUPPORTED_NATIVE_TYPE:\<close>.
\<close>

definition MAPPING_POLICY_VERSION :: string where
  "MAPPING_POLICY_VERSION = ''paysim-native-mapping-v1''"

record type_mapping =
  native_type :: string
  normalized_type :: "string option"
  support_level :: string
  rule_interpretation :: string
  evaluation_denominator :: string
  excluded_reason :: "string option"
  semantic_loss_risk :: string
  next_action :: string

definition json_of_option :: "string option \<Rightarrow> json" where
  "json_of_option v = (case v of None \<Rightarrow> JNull | Some s \<Rightarrow> JStr s)"

definition mapping_as_dict :: "type_mapping \<Rightarrow> json" where
  "mapping_as_dict m = JObj
    [(''nativeType'', JStr (native_type m)),
     (''normalizedType'', json_of_option (normalized_type m)),
     (''supportLevel'', JStr (support_level m)),
     (''ruleInterpretation'', JStr (rule_interpretation m)),
     (''evaluationDenominator'', JStr (evaluation_denominator m)),
     (''excludedReason'', json_of_option (excluded_reason m)),
     (''semanticLossRisk'', JStr (semantic_loss_risk m)),
     (''nextAction'', JStr (next_action m))]"

definition TYPE_MAPPINGS :: "(string \<times> type_mapping) list" where
  "TYPE_MAPPINGS =
    [(''PAYMENT'',
      \<lparr>native_type = ''PAYMENT'', normalized_type = Some ''PAYMENT'',
       support_level = ''production-supported'',
       rule_interpretation = ''normal payment behavior'',
       evaluation_denominator = ''included'', excluded_reason = None,
       semantic_loss_risk = ''low'', next_action = ''keep''\<rparr>),
     (''TRANSFER'',
      \<lparr>native_type = ''TRANSFER'', normalized_type = Some ''TRANSFER'',
       support_level = ''production-supported'',
       rule_interpretation = ''transfer risk behavior'',
       evaluation_denominator = ''included'', excluded_reason = None,
       semantic_loss_risk = ''low'', next_action = ''keep''\<rparr>),
     (''CASH_OUT'',
      \<lparr>native_type = ''CASH_OUT'', normalized_type = Some ''WITHDRAWAL'',
       support_level = ''replay-supported'',
       rule_interpretation = ''cash-out mapped to withdrawal-like outflow for replay'',
       evaluation_denominator = ''included'', excluded_reason = None,
       semantic_loss_risk = ''high'',
       next_action = ''review Rule V2 semantics before production use''\<rparr>),
     (''CASH_IN'',
      \<lparr>native_type = ''CASH_IN'', normalized_type = Some ''DEPOSIT'',
       support_level = ''replay-supported'',
       rule_interpretation = ''cash-in mapped to deposit-like inflow for replay'',
       evaluation_denominator = ''included'', excluded_reason = None,
       semantic_loss_risk = ''medium'',
       next_action = ''review false positive impact before production use''\<rparr>),
     (''DEBIT'',
      \<lparr>native_type = ''DEBIT'', normalized_type = None,
       support_level = ''unsupported'',
       rule_interpretation = ''not interpreted by current transaction contract'',
       evaluation_denominator = ''excluded'', excluded_reason = Some ''UNSUPPORTED_NATIVE_TYPE:DEBIT'',
       semantic_loss_risk = ''high'',
       next_action = ''define separate debit semantics before inclusion''\<rparr>)]"

definition mapping_for :: "string \<Rightarrow> type_mapping" where
  "mapping_for t =
    (case map_of TYPE_MAPPINGS t of
       None \<Rightarrow>
         \<lparr>native_type = t, normalized_type = None, support_level = ''unsupported'',
          rule_interpretation = ''unknown PaySim native type'',
          evaluation_denominator = ''excluded'',
          excluded_reason = Some (''UNSUPPORTED_NATIVE_TYPE:'' @ t),
          semantic_loss_risk = ''unknown'',
          next_action = ''add explicit mapping before replay inclusion''\<rparr>
     | Some m \<Rightarrow> m)"

definition mapping_policy_table :: json where
  "mapping_policy_table =
     JList (map (\<lambda>k. mapping_as_dict (mapping_for k)) (sort (map fst TYPE_MAPPINGS)))"

section \<open>What the policy says\<close>

lemma map_of_TYPE_MAPPINGS_cases:
  assumes "map_of TYPE_MAPPINGS t = Some m"
  shows "t \<in> {''PAYMENT'', ''TRANSFER'', ''CASH_OUT'', ''CASH_IN'', ''DEBIT''}"
  using map_of_SomeD [OF assms] by (auto simp: TYPE_MAPPINGS_def)

text \<open>The normalised type and the support level of every native type.\<close>

lemma normalized_type_mapping_for:
  "normalized_type (mapping_for t) =
    (if t = ''PAYMENT'' then Some ''PAYMENT'' else if t = ''TRANSFER'' then Some ''TRANSFER''
     else if t = ''CASH_OUT'' then Some ''WITHDRAWAL'' else if t = ''CASH_IN'' then Some ''DEPOSIT''
     else None)"
  by (simp add: mapping_for_def TYPE_MAPPINGS_def)

lemma support_level_mapping_for:
  "support_level (mapping_for t) =
    (if t = ''PAYMENT'' \<or> t = ''TRANSFER'' then ''production-supported''
     else if t = ''CASH_OUT'' \<or> t = ''CASH_IN'' then ''replay-supported'' else ''unsupported'')"
  by (simp add: mapping_for_def TYPE_MAPPINGS_def)

lemma excluded_reason_mapping_for:
  "excluded_reason (mapping_for t) =
    (if t \<in> {''PAYMENT'', ''TRANSFER'', ''CASH_OUT'', ''CASH_IN''} then None
     else Some (''UNSUPPORTED_NATIVE_TYPE:'' @ t))"
  by (simp add: mapping_for_def TYPE_MAPPINGS_def)

lemma native_type_mapping_for [simp]: "native_type (mapping_for t) = t"
  by (simp add: mapping_for_def TYPE_MAPPINGS_def)

lemmas mapping_for_simps =
  normalized_type_mapping_for support_level_mapping_for excluded_reason_mapping_for

end
