(* ===== verification/DateTime.thy ===== *)
theory DateTime
  imports PyFloat
begin

text \<open>
  The part of Python's \<open>datetime\<close> the scripts use to write UTC times. An instant is the number of
  microseconds since midnight of 1 January of year 1; \<open>ord2ymd\<close> is the conversion of a day number
  to a date of the proleptic Gregorian calendar, and \<open>iso_z\<close> is
  \<open>value.astimezone(timezone.utc).isoformat().replace("+00:00", "Z")\<close>.
\<close>

definition is_leap :: "int \<Rightarrow> bool" where
  "is_leap y \<longleftrightarrow> y mod 4 = 0 \<and> (y mod 100 \<noteq> 0 \<or> y mod 400 = 0)"

definition days_before_year :: "int \<Rightarrow> int" where
  "days_before_year y = (let p = y - 1 in p * 365 + p div 4 - p div 100 + p div 400)"

definition days_in_month :: "int \<Rightarrow> nat \<Rightarrow> int" where
  "days_in_month y m = (if m = 2 then (if is_leap y then 29 else 28)
     else if m \<in> {4, 6, 9, 11} then 30 else 31)"

definition days_before_month :: "int \<Rightarrow> nat \<Rightarrow> int" where
  "days_before_month y m = sum_list (map (days_in_month y) [1..<m])"

definition ymd2ord :: "int \<Rightarrow> nat \<Rightarrow> int \<Rightarrow> int" where
  "ymd2ord y m d = days_before_year y + days_before_month y m + d"

text \<open>The month and day of the 0-based day \<open>n\<close> of year \<open>y\<close>, looking the month up from January.\<close>

fun month_day :: "int \<Rightarrow> nat list \<Rightarrow> int \<Rightarrow> nat \<times> int" where
  "month_day y [] n = (12, n + 1)"
| "month_day y (m # ms) n =
     (if n < days_in_month y m \<or> ms = [] then (m, n + 1) else month_day y ms (n - days_in_month y m))"

definition ord2ymd :: "int \<Rightarrow> int \<times> nat \<times> int" where
  "ord2ymd n =
     (let n0 = n - 1; n400 = n0 div 146097; a = n0 mod 146097;
          n100 = a div 36524; b = a mod 36524;
          n4 = b div 1461; c = b mod 1461;
          n1 = c div 365; d = c mod 365;
          y = n400 * 400 + 1 + n100 * 100 + n4 * 4 + n1
      in if n1 = 4 \<or> n100 = 4 then (y - 1, 12, 31)
         else let (m, day) = month_day y [1..<13] d in (y, m, day))"

definition pad :: "nat \<Rightarrow> nat \<Rightarrow> string" where
  "pad w n = (let s = str_of_nat n in replicate (w - length s) CHR ''0'' @ s)"

abbreviation micros_per_hour :: int where
  "micros_per_hour \<equiv> 3600000000"

definition iso_z :: "int \<Rightarrow> string" where
  "iso_z t =
     (let (y, m, d) = ord2ymd (t div 86400000000 + 1); r = t mod 86400000000;
          us = nat (r mod 1000000); secs = nat (r div 1000000)
      in pad 4 (nat y) @ ''-'' @ pad 2 m @ ''-'' @ pad 2 (nat d) @ ''T'' @
         pad 2 (secs div 3600) @ '':'' @ pad 2 (secs div 60 mod 60) @ '':'' @ pad 2 (secs mod 60) @
         (if us = 0 then [] else CHR ''.'' # pad 6 us) @ ''Z'')"

text \<open>\<open>s.replace("Z", "+00:00")\<close>, which the scripts apply before \<open>datetime.fromisoformat\<close>\<close>

definition replace_z :: "string \<Rightarrow> string" where
  "replace_z s = concat (map (\<lambda>c. if c = CHR ''Z'' then ''+00:00'' else [c]) s)"

text \<open>The last instant a \<open>datetime\<close> can hold is the end of year 9999.\<close>

definition max_instant :: int where
  "max_instant = 3652059 * 86400000000 - 1"

text \<open>\<open>value + timedelta(hours=h)\<close>\<close>

definition add_hours :: "int \<Rightarrow> int \<Rightarrow> int res" where
  "add_hours t h =
     (let u = t + h * micros_per_hour in
      if \<bar>h * micros_per_hour div 86400000000\<bar> > 999999999 \<or> u < 0 \<or> max_instant < u
      then Inl OverflowError else Inr u)"

lemma pad_digits: "list_all is_digit (pad w n)"
proof -
  have "is_digit CHR ''0''" by (simp add: is_digit_def)
  then show ?thesis
    using str_of_nat_digits [of n] by (auto simp: pad_def Let_def list_all_iff)
qed

lemma pad_nonempty [simp]: "pad w n \<noteq> []"
  by (simp add: pad_def Let_def)

lemma set_iso_z: "set (iso_z t) \<subseteq> {c. is_digit c} \<union> {CHR ''-'', CHR ''T'', CHR '':'', CHR ''.'', CHR ''Z''}"
proof -
  have p: "set (pad w n) \<subseteq> {c. is_digit c}" for w n
    using pad_digits [of w n] by (auto simp: list_all_iff)
  obtain y m d where ymd: "ord2ymd (t div 86400000000 + 1) = (y, m, d)"
    by (metis prod.exhaust)
  show ?thesis
    unfolding iso_z_def Let_def ymd prod.case using p by (fastforce split: if_splits)
qed

lemma iso_z_nonempty: "iso_z t \<noteq> []"
  by (auto simp: iso_z_def Let_def split: prod.splits)

end
