(* ===== verification/Replay.thy ===== *)
theory Replay
  imports Scanning TypeMapping DateTime
begin

text \<open>
  \<open>scripts/data/replay_paysim_events.py\<close>: normalised PaySim events are validated, turned into
  requests of the transaction intake and posted with retries; a report counts what happened.

  The data model is \<open>replay_args\<close> (the command line), \<open>replay_stats\<close> (the dataclass
  \<open>ReplayStats\<close>) and \<open>replay_state\<close>: the statistics together with what the script does to the
  outside, the requests posted so far, the readings of the monotonic clock and the pauses. The
  environment \<open>replay_env\<close> holds what the outside answers: the lines of the input file, the process
  environment, the outcome of the n-th HTTP request, the n-th clock reading, and \<open>json.loads\<close>.
\<close>

section \<open>Constants and data\<close>

definition MAX_SAMPLE_EVENT_IDS :: nat where "MAX_SAMPLE_EVENT_IDS = 10"

definition MAX_FAILURES :: nat where "MAX_FAILURES = 50"

definition LABEL_FIELDS :: "string list" where
  "LABEL_FIELDS = [''isFraud'', ''isFlaggedFraud'', ''sourceFlaggedFraud'']"

definition RAW_FIELDS :: "string list" where
  "RAW_FIELDS = [''nameOrig'', ''nameDest'']"

definition REQUIRED_FIELDS :: "string list" where
  "REQUIRED_FIELDS = [''eventId'', ''userId'', ''accountId'', ''destinationAccountId'', ''eventType'',
     ''amount'', ''currency'', ''eventTime'', ''traceId'']"

definition REQUEST_FIELDS :: "string list" where
  "REQUEST_FIELDS = [''eventId'', ''userId'', ''accountId'', ''eventType'', ''amount'', ''currency'',
     ''merchantId'', ''deviceId'', ''location'', ''eventTime'']"

definition CURRENT_API_EVENT_TYPES :: "string list" where
  "CURRENT_API_EVENT_TYPES = [''PAYMENT'', ''TRANSFER'', ''WITHDRAWAL'', ''DEPOSIT'']"

record replay_args =
  ra_input :: string
  ra_endpoint :: string
  ra_max_events :: "int option"
  ra_rate_per_second :: pyfloat
  ra_timeout_seconds :: pyfloat
  ra_report_output :: string
  ra_dry_run :: bool
  ra_force :: bool
  ra_event_id_prefix :: "string option"
  ra_idempotency_mode :: string
  ra_event_type_policy :: string
  ra_retry_count :: int
  ra_retry_connection_error :: bool
  ra_stop_on_error :: bool
  ra_auth_token :: "string option"
  ra_auth_token_env :: string

text \<open>The defaults of the command line.\<close>

definition default_replay_args :: replay_args where
  "default_replay_args =
    \<lparr>ra_input = ''data/samples/paysim-events-sample.jsonl'',
     ra_endpoint = ''http://localhost:8080/api/v1/transactions/events'',
     ra_max_events = None,
     ra_rate_per_second = Fin 10,
     ra_timeout_seconds = Fin 3,
     ra_report_output = ''data/processed/paysim-replay-report.json'',
     ra_dry_run = False,
     ra_force = False,
     ra_event_id_prefix = None,
     ra_idempotency_mode = ''preserve'',
     ra_event_type_policy = ''current-api'',
     ra_retry_count = 0,
     ra_retry_connection_error = False,
     ra_stop_on_error = False,
     ra_auth_token = None,
     ra_auth_token_env = ''PAYSIM_REPLAY_AUTH_TOKEN''\<rparr>"

record failure_record =
  fr_row_number :: nat
  fr_reason :: string
  fr_event_id :: "string option"

definition truthy_opt :: "string option \<Rightarrow> bool" where
  "truthy_opt v \<longleftrightarrow> v \<noteq> None \<and> v \<noteq> Some []"

definition failure_as_dict :: "failure_record \<Rightarrow> json" where
  "failure_as_dict f = JObj
    ([(''rowNumber'', JInt (int (fr_row_number f))), (''reason'', JStr (fr_reason f))] @
     (if truthy_opt (fr_event_id f) then [(''eventId'', JStr (the (fr_event_id f)))] else []))"

record replay_stats =
  total_read :: nat
  payload_accepted :: nat
  payload_rejected :: nat
  http_success :: nat
  http_duplicate_or_conflict :: nat
  http_client_error :: nat
  http_server_error :: nat
  timeout_count :: nat
  connection_error :: nat
  retry_attempts :: nat
  retry_timeout_attempts :: nat
  retry_server_error_attempts :: nat
  retry_connection_error_attempts :: nat
  missing_mapping_metadata :: nat
  dropped_fields :: "string counter"
  unsupported_event_types :: "string counter"
  input_native_types :: "string counter"
  input_normalized_types :: "string counter"
  input_support_levels :: "string counter"
  accepted_native_types :: "string counter"
  accepted_normalized_types :: "string counter"
  accepted_support_levels :: "string counter"
  rejected_native_types :: "string counter"
  rejected_normalized_types :: "string counter"
  rejected_support_levels :: "string counter"
  excluded_by_type :: "string counter"
  mapping_policy_versions :: "string counter"
  replay_sample_ids :: "string list"
  failures :: "failure_record list"

definition empty_stats :: replay_stats where
  "empty_stats =
    \<lparr>total_read = 0, payload_accepted = 0, payload_rejected = 0, http_success = 0,
     http_duplicate_or_conflict = 0, http_client_error = 0, http_server_error = 0, timeout_count = 0,
     connection_error = 0, retry_attempts = 0, retry_timeout_attempts = 0,
     retry_server_error_attempts = 0, retry_connection_error_attempts = 0,
     missing_mapping_metadata = 0, dropped_fields = [], unsupported_event_types = [],
     input_native_types = [], input_normalized_types = [], input_support_levels = [],
     accepted_native_types = [], accepted_normalized_types = [], accepted_support_levels = [],
     rejected_native_types = [], rejected_normalized_types = [], rejected_support_levels = [],
     excluded_by_type = [], mapping_policy_versions = [], replay_sample_ids = [], failures = []\<rparr>"

definition add_failure :: "nat \<Rightarrow> string \<Rightarrow> string option \<Rightarrow> replay_stats \<Rightarrow> replay_stats" where
  "add_failure row reason eid s =
    (if length (failures s) < MAX_FAILURES
     then s\<lparr>failures := failures s @ [\<lparr>fr_row_number = row, fr_reason = reason, fr_event_id = eid\<rparr>]\<rparr>
     else s)"

definition add_sample_event_id :: "string \<Rightarrow> replay_stats \<Rightarrow> replay_stats" where
  "add_sample_event_id eid s =
    (if length (replay_sample_ids s) < MAX_SAMPLE_EVENT_IDS
     then s\<lparr>replay_sample_ids := replay_sample_ids s @ [eid]\<rparr> else s)"

section \<open>Validation of the arguments and of an event\<close>

definition validate_replay_args :: "replay_args \<Rightarrow> bool \<Rightarrow> exn option" where
  "validate_replay_args a report_exists = first_fail
    [raise_if (case ra_max_events a of None \<Rightarrow> False | Some n \<Rightarrow> n < 1)
       (ReplayError ''--max-events must be >= 1''),
     raise_if (fle (ra_rate_per_second a) (Fin 0)) (ReplayError ''--rate-per-second must be > 0''),
     raise_if (fle (ra_timeout_seconds a) (Fin 0)) (ReplayError ''--timeout-seconds must be > 0''),
     raise_if (ra_retry_count a < 0) (ReplayError ''--retry-count must be >= 0''),
     raise_if (ra_idempotency_mode a = ''prefix'' \<and> \<not> truthy_opt (ra_event_id_prefix a))
       (ReplayError ''--idempotency-mode prefix requires --event-id-prefix''),
     raise_if (ra_idempotency_mode a = ''preserve'' \<and> truthy_opt (ra_event_id_prefix a))
       (ReplayError ''--event-id-prefix requires --idempotency-mode prefix''),
     raise_if (report_exists \<and> \<not> ra_force a)
       (ReplayError (''report output already exists. Use --force: '' @ ra_report_output a)),
     raise_if (ra_event_type_policy a = ''preserve'' \<and> \<not> ra_dry_run a)
       (ReplayError ''--event-type-policy preserve is dry-run only for contract inspection'')]"

definition event_id_from :: "json \<Rightarrow> string option" where
  "event_id_from v = (case v of
     JObj d \<Rightarrow> (case jget d ''eventId'' of JStr s \<Rightarrow> Some s | _ \<Rightarrow> None) | _ \<Rightarrow> None)"

definition forbidden_key :: "jobj \<Rightarrow> string \<Rightarrow> string \<Rightarrow> exn option" where
  "forbidden_key d path k =
    (if k \<in> set RAW_FIELDS
     then Some (PayloadValidationError (''RAW_IDENTIFIER_FIELD:'' @ k) (event_id_from (JObj d)))
     else if k \<in> set LABEL_FIELDS
     then Some (PayloadValidationError (''LABEL_FIELD:'' @ k) (event_id_from (JObj d)))
     else None)"

definition scan_forbidden :: "json \<Rightarrow> exn option" where
  "scan_forbidden v =
     scan_json forbidden_key (\<lambda>_. PayloadValidationError ''RAW_IDENTIFIER_VALUE'' None) ''event'' v"

definition mapping_keys :: "string list" where
  "mapping_keys = [''nativeEventType'', ''normalizedEventType'', ''typeSupportLevel'', ''typeMappingPolicyVersion'']"

definition has_mapping_metadata :: "jobj \<Rightarrow> bool" where
  "has_mapping_metadata e \<longleftrightarrow> list_ex (has_key e) mapping_keys"

definition is_paysim_event :: "jobj \<Rightarrow> bool" where
  "is_paysim_event e \<longleftrightarrow> jget e ''source'' = JStr ''PAYSIM'' \<or> jget e ''schemaVersion'' = JStr ''v2-paysim''"

definition validate_native_mapping :: "jobj \<Rightarrow> exn option" where
  "validate_native_mapping e =
    (if \<not> has_mapping_metadata e then None
     else let eid = event_id_from (JObj e); nat_t = jget e ''nativeEventType'';
              t = the_str nat_t; m = mapping_for t; norm = json_of_option (normalized_type m)
       in first_fail
        [raise_if (jget e ''typeMappingPolicyVersion'' \<noteq> JStr MAPPING_POLICY_VERSION)
           (PayloadValidationError (''UNSUPPORTED_MAPPING_POLICY_VERSION:'' @
              py_str (jget e ''typeMappingPolicyVersion'')) eid),
         raise_if (\<not> nonempty_str nat_t) (PayloadValidationError ''INVALID_NATIVE_EVENT_TYPE'' eid),
         raise_if (normalized_type m = None \<or> support_level m = ''unsupported'')
           (PayloadValidationError
             (if truthy_opt (excluded_reason m) then the (excluded_reason m)
              else ''UNSUPPORTED_NATIVE_TYPE:'' @ t) eid),
         raise_if (jget e ''eventType'' \<noteq> norm)
           (PayloadValidationError (''NATIVE_MAPPING_MISMATCH:'' @ t @ ''->'' @ py_str (jget e ''eventType'')) eid),
         raise_if (jget e ''normalizedEventType'' \<noteq> norm)
           (PayloadValidationError (''NORMALIZED_EVENT_TYPE_MISMATCH:'' @ t) eid),
         raise_if (jget e ''typeSupportLevel'' \<noteq> JStr (support_level m))
           (PayloadValidationError (''TYPE_SUPPORT_LEVEL_MISMATCH:'' @ t) eid)])"

text \<open>\<open>Decimal(str(event["amount"]))\<close> is finite and positive.\<close>

definition amount_ok :: "json \<Rightarrow> bool" where
  "amount_ok v = (case decimal_of_str (py_str v) of
     None \<Rightarrow> False | Some d \<Rightarrow> dec_finite d \<and> 0 < dec_val d)"

definition hash_id_ok :: "char \<Rightarrow> json \<Rightarrow> bool" where
  "hash_id_ok x v \<longleftrightarrow> is_str v \<and> hash_id_match x (the_str v)"

definition missing_fields :: "string list \<Rightarrow> jobj \<Rightarrow> string list" where
  "missing_fields req d = sort (filter (\<lambda>k. \<not> has_key d k) req)"

definition validate_event :: "jobj \<Rightarrow> string \<Rightarrow> exn option" where
  "validate_event e policy =
    (let eid = event_id_from (JObj e); bad = (\<lambda>r. PayloadValidationError r eid);
         missing = missing_fields REQUIRED_FIELDS e in
     first_fail
      [scan_forbidden (JObj e),
       raise_if (missing \<noteq> []) (bad (''MISSING_FIELD:'' @ join '','' missing)),
       raise_if (has_key e ''receivedAt'') (bad ''RECEIVED_AT_PRESENT''),
       raise_if (\<not> hash_id_ok CHR ''U'' (jget e ''userId'')) (bad ''INVALID_HASH_ID:userId''),
       raise_if (\<not> hash_id_ok CHR ''A'' (jget e ''accountId'')) (bad ''INVALID_HASH_ID:accountId''),
       raise_if (\<not> hash_id_ok CHR ''D'' (jget e ''destinationAccountId''))
         (bad ''INVALID_HASH_ID:destinationAccountId''),
       raise_if (\<not> nonempty_str (jget e ''eventId'')) (bad ''INVALID_EVENT_ID''),
       raise_if (\<not> nonempty_str (jget e ''traceId'')) (bad ''INVALID_TRACE_ID''),
       raise_if (\<not> nonempty_str (jget e ''eventType'')) (bad ''INVALID_EVENT_TYPE''),
       validate_native_mapping e,
       raise_if (policy = ''current-api'' \<and> the_str (jget e ''eventType'') \<notin> set CURRENT_API_EVENT_TYPES)
         (bad (''UNSUPPORTED_EVENT_TYPE_FOR_CURRENT_API:'' @ the_str (jget e ''eventType''))),
       raise_if (jget e ''currency'' \<noteq> JStr ''KRW'') (bad ''INVALID_CURRENCY''),
       raise_if (\<not> amount_ok (jget e ''amount'')) (bad ''INVALID_AMOUNT''),
       raise_if (\<not> nonempty_str (jget e ''eventTime'')) (bad ''INVALID_EVENT_TIME'')])"

section \<open>From an event to a request\<close>

definition replay_event_id :: "string \<Rightarrow> string \<Rightarrow> string option \<Rightarrow> string res" where
  "replay_event_id eid mode prefix =
    (if mode = ''prefix''
     then if \<not> truthy_opt prefix
       then Inl (ReplayError ''--idempotency-mode prefix requires --event-id-prefix'')
       else Inr (the prefix @ ''-'' @ eid)
     else Inr eid)"

text \<open>The fields that go into the request, and those that are counted as dropped, in the order of
  the event.\<close>

definition request_part :: "jobj \<Rightarrow> jobj" where
  "request_part e = filter (\<lambda>(k, v). k \<noteq> ''traceId'' \<and> k \<in> set REQUEST_FIELDS) e"

definition dropped_keys :: "jobj \<Rightarrow> string list" where
  "dropped_keys e = filter (\<lambda>k. k \<noteq> ''traceId'' \<and> k \<notin> set REQUEST_FIELDS) (map fst e)"

definition to_api_request :: "jobj \<Rightarrow> replay_args \<Rightarrow> string counter \<Rightarrow> string counter \<times> (jobj \<times> string) res" where
  "to_api_request e a dropped =
    (case validate_event e (ra_event_type_policy a) of
       Some x \<Rightarrow> (dropped, Inl x)
     | None \<Rightarrow>
         (fold cinc (dropped_keys e) dropped,
          bind_res (replay_event_id (the_str (jget e ''eventId'')) (ra_idempotency_mode a) (ra_event_id_prefix a))
            (\<lambda>rid. Inr (jset (request_part e) ''eventId'' (JStr rid), the_str (jget e ''traceId'')))))"

definition resolve_auth_token :: "replay_args \<Rightarrow> (string \<Rightarrow> string option) \<Rightarrow> string option \<times> bool" where
  "resolve_auth_token a getenv =
    (if truthy_opt (ra_auth_token a) then (ra_auth_token a, True)
     else if truthy_opt (getenv (ra_auth_token_env a)) then (getenv (ra_auth_token_env a), True)
     else (None, False))"

section \<open>Sending\<close>

text \<open>
  What the network makes of a request: the status of a response; \<open>HTTPError\<close> with a status,
  \<open>TimeoutError\<close> (which is \<open>socket.timeout\<close>), \<open>URLError\<close> (whose reason is a timeout or not), or any
  other exception, which the script does not catch.
\<close>

datatype http_outcome = Responded int | HTTPError int | TimeoutRaised | URLError bool | OtherRaised

record http_request =
  rq_endpoint :: string
  rq_payload :: jobj
  rq_headers :: "(string \<times> string) list"

record replay_env =
  env_lines :: "string list option"
  env_report_exists :: bool
  env_getenv :: "string \<Rightarrow> string option"
  env_loads :: "string \<Rightarrow> json option"
  env_http :: "nat \<Rightarrow> http_outcome"
  env_clock :: "nat \<Rightarrow> pyfloat"
  env_started :: int
  env_finished :: int

record replay_state =
  stats :: replay_stats
  sent :: "http_request list"
  readings :: nat
  last_sent_at :: "pyfloat option"
  pauses :: "pyfloat list"

definition init_replay_state :: replay_state where
  "init_replay_state = \<lparr>stats = empty_stats, sent = [], readings = 0, last_sent_at = None, pauses = []\<rparr>"

definition request_for :: "string \<Rightarrow> jobj \<Rightarrow> string \<Rightarrow> string option \<Rightarrow> http_request" where
  "request_for endpoint payload trace_id token =
    \<lparr>rq_endpoint = endpoint, rq_payload = payload,
     rq_headers = [(''Content-Type'', ''application/json''), (''X-Trace-Id'', trace_id)] @
       (if truthy_opt token then [(''Authorization'', ''Bearer '' @ the token)] else [])\<rparr>"

text \<open>
  Before anything is sent, \<open>http.client\<close> refuses a header whose value holds a line break that does not
  continue the line (\<open>\n(?![ \t])|\r(?![ \t\n])\<close>): it raises \<open>ValueError\<close>, whose message, which quotes
  the value, is cut here. The endpoint is taken to be an HTTP URL; what is raised for another one is
  one of the outcomes.
\<close>

fun illegal_header_value :: "string \<Rightarrow> bool" where
  "illegal_header_value [] = False"
| "illegal_header_value (c # cs) =
    (c = CHR 0x0A \<and> (cs = [] \<or> hd cs \<noteq> CHR '' '' \<and> hd cs \<noteq> CHR 0x09)
     \<or> c = CHR 0x0D \<and> (cs = [] \<or> hd cs \<noteq> CHR '' '' \<and> hd cs \<noteq> CHR 0x09 \<and> hd cs \<noteq> CHR 0x0A)
     \<or> illegal_header_value cs)"

definition header_refused :: "http_request \<Rightarrow> bool" where
  "header_refused rq \<longleftrightarrow> list_ex (\<lambda>(k, v). illegal_header_value v) (rq_headers rq)"

definition make_http_request ::
  "replay_env \<Rightarrow> string \<Rightarrow> jobj \<Rightarrow> string \<Rightarrow> string option \<Rightarrow> replay_state \<Rightarrow> replay_state \<times> http_outcome res" where
  "make_http_request env endpoint payload trace_id token s =
    (let rq = request_for endpoint payload trace_id token in
     if header_refused rq then (s, Inl (ValueError ''Invalid header value''))
     else (s\<lparr>sent := sent s @ [rq]\<rparr>, Inr (env_http env (length (sent s)))))"

datatype category = Success | Duplicate | ClientError | ServerError

definition classify_http_status :: "int \<Rightarrow> category" where
  "classify_http_status status =
    (if 200 \<le> status \<and> status < 300 then Success
     else if status = 409 then Duplicate
     else if 400 \<le> status \<and> status < 500 then ClientError
     else if 500 \<le> status \<and> status < 600 then ServerError
     else ClientError)"

definition record_status :: "int \<Rightarrow> replay_stats \<Rightarrow> replay_stats" where
  "record_status status s =
    (case classify_http_status status of
       Success \<Rightarrow> s\<lparr>http_success := Suc (http_success s)\<rparr>
     | Duplicate \<Rightarrow> s\<lparr>http_duplicate_or_conflict := Suc (http_duplicate_or_conflict s)\<rparr>
     | ClientError \<Rightarrow> s\<lparr>http_client_error := Suc (http_client_error s)\<rparr>
     | ServerError \<Rightarrow> s\<lparr>http_server_error := Suc (http_server_error s)\<rparr>)"

definition retry_server_error :: "replay_stats \<Rightarrow> replay_stats" where
  "retry_server_error s = s\<lparr>retry_attempts := Suc (retry_attempts s),
     retry_server_error_attempts := Suc (retry_server_error_attempts s)\<rparr>"

definition retry_timeout :: "replay_stats \<Rightarrow> replay_stats" where
  "retry_timeout s = s\<lparr>retry_attempts := Suc (retry_attempts s),
     retry_timeout_attempts := Suc (retry_timeout_attempts s)\<rparr>"

definition retry_connection :: "replay_stats \<Rightarrow> replay_stats" where
  "retry_connection s = s\<lparr>retry_attempts := Suc (retry_attempts s),
     retry_connection_error_attempts := Suc (retry_connection_error_attempts s)\<rparr>"

text \<open>
  One pass through the loop body after the request came back: either the statistics for another
  attempt (\<open>Inl\<close>, the \<open>continue\<close>), or the statistics and the returned reason, or the exception
  that is not caught.
\<close>

definition after_attempt ::
  "bool \<Rightarrow> bool \<Rightarrow> http_outcome \<Rightarrow> replay_stats \<Rightarrow> replay_stats + replay_stats \<times> string res" where
  "after_attempt may_retry retry_connection_error out s =
    (let status_case = (\<lambda>status.
          if classify_http_status status = ServerError \<and> may_retry then Inl (retry_server_error s)
          else Inr (record_status status s, Inr (''HTTP_'' @ str_of_int status)));
         timeout_case =
          (if may_retry then Inl (retry_timeout s)
           else Inr (s\<lparr>timeout_count := Suc (timeout_count s)\<rparr>, Inr ''TIMEOUT''))
     in case out of
       Responded status \<Rightarrow> status_case status
     | HTTPError status \<Rightarrow> status_case status
     | TimeoutRaised \<Rightarrow> timeout_case
     | URLError is_timeout \<Rightarrow>
         if is_timeout then timeout_case
         else if retry_connection_error \<and> may_retry then Inl (retry_connection s)
         else Inr (s\<lparr>connection_error := Suc (connection_error s)\<rparr>, Inr ''CONNECTION_ERROR'')
     | OtherRaised \<Rightarrow> Inr (s, Inl ConnectionFault))"

text \<open>
  The loop \<open>for attempt in range(retry_count + 1)\<close>. Where the range is empty the function of the
  source falls off its end and returns \<open>None\<close>; the arguments exclude a negative retry count.
\<close>

function send_from ::
  "replay_env \<Rightarrow> string \<Rightarrow> jobj \<Rightarrow> string \<Rightarrow> string option \<Rightarrow> int \<Rightarrow> bool \<Rightarrow> int \<Rightarrow> replay_state
    \<Rightarrow> replay_state \<times> string option res" where
  "send_from env endpoint payload trace_id token retry_count retry_conn attempt s =
    (if attempt < retry_count + 1
     then (case make_http_request env endpoint payload trace_id token s of
         (s1, Inl x) \<Rightarrow> (s1, Inl x)
       | (s1, Inr out) \<Rightarrow>
           (case after_attempt (attempt < retry_count) retry_conn out (stats s1) of
              Inl st \<Rightarrow> send_from env endpoint payload trace_id token retry_count retry_conn (attempt + 1) (s1\<lparr>stats := st\<rparr>)
            | Inr (st, r) \<Rightarrow> (s1\<lparr>stats := st\<rparr>, bind_res r (\<lambda>reason. Inr (Some reason)))))
     else (s, Inr None))"
  by pat_completeness auto
termination
  by (relation "measure (\<lambda>(_, _, _, _, _, retry_count, _, attempt, _). nat (retry_count + 1 - attempt))") auto

declare send_from.simps [simp del]

definition send_with_retry ::
  "replay_env \<Rightarrow> string \<Rightarrow> jobj \<Rightarrow> string \<Rightarrow> string option \<Rightarrow> int \<Rightarrow> bool \<Rightarrow> replay_state
    \<Rightarrow> replay_state \<times> string option res" where
  "send_with_retry env endpoint payload trace_id token retry_count retry_conn s =
     send_from env endpoint payload trace_id token retry_count retry_conn 0 s"

definition read_clock :: "replay_env \<Rightarrow> replay_state \<Rightarrow> replay_state \<times> pyfloat" where
  "read_clock env s = (s\<lparr>readings := Suc (readings s)\<rparr>, env_clock env (readings s))"

text \<open>\<open>time.sleep\<close> raises \<open>OverflowError\<close> for a pause of \<open>2 ^ 63\<close> nanoseconds or more; the product is
  rounded as any product of floats.\<close>

definition sleep_overflows :: "pyfloat \<Rightarrow> bool" where
  "sleep_overflows d \<longleftrightarrow> fle (Fin (2 ^ 63)) (fmul d (Fin 1000000000))"

definition maybe_sleep :: "replay_env \<Rightarrow> pyfloat \<Rightarrow> replay_state \<Rightarrow> replay_state res" where
  "maybe_sleep env rate s =
    (case last_sent_at s of
       None \<Rightarrow> let (s1, now) = read_clock env s in Inr (s1\<lparr>last_sent_at := Some now\<rparr>)
     | Some prev \<Rightarrow>
         bind_res (fdiv (Fin 1) rate) (\<lambda>interval.
           let (s1, now) = read_clock env s; elapsed = fsub now prev
           in if flt elapsed interval \<and> sleep_overflows (fsub interval elapsed) then Inl OverflowError
              else let s2 = (if flt elapsed interval then s1\<lparr>pauses := pauses s1 @ [fsub interval elapsed]\<rparr> else s1);
                       (s3, now') = read_clock env s2
                in Inr (s3\<lparr>last_sent_at := Some now'\<rparr>)))"

section \<open>The loop over the events\<close>

text \<open>The three type fields of an event that the distributions count.\<close>

definition native_type_of :: "jobj \<Rightarrow> json" where
  "native_type_of e = jget_or e ''nativeEventType'' (jget e ''eventType'')"

definition normalized_type_of :: "jobj \<Rightarrow> json" where
  "normalized_type_of e = jget_or e ''normalizedEventType'' (jget e ''eventType'')"

definition support_level_of :: "jobj \<Rightarrow> json" where
  "support_level_of e = jget e ''typeSupportLevel''"

definition note_input :: "jobj \<Rightarrow> replay_stats \<Rightarrow> replay_stats" where
  "note_input e s = s\<lparr>
     total_read := Suc (total_read s),
     missing_mapping_metadata := missing_mapping_metadata s +
       (if is_paysim_event e \<and> \<not> has_mapping_metadata e then 1 else 0),
     input_native_types := cinc_str (native_type_of e) (input_native_types s),
     input_normalized_types := cinc_str (normalized_type_of e) (input_normalized_types s),
     input_support_levels := cinc_str (support_level_of e) (input_support_levels s),
     mapping_policy_versions := cinc_str (jget e ''typeMappingPolicyVersion'') (mapping_policy_versions s)\<rparr>"

definition note_excluded :: "string \<Rightarrow> replay_stats \<Rightarrow> replay_stats" where
  "note_excluded reason s =
    (if starts_with reason ''UNSUPPORTED_EVENT_TYPE_FOR_CURRENT_API:''
        \<or> starts_with reason ''UNSUPPORTED_NATIVE_TYPE:''
     then let t = after_first CHR '':'' reason in
       s\<lparr>unsupported_event_types := cinc t (unsupported_event_types s),
         excluded_by_type := cinc t (excluded_by_type s)\<rparr>
     else s)"

definition note_rejected :: "nat \<Rightarrow> jobj \<Rightarrow> string \<Rightarrow> string option \<Rightarrow> replay_stats \<Rightarrow> replay_stats" where
  "note_rejected row e reason exc_event_id s =
    (let s1 = s\<lparr>payload_rejected := Suc (payload_rejected s),
           rejected_native_types := cinc_str (native_type_of e) (rejected_native_types s),
           rejected_normalized_types := cinc_str (normalized_type_of e) (rejected_normalized_types s),
           rejected_support_levels := cinc_str (support_level_of e) (rejected_support_levels s)\<rparr>
     in add_failure row reason (if truthy_opt exc_event_id then exc_event_id else event_id_from (JObj e))
          (note_excluded reason s1))"

definition note_accepted :: "jobj \<Rightarrow> string \<Rightarrow> replay_stats \<Rightarrow> replay_stats" where
  "note_accepted e rid s =
    add_sample_event_id rid
     (s\<lparr>payload_accepted := Suc (payload_accepted s),
        accepted_native_types := cinc_str (native_type_of e) (accepted_native_types s),
        accepted_normalized_types := cinc_str (normalized_type_of e) (accepted_normalized_types s),
        accepted_support_levels := cinc_str (support_level_of e) (accepted_support_levels s)\<rparr>)"

text \<open>How one pass through the loop ends.\<close>

datatype flow = Continue | Break | Raise exn

text \<open>The second half of the loop body: pause, post, note a failure.\<close>

definition post_event ::
  "replay_env \<Rightarrow> replay_args \<Rightarrow> string option \<Rightarrow> nat \<Rightarrow> jobj \<Rightarrow> string \<Rightarrow> replay_state \<Rightarrow> replay_state \<times> flow" where
  "post_event env a token row payload trace_id s =
    (case maybe_sleep env (ra_rate_per_second a) s of
       Inl x \<Rightarrow> (s, Raise x)
     | Inr s1 \<Rightarrow>
         (case send_with_retry env (ra_endpoint a) payload trace_id token (ra_retry_count a)
                 (ra_retry_connection_error a) s1 of
            (s2, Inl x) \<Rightarrow> (s2, Raise x)
          | (s2, Inr None) \<Rightarrow> (s2, Raise TypeError)
          | (s2, Inr (Some reason)) \<Rightarrow>
              if reason \<noteq> ''HTTP_202'' \<and> \<not> starts_with reason ''HTTP_2''
              then (s2\<lparr>stats := add_failure row reason (Some (the_str (jget payload ''eventId''))) (stats s2)\<rparr>,
                    if ra_stop_on_error a then Break else Continue)
              else (s2, Continue)))"

definition replay_row ::
  "replay_env \<Rightarrow> replay_args \<Rightarrow> string option \<Rightarrow> nat \<Rightarrow> jobj \<Rightarrow> replay_state \<Rightarrow> replay_state \<times> flow" where
  "replay_row env a token row e s =
    (let st1 = note_input e (stats s); (dropped, r) = to_api_request e a (dropped_fields st1);
         st2 = st1\<lparr>dropped_fields := dropped\<rparr>
     in case r of
       Inl x \<Rightarrow>
         (case x of
            PayloadValidationError reason eid \<Rightarrow>
              (s\<lparr>stats := note_rejected row e reason eid st2\<rparr>, if ra_stop_on_error a then Break else Continue)
          | _ \<Rightarrow> (s\<lparr>stats := st2\<rparr>, Raise x))
     | Inr (payload, trace_id) \<Rightarrow>
         let s1 = s\<lparr>stats := note_accepted e (the_str (jget payload ''eventId'')) st2\<rparr>
         in if ra_dry_run a then (s1, Continue) else post_event env a token row payload trace_id s1)"

fun replay_loop ::
  "replay_env \<Rightarrow> replay_args \<Rightarrow> string option \<Rightarrow> item list \<Rightarrow> replay_state \<Rightarrow> replay_state \<times> exn option" where
  "replay_loop env a token [] s = (s, None)"
| "replay_loop env a token (Inl x # is) s = (s, Some x)"
| "replay_loop env a token (Inr (row, e) # is) s =
     (if (case ra_max_events a of None \<Rightarrow> False | Some n \<Rightarrow> n \<le> int (total_read (stats s))) then (s, None)
      else case replay_row env a token row e s of
        (s1, Continue) \<Rightarrow> replay_loop env a token is s1
      | (s1, Break) \<Rightarrow> (s1, None)
      | (s1, Raise x) \<Rightarrow> (s1, Some x))"

definition replay_items :: "replay_env \<Rightarrow> item list" where
  "replay_items env = jsonl_items (\<lambda>_. PayloadValidationError ''INVALID_JSON'' None)
     (\<lambda>_. PayloadValidationError ''JSON_ROW_NOT_OBJECT'' None) (env_loads env) 1 (the (env_lines env))"

section \<open>The report\<close>

definition attempted :: "replay_stats \<Rightarrow> nat" where
  "attempted s = http_success s + http_duplicate_or_conflict s + http_client_error s + http_server_error s
     + timeout_count s + connection_error s"

definition duration_seconds :: "int \<Rightarrow> int \<Rightarrow> pyfloat" where
  "duration_seconds started finished =
    (let x = to_double (of_int (finished - started) / 1000000) in if flt x (Fin 0) then Fin 0 else x)"

definition events_per_second :: "nat \<Rightarrow> pyfloat \<Rightarrow> pyfloat" where
  "events_per_second n d =
    (if flt (Fin 0) d
     then (case bind_res (float_of_int (int n)) (\<lambda>x. fdiv x d) of Inr y \<Rightarrow> y | Inl _ \<Rightarrow> Fin 0)
     else Fin 0)"

abbreviation jnat :: "nat \<Rightarrow> json" where
  "jnat n \<equiv> JInt (int n)"

definition build_replay_report :: "replay_args \<Rightarrow> replay_stats \<Rightarrow> int \<Rightarrow> int \<Rightarrow> bool \<Rightarrow> jobj" where
  "build_replay_report a s started finished auth_used =
    (let d = duration_seconds started finished; dist = (\<lambda>c. counter_json (sorted_items c)) in
    [(''scriptVersion'', JStr ''v2-phase-8''),
     (''inputPath'', JStr (ra_input a)),
     (''endpoint'', JStr (ra_endpoint a)),
     (''startedAt'', JStr (iso_z started)),
     (''finishedAt'', JStr (iso_z finished)),
     (''dryRun'', JBool (ra_dry_run a)),
     (''idempotencyMode'', JStr (ra_idempotency_mode a)),
     (''eventIdPrefix'', json_of_option (ra_event_id_prefix a)),
     (''eventTypePolicy'', JStr (ra_event_type_policy a)),
     (''maxEvents'', (case ra_max_events a of None \<Rightarrow> JNull | Some n \<Rightarrow> JInt n)),
     (''ratePerSecond'', JFloat (ra_rate_per_second a)),
     (''timeoutSeconds'', JFloat (ra_timeout_seconds a)),
     (''retryCount'', JInt (ra_retry_count a)),
     (''retryConnectionError'', JBool (ra_retry_connection_error a)),
     (''stopOnError'', JBool (ra_stop_on_error a)),
     (''authUsed'', JBool auth_used),
     (''totalRead'', jnat (total_read s)),
     (''payloadAccepted'', jnat (payload_accepted s)),
     (''payloadRejected'', jnat (payload_rejected s)),
     (''httpSuccess'', jnat (http_success s)),
     (''httpDuplicateOrConflict'', jnat (http_duplicate_or_conflict s)),
     (''httpClientError'', jnat (http_client_error s)),
     (''httpServerError'', jnat (http_server_error s)),
     (''timeout'', jnat (timeout_count s)),
     (''connectionError'', jnat (connection_error s)),
     (''retryAttempts'', jnat (retry_attempts s)),
     (''retryTimeoutAttempts'', jnat (retry_timeout_attempts s)),
     (''retryServerErrorAttempts'', jnat (retry_server_error_attempts s)),
     (''retryConnectionErrorAttempts'', jnat (retry_connection_error_attempts s)),
     (''mappingMetadataPolicy'', JStr ''required_for_phase8_paysim_native_contract''),
     (''missingMappingMetadata'', jnat (missing_mapping_metadata s)),
     (''mappingPolicyVersion'', JStr MAPPING_POLICY_VERSION),
     (''mappingPolicyVersions'', dist (mapping_policy_versions s)),
     (''typeDistributionScope'', JStr ''split_input_accepted_rejected''),
     (''nativeTypeDistributionSource'', JStr ''input_rows_before_payload_validation''),
     (''normalizedTypeDistributionSource'', JStr ''accepted_payloads_after_validation''),
     (''typeSupportLevelDistributionSource'', JStr ''accepted_payloads_after_validation''),
     (''nativeTypeDistribution'', dist (input_native_types s)),
     (''normalizedTypeDistribution'', dist (accepted_normalized_types s)),
     (''typeSupportLevelDistribution'', dist (accepted_support_levels s)),
     (''inputNativeTypeDistribution'', dist (input_native_types s)),
     (''inputNormalizedTypeDistribution'', dist (input_normalized_types s)),
     (''inputTypeSupportLevelDistribution'', dist (input_support_levels s)),
     (''acceptedNativeTypeDistribution'', dist (accepted_native_types s)),
     (''acceptedNormalizedTypeDistribution'', dist (accepted_normalized_types s)),
     (''acceptedTypeSupportLevelDistribution'', dist (accepted_support_levels s)),
     (''rejectedNativeTypeDistribution'', dist (rejected_native_types s)),
     (''rejectedNormalizedTypeDistribution'', dist (rejected_normalized_types s)),
     (''rejectedTypeSupportLevelDistribution'', dist (rejected_support_levels s)),
     (''excludedByType'', dist (excluded_by_type s)),
     (''durationSeconds'', JFloat (py_round d 6)),
     (''eventsPerSecond'', JFloat (py_round (events_per_second (attempted s) d) 6)),
     (''droppedFields'', dist (dropped_fields s)),
     (''unsupportedEventTypes'', dist (unsupported_event_types s)),
     (''sampleEventIds'', JList (map JStr (replay_sample_ids s))),
     (''failures'', JList (map failure_as_dict (failures s)))])"

text \<open>
  \<open>replay\<close>: the state the run ends in, and the report it wrote and returned or the exception it
  ended with; an exception leaves no report.
\<close>

definition replay :: "replay_env \<Rightarrow> replay_args \<Rightarrow> replay_state \<times> jobj res" where
  "replay env a =
    (case validate_replay_args a (env_report_exists env) of
       Some x \<Rightarrow> (init_replay_state, Inl x)
     | None \<Rightarrow>
         if env_lines env = None then (init_replay_state, Inl (FileNotFoundError (ra_input a)))
         else let (token, auth_used) = resolve_auth_token a (env_getenv env) in
           case replay_loop env a token (replay_items env) init_replay_state of
             (s, Some x) \<Rightarrow> (s, Inl x)
           | (s, None) \<Rightarrow>
               (s, Inr (build_replay_report a (stats s) (env_started env) (env_finished env) auth_used)))"

text \<open>The exit status of \<open>main\<close>; an exception it does not catch ends the process with status 1.\<close>

definition replay_exit_status :: "jobj res \<Rightarrow> int" where
  "replay_exit_status r = (case r of
     Inr _ \<Rightarrow> 0
   | Inl (FileNotFoundError _) \<Rightarrow> 2
   | Inl (ReplayError _) \<Rightarrow> 2
   | Inl (PayloadValidationError _ _) \<Rightarrow> 2
   | Inl _ \<Rightarrow> 1)"

end
