(* ===== verification/ReplayCorrect.thy ===== *)
theory ReplayCorrect
  imports Replay
begin

text \<open>
  What is proved of the replay: what its validation lets through, what a request contains, how a
  send with retries goes, and the bookkeeping of the whole run. The run invariants are proved once
  for a pass through the loop (\<open>replay_row\<close>) and lifted by \<open>replay_loop_rule\<close>.
\<close>

section \<open>Validation\<close>

abbreviation replay_forbidden :: "string \<Rightarrow> bool" where
  "replay_forbidden k \<equiv> k \<in> set RAW_FIELDS \<union> set LABEL_FIELDS"

interpretation rp: forbidden_scanner scan_forbidden replay_forbidden
proof
  fix v
  have "forbidden_key d path k = None \<longleftrightarrow> \<not> replay_forbidden k" for d path k
    by (simp add: forbidden_key_def)
  then show "scan_forbidden v = None \<longleftrightarrow> clean replay_forbidden v"
    unfolding scan_forbidden_def by (rule scan_json_None_iff)
qed

lemma missing_fields_empty: "missing_fields req d = [] \<longleftrightarrow> (\<forall>k \<in> set req. has_key d k)"
proof -
  have "missing_fields req d = [] \<longleftrightarrow> filter (\<lambda>k. \<not> has_key d k) req = []"
    unfolding missing_fields_def by (metis set_empty set_sort)
  then show ?thesis by (simp add: filter_empty_conv)
qed

text \<open>The checks of \<open>validate_event\<close> as one condition.\<close>

lemma validate_event_None_iff:
  "validate_event e pol = None \<longleftrightarrow>
     clean replay_forbidden (JObj e) \<and> (\<forall>k \<in> set REQUIRED_FIELDS. has_key e k) \<and> \<not> has_key e ''receivedAt''
     \<and> hash_id_ok CHR ''U'' (jget e ''userId'') \<and> hash_id_ok CHR ''A'' (jget e ''accountId'')
     \<and> hash_id_ok CHR ''D'' (jget e ''destinationAccountId'')
     \<and> nonempty_str (jget e ''eventId'') \<and> nonempty_str (jget e ''traceId'')
     \<and> nonempty_str (jget e ''eventType'') \<and> validate_native_mapping e = None
     \<and> (pol = ''current-api'' \<longrightarrow> the_str (jget e ''eventType'') \<in> set CURRENT_API_EVENT_TYPES)
     \<and> jget e ''currency'' = JStr ''KRW'' \<and> amount_ok (jget e ''amount'') \<and> nonempty_str (jget e ''eventTime'')"
  unfolding validate_event_def Let_def
  by (simp add: missing_fields_empty rp.scan_passes del: clean_simps)

lemma validate_eventD:
  assumes "validate_event e pol = None"
  shows "clean replay_forbidden (JObj e)" "nonempty_str (jget e ''eventId'')" "nonempty_str (jget e ''traceId'')"
    "scan_forbidden (JObj e) = None"
  using assms by (simp_all add: validate_event_None_iff rp.scan_passes del: clean_simps)

section \<open>Requests\<close>

lemma request_part_keys: "(k, v) \<in> set (request_part e) \<Longrightarrow> k \<in> set REQUEST_FIELDS \<and> (k, v) \<in> set e"
  by (auto simp: request_part_def)

lemma request_field_not_forbidden: "k \<in> set REQUEST_FIELDS \<Longrightarrow> \<not> replay_forbidden k \<and> k \<noteq> ''traceId''"
  by (auto simp: REQUEST_FIELDS_def RAW_FIELDS_def LABEL_FIELDS_def)

lemma eventId_request_field [simp]: "''eventId'' \<in> set REQUEST_FIELDS"
  by (simp add: REQUEST_FIELDS_def)

text \<open>What a payload built from an event is.\<close>

definition payload_of :: "replay_args \<Rightarrow> jobj \<Rightarrow> jobj \<Rightarrow> bool" where
  "payload_of a e payload \<longleftrightarrow> validate_event e (ra_event_type_policy a) = None \<and>
     (\<exists>rid. replay_event_id (the_str (jget e ''eventId'')) (ra_idempotency_mode a) (ra_event_id_prefix a) = Inr rid
       \<and> payload = jset (request_part e) ''eventId'' (JStr rid))"

lemma to_api_request_Inr:
  assumes "to_api_request e a dr = (dr', Inr (payload, tr))"
  shows "payload_of a e payload" "dr' = fold cinc (dropped_keys e) dr" "tr = the_str (jget e ''traceId'')"
    "(k, v) \<in> set payload \<Longrightarrow> k \<in> set REQUEST_FIELDS"
    "(k, v) \<in> set payload \<Longrightarrow> k \<noteq> ''eventId'' \<Longrightarrow> (k, v) \<in> set e"
proof -
  show pay: "payload_of a e payload" and "dr' = fold cinc (dropped_keys e) dr" and "tr = the_str (jget e ''traceId'')"
    using assms by (auto simp: to_api_request_def payload_of_def split: option.splits)
  show "(k, v) \<in> set payload \<Longrightarrow> k \<in> set REQUEST_FIELDS"
    using pay set_jset by (fastforce simp: payload_of_def dest: request_part_keys)
  show "(k, v) \<in> set payload \<Longrightarrow> k \<noteq> ''eventId'' \<Longrightarrow> (k, v) \<in> set e"
    using pay set_jset by (fastforce simp: payload_of_def dest: request_part_keys)
qed

lemma payload_fields:
  assumes "payload_of a e payload" "(k, v) \<in> set payload"
  shows "k \<in> set REQUEST_FIELDS \<and> \<not> replay_forbidden k \<and> k \<noteq> ''traceId'' \<and>
    (k \<noteq> ''eventId'' \<longrightarrow> (k, v) \<in> set e \<and> clean replay_forbidden v)"
proof -
  from assms(1) obtain rid where v: "validate_event e (ra_event_type_policy a) = None"
    and p: "payload = jset (request_part e) ''eventId'' (JStr rid)" by (auto simp: payload_of_def)
  from p assms(2) have kv: "(k, v) = (''eventId'', JStr rid) \<or> (k, v) \<in> set (request_part e)"
    using set_jset by fastforce
  then have k: "k \<in> set REQUEST_FIELDS" by (auto dest: request_part_keys)
  have "k \<noteq> ''eventId'' \<Longrightarrow> (k, v) \<in> set e" using kv by (auto dest: request_part_keys)
  moreover from this have "k \<noteq> ''eventId'' \<Longrightarrow> clean replay_forbidden v"
    using validate_eventD(1) [OF v] by auto
  ultimately show ?thesis using k request_field_not_forbidden [OF k] by blast
qed

text \<open>Arguments that pass \<open>validate_replay_args\<close> and come from the command line's choices always
  give a replay id.\<close>

lemma replay_event_id_total:
  assumes "validate_replay_args a ex = None"
  shows "\<exists>rid. replay_event_id eid (ra_idempotency_mode a) (ra_event_id_prefix a) = Inr rid"
  using assms by (auto simp: validate_replay_args_def replay_event_id_def)

section \<open>Sending with retries\<close>

text \<open>Everything but the HTTP and retry counters.\<close>

definition forget_http :: "replay_stats \<Rightarrow> replay_stats" where
  "forget_http s = s\<lparr>http_success := 0, http_duplicate_or_conflict := 0, http_client_error := 0,
     http_server_error := 0, timeout_count := 0, connection_error := 0, retry_attempts := 0,
     retry_timeout_attempts := 0, retry_server_error_attempts := 0, retry_connection_error_attempts := 0\<rparr>"

definition retries_by_kind :: "replay_stats \<Rightarrow> nat" where
  "retries_by_kind s = retry_timeout_attempts s + retry_server_error_attempts s + retry_connection_error_attempts s"

definition retryable :: "bool \<Rightarrow> http_outcome \<Rightarrow> bool" where
  "retryable retry_conn out \<longleftrightarrow> (case out of
     Responded st \<Rightarrow> classify_http_status st = ServerError
   | HTTPError st \<Rightarrow> classify_http_status st = ServerError
   | TimeoutRaised \<Rightarrow> True
   | URLError is_timeout \<Rightarrow> is_timeout \<or> retry_conn
   | OtherRaised \<Rightarrow> False)"

definition final_reason :: "http_outcome \<Rightarrow> string res" where
  "final_reason out = (case out of
     Responded st \<Rightarrow> Inr (''HTTP_'' @ str_of_int st)
   | HTTPError st \<Rightarrow> Inr (''HTTP_'' @ str_of_int st)
   | TimeoutRaised \<Rightarrow> Inr ''TIMEOUT''
   | URLError is_timeout \<Rightarrow> Inr (if is_timeout then ''TIMEOUT'' else ''CONNECTION_ERROR'')
   | OtherRaised \<Rightarrow> Inl ConnectionFault)"

lemmas http_step_defs = after_attempt_def record_status_def retry_server_error_def retry_timeout_def
  retry_connection_def attempted_def retries_by_kind_def forget_http_def Let_def

lemma after_attempt_Inl:
  assumes "after_attempt may rc out st = Inl st'"
  shows "may" "retryable rc out" "attempted st' = attempted st" "retry_attempts st' = Suc (retry_attempts st)"
    "retries_by_kind st' = Suc (retries_by_kind st)" "forget_http st' = forget_http st"
  using assms by (auto simp: http_step_defs retryable_def split: http_outcome.splits if_splits)

lemma after_attempt_Inr:
  assumes "after_attempt may rc out st = Inr (st', r)"
  shows "\<not> may \<or> \<not> retryable rc out" "r = final_reason out"
    "attempted st' = (case r of Inr _ \<Rightarrow> Suc (attempted st) | Inl _ \<Rightarrow> attempted st)"
    "retry_attempts st' = retry_attempts st" "retries_by_kind st' = retries_by_kind st"
    "forget_http st' = forget_http st"
  using assms
  by (auto simp: http_step_defs retryable_def final_reason_def split: http_outcome.splits if_splits category.splits)

text \<open>
  The specification of a send: outcomes \<open>i, i + 1, \<dots>\<close> of the network are consumed up to the
  first one that is not retried, or up to the last attempt.
\<close>

definition send_spec :: "replay_env \<Rightarrow> bool \<Rightarrow> int \<Rightarrow> replay_state \<Rightarrow> replay_state \<Rightarrow> nat \<Rightarrow> string res \<Rightarrow> bool" where
  "send_spec env rc budget s s' n r \<longleftrightarrow>
     (let i = length (sent s) in
      1 \<le> n \<and> int n \<le> budget \<and> length (sent s') = i + n
      \<and> (\<forall>j < n - 1. retryable rc (env_http env (i + j)))
      \<and> (int n = budget \<or> \<not> retryable rc (env_http env (i + n - 1)))
      \<and> r = final_reason (env_http env (i + n - 1))
      \<and> retry_attempts (stats s') = retry_attempts (stats s) + (n - 1)
      \<and> retries_by_kind (stats s') = retries_by_kind (stats s) + (n - 1)
      \<and> attempted (stats s') = attempted (stats s) + (case r of Inr _ \<Rightarrow> 1 | Inl _ \<Rightarrow> 0)
      \<and> forget_http (stats s') = forget_http (stats s)
      \<and> last_sent_at s' = last_sent_at s \<and> readings s' = readings s \<and> pauses s' = pauses s)"

lemma send_from_refused:
  assumes "attempt \<le> retry_count" "header_refused (request_for ep p tr tok)"
  shows "send_from env ep p tr tok retry_count rc attempt s = (s, Inl (ValueError ''Invalid header value''))"
  using assms by (subst send_from.simps) (simp add: make_http_request_def)

lemma send_from_spec:
  assumes "attempt \<le> retry_count" "\<not> header_refused (request_for ep p tr tok)"
  shows "\<exists>s' n r. send_from env ep p tr tok retry_count rc attempt s = (s', bind_res r (\<lambda>x. Inr (Some x)))
    \<and> send_spec env rc (retry_count + 1 - attempt) s s' n r
    \<and> sent s' = sent s @ replicate n (request_for ep p tr tok)"
  using assms
proof (induction env ep p tr tok retry_count rc attempt s rule: send_from.induct)
  case (1 env ep p tr tok retry_count rc attempt s)
  let ?i = "length (sent s)" and ?may = "attempt < retry_count" and ?rq = "request_for ep p tr tok"
  define s1 where "s1 = s\<lparr>sent := sent s @ [?rq]\<rparr>"
  have mk: "make_http_request env ep p tr tok s = (s1, Inr (env_http env ?i))"
    using "1.prems"(2) by (simp add: make_http_request_def s1_def)
  have unf: "send_from env ep p tr tok retry_count rc attempt s =
    (case after_attempt ?may rc (env_http env ?i) (stats s1) of
         Inl st \<Rightarrow> send_from env ep p tr tok retry_count rc (attempt + 1) (s1\<lparr>stats := st\<rparr>)
       | Inr (st, r) \<Rightarrow> (s1\<lparr>stats := st\<rparr>, bind_res r (\<lambda>reason. Inr (Some reason))))"
    using "1.prems" by (subst send_from.simps) (simp add: mk)
  show ?case
  proof (cases "after_attempt ?may rc (env_http env ?i) (stats s1)")
    case (Inl st)
    note a = after_attempt_Inl [OF Inl]
    obtain s' n r where
      e: "send_from env ep p tr tok retry_count rc (attempt + 1) (s1\<lparr>stats := st\<rparr>) = (s', bind_res r (\<lambda>x. Inr (Some x)))"
      and sp: "send_spec env rc (retry_count - attempt) (s1\<lparr>stats := st\<rparr>) s' n r"
      and snt: "sent s' = sent s1 @ replicate n ?rq"
      using "1.IH" [OF _ mk [symmetric] refl Inl] "1.prems" a(1) by auto
    have "retryable rc (env_http env (?i + j))" if "j < Suc n - 1" for j
      using sp a(2) that unfolding send_spec_def Let_def s1_def by (cases j) auto
    then have "send_spec env rc (retry_count + 1 - attempt) s s' (Suc n) r"
      using sp a unfolding send_spec_def Let_def s1_def by auto
    then show ?thesis
      using e unf Inl snt by (intro exI [of _ s'] exI [of _ "Suc n"] exI [of _ r]) (simp add: s1_def)
  next
    case (Inr q)
    then obtain st r where q: "after_attempt ?may rc (env_http env ?i) (stats s1) = Inr (st, r)"
      by (cases q) auto
    note a = after_attempt_Inr [OF q]
    have "send_spec env rc (retry_count + 1 - attempt) s (s1\<lparr>stats := st\<rparr>) 1 r"
      using a "1.prems" unfolding send_spec_def Let_def s1_def by (auto split: sum.splits)
    then show ?thesis
      using unf q by (intro exI [of _ "s1\<lparr>stats := st\<rparr>"] exI [of _ 1] exI [of _ r]) (simp add: s1_def)
  qed
qed

section \<open>The reasons of a rejection\<close>

definition reject_prefixes :: "string list" where
  "reject_prefixes = [''RAW_IDENTIFIER_FIELD:'', ''LABEL_FIELD:'', ''RAW_IDENTIFIER_VALUE'', ''MISSING_FIELD:'',
     ''RECEIVED_AT_PRESENT'', ''INVALID_HASH_ID:'', ''INVALID_EVENT_ID'', ''INVALID_TRACE_ID'',
     ''INVALID_EVENT_TYPE'', ''UNSUPPORTED_MAPPING_POLICY_VERSION:'', ''INVALID_NATIVE_EVENT_TYPE'',
     ''UNSUPPORTED_NATIVE_TYPE:'', ''NATIVE_MAPPING_MISMATCH:'', ''NORMALIZED_EVENT_TYPE_MISMATCH:'',
     ''TYPE_SUPPORT_LEVEL_MISMATCH:'', ''UNSUPPORTED_EVENT_TYPE_FOR_CURRENT_API:'', ''INVALID_CURRENCY'',
     ''INVALID_AMOUNT'', ''INVALID_EVENT_TIME'']"

definition is_rejection :: "exn \<Rightarrow> bool" where
  "is_rejection x \<longleftrightarrow> (\<exists>r eid. x = PayloadValidationError r eid \<and> (\<exists>p \<in> set reject_prefixes. starts_with r p))"

lemma is_rejection_iff [simp]:
  "is_rejection (PayloadValidationError r eid) \<longleftrightarrow> list_ex (starts_with r) reject_prefixes"
  by (auto simp: is_rejection_def list_ex_iff)

lemmas reason_simps = reject_prefixes_def starts_with_def

lemma scan_rejection: "pred_option is_rejection (scan_forbidden v)"
proof -
  have "is_rejection x" if "forbidden_key d path k = Some x" for d path k x
    using that by (auto simp: forbidden_key_def reason_simps split: if_splits)
  moreover have "is_rejection (PayloadValidationError ''RAW_IDENTIFIER_VALUE'' None)"
    by (simp add: reason_simps)
  ultimately have "scan_forbidden v = Some x \<Longrightarrow> is_rejection x" for x
    unfolding scan_forbidden_def by (rule scan_json_Some(1) [where P = is_rejection])
  then show ?thesis by (simp add: pred_option_def)
qed

lemma mapping_rejection: "pred_option is_rejection (validate_native_mapping e)"
  unfolding validate_native_mapping_def Let_def
  by (auto simp: reason_simps mapping_for_simps truthy_opt_def intro!: first_fail_pred)

lemma validate_event_rejection: "pred_option is_rejection (validate_event e pol)"
  unfolding validate_event_def Let_def
  by (rule first_fail_pred) (simp add: scan_rejection mapping_rejection, simp add: reason_simps)

section \<open>What a run is meant to do\<close>

text \<open>
  The specification of a run as functions of the rows it took: which rows are valid, what is sent for
  a valid row, and every statistic of the payloads as a tally over the rows.
\<close>

definition row_valid :: "replay_args \<Rightarrow> jobj \<Rightarrow> bool" where
  "row_valid a e \<longleftrightarrow> validate_event e (ra_event_type_policy a) = None"

definition replayed_id :: "replay_args \<Rightarrow> jobj \<Rightarrow> string" where
  "replayed_id a e = (let eid = the_str (jget e ''eventId'') in
     if ra_idempotency_mode a = ''prefix'' then the (ra_event_id_prefix a) @ ''-'' @ eid else eid)"

definition payload_for :: "replay_args \<Rightarrow> jobj \<Rightarrow> jobj" where
  "payload_for a e = jset (request_part e) ''eventId'' (JStr (replayed_id a e))"

definition request_of :: "replay_args \<Rightarrow> string option \<Rightarrow> jobj \<Rightarrow> http_request" where
  "request_of a token e = request_for (ra_endpoint a) (payload_for a e) (the_str (jget e ''traceId'')) token"

definition tally_of :: "(jobj \<Rightarrow> json) \<Rightarrow> jobj list \<Rightarrow> string counter" where
  "tally_of f es = fold (\<lambda>e. cinc_str (f e)) es []"

definition excluded_type :: "replay_args \<Rightarrow> jobj \<Rightarrow> string list" where
  "excluded_type a e = (case validate_event e (ra_event_type_policy a) of
     Some (PayloadValidationError r _) \<Rightarrow>
       if starts_with r ''UNSUPPORTED_EVENT_TYPE_FOR_CURRENT_API:'' \<or> starts_with r ''UNSUPPORTED_NATIVE_TYPE:''
       then [after_first CHR '':'' r] else []
   | _ \<Rightarrow> [])"

definition summary :: "replay_args \<Rightarrow> jobj list \<Rightarrow> replay_stats \<Rightarrow> bool" where
  "summary a es s \<longleftrightarrow> (let acc = filter (row_valid a) es; rej = filter (\<lambda>e. \<not> row_valid a e) es in
     total_read s = length es \<and> payload_accepted s = length acc \<and> payload_rejected s = length rej
   \<and> missing_mapping_metadata s = length (filter (\<lambda>e. is_paysim_event e \<and> \<not> has_mapping_metadata e) es)
   \<and> dropped_fields s = fold cinc (concat (map dropped_keys acc)) []
   \<and> unsupported_event_types s = fold cinc (concat (map (excluded_type a) es)) []
   \<and> excluded_by_type s = fold cinc (concat (map (excluded_type a) es)) []
   \<and> input_native_types s = tally_of native_type_of es
   \<and> input_normalized_types s = tally_of normalized_type_of es
   \<and> input_support_levels s = tally_of support_level_of es
   \<and> mapping_policy_versions s = tally_of (\<lambda>e. jget e ''typeMappingPolicyVersion'') es
   \<and> accepted_native_types s = tally_of native_type_of acc
   \<and> accepted_normalized_types s = tally_of normalized_type_of acc
   \<and> accepted_support_levels s = tally_of support_level_of acc
   \<and> rejected_native_types s = tally_of native_type_of rej
   \<and> rejected_normalized_types s = tally_of normalized_type_of rej
   \<and> rejected_support_levels s = tally_of support_level_of rej
   \<and> replay_sample_ids s = take MAX_SAMPLE_EVENT_IDS (map (replayed_id a) acc))"

lemma tally_of_simps [simp]: "tally_of f [] = []" "tally_of f (es @ [e]) = cinc_str (f e) (tally_of f es)"
  by (simp_all add: tally_of_def)

lemma payload_for_eventId [simp]: "jget (payload_for a e) ''eventId'' = JStr (replayed_id a e)"
  by (simp add: payload_for_def jget_or_def)

lemma to_api_request_valid:
  assumes "validate_replay_args a ex = None"
  shows "to_api_request e a dr = (case validate_event e (ra_event_type_policy a) of
      Some x \<Rightarrow> (dr, Inl x)
    | None \<Rightarrow> (fold cinc (dropped_keys e) dr, Inr (payload_for a e, the_str (jget e ''traceId''))))"
  using assms
  by (auto simp: to_api_request_def validate_replay_args_def replay_event_id_def payload_for_def replayed_id_def
      Let_def split: option.splits)

lemma payload_for_is_payload:
  assumes "validate_replay_args a ex = None" "row_valid a e"
  shows "payload_of a e (payload_for a e)"
  using to_api_request_Inr(1) to_api_request_valid [OF assms(1), of e "[]"] assms(2)
  by (simp add: row_valid_def)

section \<open>One pass through the loop\<close>

lemma forget_http_eq:
  "forget_http s = forget_http s' \<longleftrightarrow>
     total_read s = total_read s' \<and> payload_accepted s = payload_accepted s' \<and> payload_rejected s = payload_rejected s'
   \<and> missing_mapping_metadata s = missing_mapping_metadata s' \<and> dropped_fields s = dropped_fields s'
   \<and> unsupported_event_types s = unsupported_event_types s'
   \<and> input_native_types s = input_native_types s' \<and> input_normalized_types s = input_normalized_types s'
   \<and> input_support_levels s = input_support_levels s' \<and> accepted_native_types s = accepted_native_types s'
   \<and> accepted_normalized_types s = accepted_normalized_types s'
   \<and> accepted_support_levels s = accepted_support_levels s' \<and> rejected_native_types s = rejected_native_types s'
   \<and> rejected_normalized_types s = rejected_normalized_types s'
   \<and> rejected_support_levels s = rejected_support_levels s' \<and> excluded_by_type s = excluded_by_type s'
   \<and> mapping_policy_versions s = mapping_policy_versions s' \<and> replay_sample_ids s = replay_sample_ids s'
   \<and> failures s = failures s'"
  by (cases s; cases s') (auto simp: forget_http_def)

text \<open>The statistics after a row that is rejected, and after one that is accepted.\<close>

definition rejected_stats :: "nat \<Rightarrow> jobj \<Rightarrow> string \<Rightarrow> string option \<Rightarrow> replay_stats \<Rightarrow> replay_stats" where
  "rejected_stats row e reason eid st = note_rejected row e reason eid (note_input e st)"

definition accepted_stats :: "jobj \<Rightarrow> jobj \<Rightarrow> replay_stats \<Rightarrow> replay_stats" where
  "accepted_stats e payload st = note_accepted e (the_str (jget payload ''eventId''))
     ((note_input e st)\<lparr>dropped_fields := fold cinc (dropped_keys e) (dropped_fields st)\<rparr>)"

text \<open>What posting an accepted row does to the state that has the row accepted already.\<close>

definition posted :: "replay_args \<Rightarrow> http_request \<Rightarrow> nat \<Rightarrow> replay_state \<Rightarrow> replay_state \<Rightarrow> bool" where
  "posted a rq n s s' \<longleftrightarrow> int n \<le> ra_retry_count a + 1 \<and> sent s' = sent s @ replicate n rq
     \<and> retry_attempts (stats s') = retry_attempts (stats s) + (n - 1)
     \<and> retries_by_kind (stats s') = retries_by_kind (stats s) + (n - 1)
     \<and> (\<exists>fs. forget_http (stats s') = (forget_http (stats s))\<lparr>failures := fs\<rparr>
         \<and> (fs = failures (stats s) \<or> (\<exists>f. length (failures (stats s)) < MAX_FAILURES \<and> fs = failures (stats s) @ [f])))"

lemma valid_args_rate:
  assumes "validate_replay_args a ex = None"
  shows "0 \<le> ra_retry_count a" "\<exists>y. fdiv (Fin 1) (ra_rate_per_second a) = Inr y"
proof -
  show "0 \<le> ra_retry_count a" using assms by (auto simp: validate_replay_args_def)
  have "\<not> fle (ra_rate_per_second a) (Fin 0)" using assms by (simp add: validate_replay_args_def)
  then show "\<exists>y. fdiv (Fin 1) (ra_rate_per_second a) = Inr y"
    by (cases "ra_rate_per_second a") (auto simp: fle_def)
qed

text \<open>The time of the last request is an earlier reading of the clock, and a pause is what two readings leave of
  the interval.\<close>

definition clock_known :: "replay_env \<Rightarrow> replay_state \<Rightarrow> bool" where
  "clock_known env s \<longleftrightarrow> (\<forall>t. last_sent_at s = Some t \<longrightarrow> (\<exists>i < readings s. t = env_clock env i))"

definition pause_overflows :: "replay_env \<Rightarrow> replay_args \<Rightarrow> bool" where
  "pause_overflows env a \<longleftrightarrow> (\<exists>i j interval. i < j \<and> fdiv (Fin 1) (ra_rate_per_second a) = Inr interval
     \<and> flt (fsub (env_clock env j) (env_clock env i)) interval
     \<and> sleep_overflows (fsub interval (fsub (env_clock env j) (env_clock env i))))"

lemma maybe_sleep_cases:
  assumes "fdiv (Fin 1) (ra_rate_per_second a) = Inr interval" "clock_known env s"
  obtains s1 where "maybe_sleep env (ra_rate_per_second a) s = Inr s1" "stats s1 = stats s" "sent s1 = sent s" "clock_known env s1"
  | "maybe_sleep env (ra_rate_per_second a) s = Inl OverflowError" "pause_overflows env a"
proof (cases "last_sent_at s")
  case None
  then show ?thesis
    by (intro that(1) [of "s\<lparr>readings := Suc (readings s), last_sent_at := Some (env_clock env (readings s))\<rparr>"])
      (auto simp: maybe_sleep_def read_clock_def clock_known_def Let_def)
next
  case (Some t)
  then obtain i where i: "i < readings s" "t = env_clock env i" using assms(2) by (auto simp: clock_known_def)
  let ?e = "fsub (env_clock env (readings s)) t"
  show ?thesis
  proof (cases "flt ?e interval \<and> sleep_overflows (fsub interval ?e)")
    case True
    then have "pause_overflows env a" using i assms(1) unfolding pause_overflows_def by blast
    then show ?thesis using Some True assms(1) by (intro that(2)) (simp_all add: maybe_sleep_def read_clock_def)
  next
    case False
    then show ?thesis using Some assms(1)
      by (intro that(1) [of "(if flt ?e interval then s\<lparr>pauses := pauses s @ [fsub interval ?e]\<rparr> else s)
          \<lparr>readings := Suc (Suc (readings s)), last_sent_at := Some (env_clock env (Suc (readings s)))\<rparr>"])
        (auto simp: maybe_sleep_def read_clock_def clock_known_def Let_def)
  qed
qed

text \<open>What can end a run at a row that it accepts.\<close>

definition post_fault :: "replay_env \<Rightarrow> replay_args \<Rightarrow> http_request \<Rightarrow> exn \<Rightarrow> bool" where
  "post_fault env a rq x \<longleftrightarrow>
     x = ConnectionFault \<and> (\<exists>n. env_http env n = OtherRaised)
     \<or> x = ValueError ''Invalid header value'' \<and> header_refused rq
     \<or> x = OverflowError \<and> pause_overflows env a"

lemma forget_http_failures: "(forget_http s)\<lparr>failures := failures s\<rparr> = forget_http s"
  by (cases s) (simp add: forget_http_def)

lemma add_failure_stats:
  "forget_http (add_failure row r eid st) = (forget_http st)\<lparr>failures := failures (add_failure row r eid st)\<rparr>"
  "attempted (add_failure row r eid st) = attempted st"
  "retry_attempts (add_failure row r eid st) = retry_attempts st"
  "retries_by_kind (add_failure row r eid st) = retries_by_kind st"
  "failures (add_failure row r eid st) = failures st \<or>
     (\<exists>f. length (failures st) < MAX_FAILURES \<and> failures (add_failure row r eid st) = failures st @ [f])"
  by (simp_all add: add_failure_def forget_http_def attempted_def retries_by_kind_def)

lemma post_event_sent:
  assumes ok: "validate_replay_args a ex = None"
    and s1: "maybe_sleep env (ra_rate_per_second a) s = Inr s1" "stats s1 = stats s" "sent s1 = sent s" "clock_known env s1"
    and legal: "\<not> header_refused (request_for (ra_endpoint a) payload tr token)"
    and run: "post_event env a token row payload tr s = (s', fl)"
  shows "\<exists>n \<ge> 1. posted a (request_for (ra_endpoint a) payload tr token) n s s'
    \<and> attempted (stats s') = attempted (stats s) + (case fl of Raise _ \<Rightarrow> 0 | _ \<Rightarrow> 1)
    \<and> (\<forall>x. fl = Raise x \<longrightarrow> post_fault env a (request_for (ra_endpoint a) payload tr token) x) \<and> (fl = Break \<longrightarrow> ra_stop_on_error a)
    \<and> clock_known env s'"
proof -
  let ?rq = "request_for (ra_endpoint a) payload tr token"
  obtain s2 n r where send: "send_with_retry env (ra_endpoint a) payload tr token (ra_retry_count a)
        (ra_retry_connection_error a) s1 = (s2, bind_res r (\<lambda>x. Inr (Some x)))"
    and sp: "send_spec env (ra_retry_connection_error a) (ra_retry_count a + 1) s1 s2 n r"
    and snt: "sent s2 = sent s1 @ replicate n ?rq"
    using send_from_spec [OF valid_args_rate(1) [OF ok] legal] unfolding send_with_retry_def by (metis add.right_neutral diff_zero)
  have fault: "r = Inl x \<Longrightarrow> post_fault env a ?rq x" for x
    using sp by (auto simp: post_fault_def send_spec_def Let_def final_reason_def split: http_outcome.splits)
  have sp': "1 \<le> n" "int n \<le> ra_retry_count a + 1" "forget_http (stats s2) = forget_http (stats s)"
    "retry_attempts (stats s2) = retry_attempts (stats s) + (n - 1)"
    "retries_by_kind (stats s2) = retries_by_kind (stats s) + (n - 1)"
    "attempted (stats s2) = attempted (stats s) + (case r of Inr _ \<Rightarrow> 1 | Inl _ \<Rightarrow> 0)"
    "clock_known env s2"
    using sp s1 unfolding send_spec_def Let_def clock_known_def by simp_all
  have fs: "failures (stats s2) = failures (stats s)"
    using sp'(3) by (simp add: forget_http_eq)
  have "posted a ?rq n s s2"
    using sp'(1-5) snt s1 forget_http_failures [of "stats s"] unfolding posted_def
    by (auto intro!: exI [of _ "failures (stats s)"])
  then have post: "posted a ?rq n s (s2\<lparr>stats := add_failure row q eid (stats s2)\<rparr>)" "posted a ?rq n s s2" for q eid
    using fs sp'(3) add_failure_stats [of row q eid "stats s2"] unfolding posted_def by auto
  have known: "clock_known env (s2\<lparr>stats := st\<rparr>)" for st using sp'(7) by (simp add: clock_known_def)
  show ?thesis
  proof (cases r)
    case (Inl x)
    then have "s' = s2 \<and> fl = Raise x" using run s1(1) send by (simp add: post_event_def)
    with Inl post(2) sp' fault [OF Inl] show ?thesis by (intro exI [of _ n]) simp
  next
    case (Inr q)
    then have "fl \<noteq> Raise x" "fl = Break \<longrightarrow> ra_stop_on_error a"
      "s' = s2 \<or> (\<exists>eid. s' = s2\<lparr>stats := add_failure row q eid (stats s2)\<rparr>)" for x
      using run s1(1) send by (auto simp: post_event_def split: if_splits)
    with Inr post sp' known show ?thesis
      by (intro exI [of _ n]) (auto simp: add_failure_stats(2) split: flow.splits)
  qed
qed

lemma posted_nothing:
  assumes "validate_replay_args a ex = None" "stats s' = stats s" "sent s' = sent s"
  shows "posted a rq 0 s s'"
  using assms(2,3) valid_args_rate(1) [OF assms(1)] forget_http_failures [of "stats s"] unfolding posted_def
  by (auto intro!: exI [of _ "failures (stats s)"])

lemma post_event_posted:
  assumes ok: "validate_replay_args a ex = None" and known: "clock_known env s"
    and run: "post_event env a token row payload tr s = (s', fl)"
  obtains n where "posted a (request_for (ra_endpoint a) payload tr token) n s s'"
    "attempted (stats s') = attempted (stats s) + (case fl of Raise _ \<Rightarrow> 0 | _ \<Rightarrow> 1)"
    "\<forall>x. fl = Raise x \<longrightarrow> post_fault env a (request_for (ra_endpoint a) payload tr token) x" "fl = Break \<longrightarrow> ra_stop_on_error a"
    "(\<forall>x. fl \<noteq> Raise x) \<longrightarrow> 1 \<le> n \<and> clock_known env s'"
proof -
  let ?rq = "request_for (ra_endpoint a) payload tr token"
  obtain interval where i: "fdiv (Fin 1) (ra_rate_per_second a) = Inr interval" using valid_args_rate(2) [OF ok] by blast
  show ?thesis
  proof (rule maybe_sleep_cases [OF i known])
    assume 2: "maybe_sleep env (ra_rate_per_second a) s = Inl OverflowError" "pause_overflows env a"
    then have s': "s' = s" "fl = Raise OverflowError" using run by (simp_all add: post_event_def)
    then have "posted a ?rq 0 s s'" using posted_nothing [OF ok] by simp
    then show ?thesis by (rule that) (use 2(2) s' in \<open>simp_all add: post_fault_def\<close>)
  next
    fix s1
    assume s1: "maybe_sleep env (ra_rate_per_second a) s = Inr s1" "stats s1 = stats s" "sent s1 = sent s" "clock_known env s1"
    show ?thesis
    proof (cases "header_refused ?rq")
      case True
      then have s': "s' = s1" "fl = Raise (ValueError ''Invalid header value'')"
        using run s1(1) send_from_refused [OF valid_args_rate(1) [OF ok]] by (simp_all add: post_event_def send_with_retry_def)
      then have "posted a ?rq 0 s s'" using posted_nothing [OF ok] s1 by simp
      then show ?thesis by (rule that) (use True s1(2) s' in \<open>simp_all add: post_fault_def\<close>)
    next
      case False
      then show ?thesis using post_event_sent [OF ok s1 False run] that by blast
    qed
  qed
qed

section \<open>The run\<close>

text \<open>The rule for a property of the loop: it speaks of the rows taken so far and of the state.\<close>

lemma replay_loop_rule:
  assumes "replay_loop env a token items s = (s', r)" and "P done s"
    and "\<And>done row e s s1 fl. P done s \<Longrightarrow> \<forall>n. ra_max_events a = Some n \<longrightarrow> int (total_read (stats s)) < n \<Longrightarrow>
       replay_row env a token row e s = (s1, fl) \<Longrightarrow>
       case fl of Raise x \<Rightarrow> Q (done @ [(row, e)]) s1 \<and> X e x
       | Continue \<Rightarrow> P (done @ [(row, e)]) s1
       | Break \<Rightarrow> P (done @ [(row, e)]) s1 \<and> ra_stop_on_error a"
  shows "\<exists>taken rest. items = map Inr taken @ rest \<and>
     (case r of
        None \<Rightarrow> P (done @ taken) s' \<and>
          (rest = [] \<or> ra_stop_on_error a \<or> (\<exists>n. ra_max_events a = Some n \<and> n \<le> int (total_read (stats s')) \<and> \<not> isl (hd rest)))
      | Some x \<Rightarrow> P (done @ taken) s' \<and> rest \<noteq> [] \<and> hd rest = Inl x
          \<or> Q (done @ taken) s' \<and> (\<exists>(row, e) \<in> set taken. X e x))"
  (is "\<exists>taken rest. _ \<and> ?concl taken (done @ taken) rest")
  using assms(1,2)
proof (induction items arbitrary: s "done")
  case Nil
  then show ?case by auto
next
  case (Cons i "is")
  show ?case
  proof (cases i)
    case (Inl x)
    with Cons.prems show ?thesis by (intro exI [of _ "[]"] exI [of _ "Inl x # is"]) auto
  next
    case (Inr q)
    obtain row e where q: "q = (row, e)" by fastforce
    note run = Cons.prems(1) [unfolded Inr q]
    obtain s1 fl where row: "replay_row env a token row e s = (s1, fl)" by fastforce
    let ?stop = "case ra_max_events a of None \<Rightarrow> False | Some n \<Rightarrow> n \<le> int (total_read (stats s))"
    show ?thesis
    proof (cases ?stop)
      case True
      with run Cons.prems(2) Inr q show ?thesis by (intro exI [of _ "[]"] exI [of _ "Inr (row, e) # is"]) (auto split: option.splits)
    next
      case False
      then have "\<forall>n. ra_max_events a = Some n \<longrightarrow> int (total_read (stats s)) < n" by (auto split: option.splits)
      note step = assms(3) [OF Cons.prems(2) this row]
      note run = run [unfolded replay_loop.simps if_not_P [OF False] row prod.case]
      show ?thesis
      proof (cases fl)
        case Continue
        with run step have "replay_loop env a token is s1 = (s', r)" "P (done @ [(row, e)]) s1" by simp_all
        from Cons.IH [OF this, unfolded append_assoc append_Cons append_Nil] obtain taken rest
          where "is = map Inr taken @ rest" "?concl taken (done @ (row, e) # taken) rest" by blast
        then show ?thesis using Inr q by (intro exI [of _ "(row, e) # taken"] exI [of _ rest]) (auto split: option.splits)
      next
        case Break
        with run step Inr q show ?thesis by (intro exI [of _ "[(row, e)]"] exI [of _ "is"]) auto
      next
        case (Raise x)
        with run step Inr q show ?thesis by (intro exI [of _ "[(row, e)]"] exI [of _ "is"]) auto
      qed
    qed
  qed
qed

lemma summary_init: "summary a [] empty_stats"
  by (simp add: summary_def empty_stats_def)

lemma summary_forget:
  assumes "forget_http s' = (forget_http s)\<lparr>failures := fs\<rparr>"
  shows "summary a es s' = summary a es s"
proof -
  have "summary a es s' = summary a es (forget_http s')" "summary a es s = summary a es ((forget_http s)\<lparr>failures := fs\<rparr>)"
    by (simp_all add: summary_def forget_http_def)
  with assms show ?thesis by simp
qed

lemma summary_accepted:
  assumes "summary a es s" "row_valid a e"
  shows "summary a (es @ [e]) (accepted_stats e (payload_for a e) s)"
proof -
  have "excluded_type a e = []" using assms(2) by (simp add: excluded_type_def row_valid_def)
  with assms show ?thesis
    by (simp add: summary_def accepted_stats_def note_accepted_def note_input_def add_sample_event_id_def Let_def
        MAX_SAMPLE_EVENT_IDS_def take_Suc_conv_app_nth min_def)
qed

lemma summary_rejected:
  assumes "summary a es s" "validate_event e (ra_event_type_policy a) = Some (PayloadValidationError r eid)"
  shows "summary a (es @ [e]) (rejected_stats row e r eid s)"
proof -
  have "\<not> row_valid a e" using assms(2) by (simp add: row_valid_def)
  moreover have "summary a (es @ [e]) (note_excluded r ((note_input e s)\<lparr>payload_rejected := Suc (payload_rejected s),
       rejected_native_types := cinc_str (native_type_of e) (rejected_native_types s),
       rejected_normalized_types := cinc_str (normalized_type_of e) (rejected_normalized_types s),
       rejected_support_levels := cinc_str (support_level_of e) (rejected_support_levels s)\<rparr>))"
    using assms calculation
    by (simp add: summary_def note_excluded_def note_input_def excluded_type_def Let_def)
  ultimately show ?thesis
    using summary_forget [OF add_failure_stats(1)]
    by (simp add: rejected_stats_def note_rejected_def note_input_def Let_def)
qed

section \<open>The invariant of the run\<close>

text \<open>
  The requests a run made for its accepted rows: row \<open>i\<close> was posted \<open>ns ! i\<close> times in a row.
  \<open>lost\<close> is 1 when the last row's send ended in an uncaught exception, which may have come before the
  first post, else 0.
\<close>

definition requests :: "replay_args \<Rightarrow> string option \<Rightarrow> nat list \<Rightarrow> jobj list \<Rightarrow> http_request list" where
  "requests a token ns es = concat (map (\<lambda>(n, e). replicate n (request_of a token e)) (zip ns es))"

definition sends_ok :: "replay_args \<Rightarrow> string option \<Rightarrow> jobj list \<Rightarrow> nat \<Rightarrow> replay_state \<Rightarrow> bool" where
  "sends_ok a token es lost s \<longleftrightarrow> (let acc = filter (row_valid a) es; st = stats s in
     retry_attempts st = retries_by_kind st \<and>
     (if ra_dry_run a then sent s = [] \<and> attempted st = 0 \<and> retry_attempts st = 0
      else (\<exists>ns. length ns = length acc \<and> (\<forall>n \<in> set ns. (lost = 0 \<longrightarrow> 1 \<le> n) \<and> int n \<le> ra_retry_count a + 1)
             \<and> sent s = requests a token ns acc)
        \<and> (lost = 0 \<longrightarrow> length (sent s) = length acc + retry_attempts st)
        \<and> attempted st + lost = length acc))"

definition run_inv :: "replay_args \<Rightarrow> string option \<Rightarrow> nat \<Rightarrow> (nat \<times> jobj) list \<Rightarrow> replay_state \<Rightarrow> bool" where
  "run_inv a token lost taken s \<longleftrightarrow> summary a (map snd taken) (stats s)
     \<and> sends_ok a token (map snd taken) lost s \<and> length (failures (stats s)) \<le> MAX_FAILURES"

lemma requests_snoc:
  "length ns = length es \<Longrightarrow> requests a token (ns @ [n]) (es @ [e]) = requests a token ns es @ replicate n (request_of a token e)"
  by (simp add: requests_def)

lemma run_inv_init: "run_inv a token 0 [] init_replay_state"
  by (simp add: run_inv_def summary_init sends_ok_def init_replay_state_def requests_def Let_def)
     (simp add: empty_stats_def retries_by_kind_def attempted_def)

lemma http_part_of_payload_updates:
  "attempted (rejected_stats row e r eid st) = attempted st"
  "retry_attempts (rejected_stats row e r eid st) = retry_attempts st"
  "retries_by_kind (rejected_stats row e r eid st) = retries_by_kind st"
  "attempted (accepted_stats e p st) = attempted st"
  "retry_attempts (accepted_stats e p st) = retry_attempts st"
  "retries_by_kind (accepted_stats e p st) = retries_by_kind st"
  "failures (accepted_stats e p st) = failures st"
  "length (failures st) \<le> MAX_FAILURES \<Longrightarrow> length (failures (rejected_stats row e r eid st)) \<le> MAX_FAILURES"
  by (simp_all add: rejected_stats_def accepted_stats_def note_rejected_def note_accepted_def note_input_def
      note_excluded_def add_failure_def add_sample_event_id_def attempted_def retries_by_kind_def Let_def)

lemma run_inv_rejected:
  assumes "run_inv a token 0 taken s" "validate_event e (ra_event_type_policy a) = Some (PayloadValidationError r eid)"
  shows "run_inv a token 0 (taken @ [(row, e)]) (s\<lparr>stats := rejected_stats row e r eid (stats s)\<rparr>)"
proof -
  have "\<not> row_valid a e" using assms(2) by (simp add: row_valid_def)
  then show ?thesis using assms summary_rejected [OF _ assms(2)]
    unfolding run_inv_def sends_ok_def Let_def
    by (auto simp: http_part_of_payload_updates simp del: length_filter_map)
qed

lemma run_inv_dry:
  assumes "run_inv a token 0 taken s" "row_valid a e" "ra_dry_run a"
  shows "run_inv a token 0 (taken @ [(row, e)]) (s\<lparr>stats := accepted_stats e (payload_for a e) (stats s)\<rparr>)"
  using assms summary_accepted [OF _ assms(2)]
  unfolding run_inv_def sends_ok_def Let_def by (simp add: http_part_of_payload_updates)

lemma run_inv_posted:
  assumes inv: "run_inv a token 0 taken s" and v: "row_valid a e" and dry: "\<not> ra_dry_run a"
    and p: "posted a (request_of a token e) n (s\<lparr>stats := accepted_stats e (payload_for a e) (stats s)\<rparr>) s'"
    and att: "attempted (stats s') + lost = Suc (attempted (stats s))" and n: "lost = 0 \<longrightarrow> 1 \<le> n"
  shows "run_inv a token lost (taken @ [(row, e)]) s'"
proof -
  let ?st = "accepted_stats e (payload_for a e) (stats s)"
  obtain fs where fs: "forget_http (stats s') = (forget_http ?st)\<lparr>failures := fs\<rparr>"
    "fs = failures ?st \<or> (\<exists>f. length (failures ?st) < MAX_FAILURES \<and> fs = failures ?st @ [f])"
    using p by (auto simp: posted_def)
  have "failures (stats s') = failures (forget_http (stats s'))" by (simp add: forget_http_def)
  then have "failures (stats s') = fs" using fs(1) by simp
  then have len: "length (failures (stats s')) \<le> MAX_FAILURES"
    using fs(2) inv by (auto simp: run_inv_def http_part_of_payload_updates)
  have sum: "summary a (map snd (taken @ [(row, e)])) (stats s')"
    using summary_accepted [OF _ v] inv summary_forget [OF fs(1)] by (simp add: run_inv_def)
  obtain ns where ns: "length ns = length (filter (row_valid a) (map snd taken))"
    "\<forall>n \<in> set ns. 1 \<le> n \<and> int n \<le> ra_retry_count a + 1" "sent s = requests a token ns (filter (row_valid a) (map snd taken))"
    using inv dry by (auto simp: run_inv_def sends_ok_def Let_def)
  have "sent s' = requests a token (ns @ [n]) (filter (row_valid a) (map snd (taken @ [(row, e)])))"
    using p ns v by (simp add: posted_def requests_snoc)
  then have "\<exists>ns. length ns = length (filter (row_valid a) (map snd (taken @ [(row, e)])))
      \<and> (\<forall>n \<in> set ns. (lost = 0 \<longrightarrow> 1 \<le> n) \<and> int n \<le> ra_retry_count a + 1)
      \<and> sent s' = requests a token ns (filter (row_valid a) (map snd (taken @ [(row, e)])))"
    using ns v p n by (intro exI [of _ "ns @ [n]"]) (auto simp: posted_def)
  moreover have "retry_attempts (stats s') = retries_by_kind (stats s')"
    and "lost = 0 \<longrightarrow> length (sent s') = Suc (length (filter (row_valid a) (map snd taken))) + retry_attempts (stats s')"
    and "attempted (stats s') + lost = Suc (length (filter (row_valid a) (map snd taken)))"
    using p inv dry att n
    by (auto simp: posted_def run_inv_def sends_ok_def Let_def http_part_of_payload_updates simp del: length_filter_map)
  ultimately have "sends_ok a token (map snd (taken @ [(row, e)])) lost s'"
    using dry v unfolding sends_ok_def Let_def by simp
  with sum len show ?thesis by (simp add: run_inv_def)
qed

lemma dropped_note_input: "dropped_fields (note_input e st) = dropped_fields st"
  by (simp add: note_input_def)

text \<open>The rows taken are within the limit on events.\<close>

definition within_limit :: "replay_args \<Rightarrow> (nat \<times> jobj) list \<Rightarrow> bool" where
  "within_limit a taken \<longleftrightarrow> (\<forall>n. ra_max_events a = Some n \<longrightarrow> int (length taken) \<le> n)"

definition bounded_inv :: "replay_args \<Rightarrow> string option \<Rightarrow> nat \<Rightarrow> (nat \<times> jobj) list \<Rightarrow> replay_state \<Rightarrow> bool" where
  "bounded_inv a token lost taken s \<longleftrightarrow> run_inv a token lost taken s \<and> within_limit a taken"

lemma run_inv_total_read: "run_inv a token lost taken s \<Longrightarrow> total_read (stats s) = length taken"
  by (simp add: run_inv_def summary_def Let_def)

text \<open>The invariant of the loop: the bookkeeping, and that the time of the last request is known.\<close>

definition loop_inv :: "replay_env \<Rightarrow> replay_args \<Rightarrow> string option \<Rightarrow> (nat \<times> jobj) list \<Rightarrow> replay_state \<Rightarrow> bool" where
  "loop_inv env a token taken s \<longleftrightarrow> bounded_inv a token 0 taken s \<and> clock_known env s"

definition row_fault :: "replay_env \<Rightarrow> replay_args \<Rightarrow> string option \<Rightarrow> jobj \<Rightarrow> exn \<Rightarrow> bool" where
  "row_fault env a token e x \<longleftrightarrow> \<not> ra_dry_run a \<and> row_valid a e \<and> post_fault env a (request_of a token e) x"

lemma replay_row_inv:
  assumes ok: "validate_replay_args a ex = None" and inv: "run_inv a token 0 taken s" and known: "clock_known env s"
    and row: "replay_row env a token row e s = (s1, fl)"
  shows "case fl of Raise x \<Rightarrow> run_inv a token 1 (taken @ [(row, e)]) s1 \<and> row_fault env a token e x
    | Continue \<Rightarrow> run_inv a token 0 (taken @ [(row, e)]) s1 \<and> clock_known env s1
    | Break \<Rightarrow> (run_inv a token 0 (taken @ [(row, e)]) s1 \<and> clock_known env s1) \<and> ra_stop_on_error a"
proof (cases "validate_event e (ra_event_type_policy a)")
  case (Some x)
  then obtain r eid where x: "validate_event e (ra_event_type_policy a) = Some (PayloadValidationError r eid)"
    using validate_event_rejection [of e "ra_event_type_policy a"] by (auto simp: is_rejection_def)
  then have "s1 = s\<lparr>stats := rejected_stats row e r eid (stats s)\<rparr> \<and> fl = (if ra_stop_on_error a then Break else Continue)"
    using row to_api_request_valid [OF ok] by (simp add: replay_row_def rejected_stats_def)
  then show ?thesis using run_inv_rejected [OF inv x] known by (simp add: clock_known_def)
next
  case None
  then have v: "row_valid a e" by (simp add: row_valid_def)
  let ?s = "s\<lparr>stats := accepted_stats e (payload_for a e) (stats s)\<rparr>"
  have known': "clock_known env ?s" using known by (simp add: clock_known_def)
  have "replay_row env a token row e s = (if ra_dry_run a then (?s, Continue)
      else post_event env a token row (payload_for a e) (the_str (jget e ''traceId'')) ?s)"
    using to_api_request_valid [OF ok] None
    by (simp add: replay_row_def accepted_stats_def Let_def dropped_note_input)
  note row' = this [unfolded row, symmetric]
  show ?thesis
  proof (cases "ra_dry_run a")
    case True
    then show ?thesis using row' run_inv_dry [OF inv v] known' by auto
  next
    case False
    then have "post_event env a token row (payload_for a e) (the_str (jget e ''traceId'')) ?s = (s1, fl)"
      using row' by simp
    from post_event_posted [OF ok known' this] obtain n where
      p: "posted a (request_of a token e) n ?s s1"
      and att: "attempted (stats s1) = attempted (stats s) + (case fl of Raise _ \<Rightarrow> 0 | _ \<Rightarrow> 1)"
      and fl: "\<forall>x. fl = Raise x \<longrightarrow> post_fault env a (request_of a token e) x" "fl = Break \<longrightarrow> ra_stop_on_error a"
      and n: "(\<forall>x. fl \<noteq> Raise x) \<longrightarrow> 1 \<le> n \<and> clock_known env s1"
      unfolding request_of_def by (auto simp: http_part_of_payload_updates)
    show ?thesis
      using run_inv_posted [OF inv v False p] att fl n False v by (cases fl) (simp_all add: row_fault_def)
  qed
qed

lemma replay_row_bounded:
  assumes ok: "validate_replay_args a ex = None" and inv: "loop_inv env a token taken s"
    and more: "\<forall>n. ra_max_events a = Some n \<longrightarrow> int (total_read (stats s)) < n"
    and row: "replay_row env a token row e s = (s1, fl)"
  shows "case fl of Raise x \<Rightarrow> bounded_inv a token 1 (taken @ [(row, e)]) s1 \<and> row_fault env a token e x
    | Continue \<Rightarrow> loop_inv env a token (taken @ [(row, e)]) s1
    | Break \<Rightarrow> loop_inv env a token (taken @ [(row, e)]) s1 \<and> ra_stop_on_error a"
proof -
  have "run_inv a token 0 taken s" "clock_known env s" using inv by (simp_all add: loop_inv_def bounded_inv_def)
  moreover from more this have "within_limit a (taken @ [(row, e)])"
    by (auto simp: within_limit_def run_inv_total_read)
  ultimately show ?thesis
    using replay_row_inv [OF ok _ _ row] by (cases fl) (simp_all add: loop_inv_def bounded_inv_def)
qed

text \<open>
  The invariant of a finished call of \<open>replay\<close> with good arguments on an existing file: the rows it
  took are an initial part of the rows of the file.
\<close>

lemma replay_run:
  assumes ok: "validate_replay_args a (env_report_exists env) = None" and present: "env_lines env = Some ls"
    and run: "replay env a = (s, r)"
  obtains token taken rest where "token = fst (resolve_auth_token a (env_getenv env))"
    "replay_items env = map Inr taken @ rest"
    "case r of
       Inr _ \<Rightarrow> bounded_inv a token 0 taken s \<and>
         (rest = [] \<or> ra_stop_on_error a \<or> ra_max_events a = Some (int (length taken)) \<and> \<not> isl (hd rest))
     | Inl x \<Rightarrow> bounded_inv a token 0 taken s \<and> rest \<noteq> [] \<and> hd rest = Inl x
         \<or> bounded_inv a token 1 taken s \<and> (\<exists>(row, e) \<in> set taken. row_fault env a token e x)"
proof -
  obtain token au where tok: "resolve_auth_token a (env_getenv env) = (token, au)" by fastforce
  obtain q where loop: "replay_loop env a token (replay_items env) init_replay_state = (s, q)"
    and r: "r = (case q of Some x \<Rightarrow> Inl x
       | None \<Rightarrow> Inr (build_replay_report a (stats s) (env_started env) (env_finished env) au))"
    using run ok present tok by (auto simp: replay_def split: prod.splits option.splits)
  have init: "loop_inv env a token [] init_replay_state"
    using ok run_inv_init
    by (auto simp: loop_inv_def clock_known_def init_replay_state_def bounded_inv_def within_limit_def validate_replay_args_def)
  have "\<exists>taken rest. replay_items env = map Inr taken @ rest \<and> (case q of
        None \<Rightarrow> loop_inv env a token taken s \<and> (rest = [] \<or> ra_stop_on_error a
          \<or> (\<exists>n. ra_max_events a = Some n \<and> n \<le> int (total_read (stats s)) \<and> \<not> isl (hd rest)))
      | Some x \<Rightarrow> loop_inv env a token taken s \<and> rest \<noteq> [] \<and> hd rest = Inl x
          \<or> bounded_inv a token 1 taken s \<and> (\<exists>(row, e) \<in> set taken. row_fault env a token e x))"
    by (rule replay_loop_rule [where P = "loop_inv env a token" and Q = "bounded_inv a token 1"
        and X = "row_fault env a token", OF loop init, unfolded append_Nil])
       (rule replay_row_bounded [OF ok])
  then obtain taken rest where tr: "replay_items env = map Inr taken @ rest" and
    q: "case q of None \<Rightarrow> bounded_inv a token 0 taken s \<and> (rest = [] \<or> ra_stop_on_error a
          \<or> (\<exists>n. ra_max_events a = Some n \<and> n \<le> int (total_read (stats s)) \<and> \<not> isl (hd rest)))
      | Some x \<Rightarrow> bounded_inv a token 0 taken s \<and> rest \<noteq> [] \<and> hd rest = Inl x
          \<or> bounded_inv a token 1 taken s \<and> (\<exists>(row, e) \<in> set taken. row_fault env a token e x)"
    unfolding loop_inv_def by (cases q) auto
  have limit: "ra_max_events a = Some n \<Longrightarrow> n \<le> int (total_read (stats s)) \<Longrightarrow> n = int (length taken)"
    if "bounded_inv a token 0 taken s" for n
    using that by (auto simp: bounded_inv_def within_limit_def run_inv_total_read)
  show ?thesis
    by (rule that [of token taken rest]) (use tok tr q r limit in \<open>auto split: option.splits\<close>)
qed

end
