(* ===== verification/ReplayProperties.thy ===== *)
theory ReplayProperties
  imports ReplayCorrect
begin

text \<open>
  The properties of the replay and of the mapping policy and the scan it relies on, with the concrete
  run that shows their hypotheses can hold. Their proofs read off the invariant \<open>replay_run\<close>.
\<close>

section \<open>Lemmas on the specification\<close>

lemma cget_cinc_str: "cget (cinc_str v c) k = cget c k + (if v = JStr k \<and> k \<noteq> [] then 1 else 0)"
  by (cases v) (auto simp: cinc_str_def counter_simps nonempty_str_def)

lemma cget_tally_of: "cget (tally_of f es) k = length (filter (\<lambda>e. f e = JStr k \<and> k \<noteq> []) es)"
  by (induction es rule: rev_induct) (auto simp: ctr.get_empty cget_cinc_str)

lemma cget_tally_split:
  "cget (tally_of f es) k = cget (tally_of f (filter p es)) k + cget (tally_of f (filter (\<lambda>e. \<not> p e) es)) k"
  unfolding cget_tally_of by (induction es) auto

lemma length_requests: "length ns = length es \<Longrightarrow> length (requests a token ns es) = sum_list ns"
  by (induction ns es rule: list_induct2) (simp_all add: requests_def)

lemma set_requests: "rq \<in> set (requests a token ns es) \<Longrightarrow> \<exists>e \<in> set es. rq = request_of a token e"
  by (auto simp: requests_def dest: set_zip_rightD)

lemma sum_list_bound:
  assumes "\<forall>n \<in> set ns. int n \<le> b"
  shows "int (sum_list ns) \<le> int (length ns) * b"
  using assms by (induction ns) (auto simp: algebra_simps)

lemma replay_outcome:
  fixes r :: "jobj res"
  assumes "replay env a = (s, r)"
  obtains x where "validate_replay_args a (env_report_exists env) = Some x" "r = Inl x" "s = init_replay_state"
  | "validate_replay_args a (env_report_exists env) = None" "env_lines env = None"
    "r = Inl (FileNotFoundError (ra_input a))" "s = init_replay_state"
  | ls where "validate_replay_args a (env_report_exists env) = None" "env_lines env = Some ls"
proof (cases "validate_replay_args a (env_report_exists env)")
  case (Some x)
  then show ?thesis using assms that(1) by (simp add: replay_def)
next
  case None
  then show ?thesis using assms that(2,3) by (cases "env_lines env") (simp_all add: replay_def)
qed

text \<open>Whatever way a run ends, its requests are those of valid rows of the input.\<close>

lemma sent_of_valid_rows:
  assumes run: "replay env a = (s, r)" and rq: "rq \<in> set (sent s)"
  obtains row e ls where "Inr (row, e) \<in> set (replay_items env)" "row_valid a e"
    "rq = request_of a (fst (resolve_auth_token a (env_getenv env))) e"
    "validate_replay_args a (env_report_exists env) = None" "env_lines env = Some ls"
  using run
proof (cases rule: replay_outcome)
  case (3 ls)
  obtain token taken rest lost where
    t: "token = fst (resolve_auth_token a (env_getenv env))" "replay_items env = map Inr taken @ rest"
    "run_inv a token lost taken s"
    by (rule replay_run [OF 3 run]) (auto simp: bounded_inv_def split: sum.splits)
  then have "sends_ok a token (map snd taken) lost s" by (simp add: run_inv_def)
  with rq obtain ns where "rq \<in> set (requests a token ns (filter (row_valid a) (map snd taken)))"
    by (auto simp: sends_ok_def Let_def split: if_splits)
  from set_requests [OF this] obtain e where e: "e \<in> set (map snd taken)" "row_valid a e" "rq = request_of a token e"
    by (simp only: set_filter) blast
  then obtain row where "(row, e) \<in> set taken" by auto
  then show ?thesis using that [of row e] t e 3 by auto
qed (use rq in \<open>simp_all add: init_replay_state_def\<close>)

section \<open>A concrete run\<close>

definition demo_event :: "string \<Rightarrow> string \<Rightarrow> jobj" where
  "demo_event eid t =
    [(''eventId'', JStr eid), (''userId'', JStr ''U-0123456789abcdef''), (''accountId'', JStr ''A-0123456789abcdef''),
     (''destinationAccountId'', JStr ''D-0123456789abcdef''), (''eventType'', JStr t), (''amount'', JStr ''5''),
     (''currency'', JStr ''KRW''), (''eventTime'', JStr ''2026-01-01T00:00:00Z''), (''traceId'', JStr ''t-1'')]"

text \<open>Three lines: a valid payment, a debit that the intake does not take, a valid transfer.\<close>

definition demo_env :: replay_env where
  "demo_env =
    \<lparr>env_lines = Some [''a'', ''b'', ''c''], env_report_exists = False, env_getenv = (\<lambda>_. None),
     env_loads = (\<lambda>l. Some (JObj (if l = ''a'' then demo_event ''e1'' ''PAYMENT''
        else if l = ''b'' then demo_event ''e2'' ''DEBIT'' else demo_event ''e3'' ''TRANSFER''))),
     env_http = (\<lambda>n. if n = 0 then HTTPError 503 else Responded 202),
     env_clock = (\<lambda>n. Fin (of_nat n)), env_started = 0, env_finished = 1000000\<rparr>"

definition demo_args :: replay_args where
  "demo_args = default_replay_args\<lparr>ra_retry_count := 1, ra_max_events := Some 3\<rparr>"

lemma demo_run: "case replay demo_env demo_args of (s, r) \<Rightarrow> \<not> isl r \<and> length (sent s) = 3"
  by code_simp

lemma demo_runs: "\<exists>s rep. replay demo_env demo_args = (s, Inr rep) \<and> length (sent s) = 3"
  using demo_run by (cases "replay demo_env demo_args"; cases "snd (replay demo_env demo_args)") auto

lemma demo_args_ok:
  "validate_replay_args demo_args (env_report_exists demo_env) = None" "\<not> ra_stop_on_error demo_args"
  "env_lines demo_env = Some [''a'', ''b'', ''c'']" "ra_idempotency_mode demo_args \<noteq> ''prefix''"
  by (code_simp, simp_all add: demo_args_def demo_env_def default_replay_args_def)

section \<open>What leaves the script\<close>

text \<open>C2: whatever the input, the network and the way the run ends, every request that was posted is
  that of a valid row of the input. Its payload has only fields of the intake contract, no label
  field, no raw PaySim identifier field, no trace id, and every value but the (possibly prefixed) event
  id is copied from the row and free of raw identifiers at any depth; without a prefix the whole
  payload passes the scan for labels and raw identifiers.\<close>

theorem replay_requests_safe:
  assumes "replay env a = (s, r)" and "rq \<in> set (sent s)"
  shows "\<exists>row e. Inr (row, e) \<in> set (replay_items env) \<and> validate_event e (ra_event_type_policy a) = None
    \<and> rq = request_of a (fst (resolve_auth_token a (env_getenv env))) e
    \<and> (\<forall>(k, v) \<in> set (rq_payload rq). k \<in> set REQUEST_FIELDS \<and> k \<notin> set RAW_FIELDS \<and> k \<notin> set LABEL_FIELDS
         \<and> k \<noteq> ''traceId'' \<and> (k \<noteq> ''eventId'' \<longrightarrow> (k, v) \<in> set e \<and> scan_forbidden v = None))
    \<and> (ra_idempotency_mode a \<noteq> ''prefix'' \<longrightarrow> scan_forbidden (JObj (rq_payload rq)) = None)"
proof -
  obtain row e where e: "Inr (row, e) \<in> set (replay_items env)" "row_valid a e"
    "rq = request_of a (fst (resolve_auth_token a (env_getenv env))) e"
    and ok: "validate_replay_args a (env_report_exists env) = None"
    by (rule sent_of_valid_rows [OF assms])
  have pay: "rq_payload rq = payload_for a e" using e(3) by (simp add: request_of_def request_for_def)
  have v: "validate_event e (ra_event_type_policy a) = None" using e(2) by (simp add: row_valid_def)
  note fields = payload_fields [OF payload_for_is_payload [OF ok e(2)]]
  have id: "clean replay_forbidden (jget e ''eventId'')" "is_str (jget e ''eventId'')"
    using validate_eventD(1,2) [OF v] jget_non_null [of e "''eventId''"]
    by (cases "jget e ''eventId''"; force simp: nonempty_str_def)+
  have "clean replay_forbidden (JObj (payload_for a e))" if m: "ra_idempotency_mode a \<noteq> ''prefix''"
  proof -
    have "JStr (replayed_id a e) = jget e ''eventId''"
      using m id(2) by (cases "jget e ''eventId''") (auto simp: replayed_id_def)
    then have "(k, v) \<in> set (payload_for a e) \<Longrightarrow> v = jget e ''eventId'' \<or> (k, v) \<in> set e" for k v
      using set_jset [of "request_part e" "''eventId''" "JStr (replayed_id a e)"]
      by (auto simp: payload_for_def dest: request_part_keys)
    then show ?thesis using fields id(1) validate_eventD(1) [OF v] by fastforce
  qed
  then show ?thesis using e(1,3) v fields unfolding pay rp.scan_passes by blast
qed

lemma replay_requests_safe_witness:
  "\<exists>(rq :: http_request) row e. Inr (row, e) \<in> set (replay_items demo_env) \<and> rq_payload rq = payload_for demo_args e
     \<and> scan_forbidden (JObj (rq_payload rq)) = None"
proof -
  obtain s rep where run: "replay demo_env demo_args = (s, Inr rep)" "length (sent s) = 3" using demo_runs by blast
  then have "hd (sent s) \<in> set (sent s)" by (cases "sent s") auto
  from replay_requests_safe [OF run(1) this] demo_args_ok(4) obtain row e where
    "Inr (row, e) \<in> set (replay_items demo_env)" "scan_forbidden (JObj (rq_payload (hd (sent s)))) = None"
    "hd (sent s) = request_of demo_args (fst (resolve_auth_token demo_args (env_getenv demo_env))) e"
    by blast
  then show ?thesis
    by (intro exI [of _ "hd (sent s)"] exI [of _ row] exI [of _ e]) (simp add: request_of_def request_for_def)
qed

section \<open>What a finished run did\<close>

lemma summary_counts:
  assumes "summary a es s"
  shows "total_read s = length es" "payload_accepted s = length (filter (row_valid a) es)"
    "payload_rejected s = length (filter (\<lambda>e. \<not> row_valid a e) es)"
  using assms by (simp_all add: summary_def Let_def)

text \<open>A run that returned a report, through the invariant.\<close>

lemma finished_run:
  fixes rep :: jobj
  assumes "replay env a = (s, Inr rep)"
  obtains token taken rest where "token = fst (resolve_auth_token a (env_getenv env))"
    "replay_items env = map Inr taken @ rest" "bounded_inv a token 0 taken s"
    "rest = [] \<or> ra_stop_on_error a \<or> ra_max_events a = Some (int (length taken)) \<and> \<not> isl (hd rest)"
  using assms
proof (cases rule: replay_outcome)
  case (3 ls)
  show ?thesis by (rule replay_run [OF 3 assms]) (use that in auto)
qed simp_all

text \<open>C1: a finished run took an initial part of the rows of the file, and did exactly what the
  specification says of them: every payload statistic of the report is the tally over those rows, and,
  unless it is a dry run, the requests are those of the valid rows in the order of the file, each
  posted between once and retry count + 1 times in a row. Without stop-on-error it took all the rows,
  or exactly as many as the limit on events says.\<close>

theorem replay_does_what_it_should:
  assumes "replay env a = (s, Inr rep)"
  shows "\<exists>taken rest ns. replay_items env = map Inr taken @ rest \<and> summary a (map snd taken) (stats s)
    \<and> (if ra_dry_run a then sent s = []
       else length ns = payload_accepted (stats s) \<and> (\<forall>n \<in> set ns. 1 \<le> n \<and> int n \<le> ra_retry_count a + 1)
         \<and> sent s = requests a (fst (resolve_auth_token a (env_getenv env))) ns (filter (row_valid a) (map snd taken)))
    \<and> (\<not> ra_stop_on_error a \<longrightarrow> rest = [] \<or> ra_max_events a = Some (int (length taken)))"
  by (rule finished_run [OF assms])
     (auto simp: bounded_inv_def run_inv_def sends_ok_def summary_def Let_def split: if_splits)

lemma replay_does_what_it_should_witness:
  "\<exists>s rep taken rest. replay demo_env demo_args = (s, Inr rep) \<and> replay_items demo_env = map Inr taken @ rest
     \<and> summary demo_args (map snd taken) (stats s)"
  using demo_runs replay_does_what_it_should by blast

text \<open>C15: the counters of a finished run agree with each other and with what was posted: every row read
  is accepted or rejected; the HTTP outcomes of a real run add up to the accepted rows and those of a
  dry run to none; the retries by cause add up to the retries; and the number of requests is the number
  of outcomes plus the number of retries.\<close>

theorem replay_report_accounts:
  assumes "replay env a = (s, Inr rep)"
  shows "total_read (stats s) = payload_accepted (stats s) + payload_rejected (stats s)
    \<and> attempted (stats s) = (if ra_dry_run a then 0 else payload_accepted (stats s))
    \<and> retry_attempts (stats s) = retry_timeout_attempts (stats s) + retry_server_error_attempts (stats s)
        + retry_connection_error_attempts (stats s)
    \<and> length (sent s) = attempted (stats s) + retry_attempts (stats s)"
proof -
  obtain token taken rest where t: "bounded_inv a token 0 taken s" by (rule finished_run [OF assms])
  then have sum: "summary a (map snd taken) (stats s)" by (simp add: bounded_inv_def run_inv_def)
  then have "total_read (stats s) = payload_accepted (stats s) + payload_rejected (stats s)"
    by (simp only: summary_counts sum_length_filter_compl)
  moreover have "attempted (stats s) = (if ra_dry_run a then 0 else payload_accepted (stats s))"
    "retry_attempts (stats s) = retry_timeout_attempts (stats s) + retry_server_error_attempts (stats s)
       + retry_connection_error_attempts (stats s)"
    "length (sent s) = attempted (stats s) + retry_attempts (stats s)"
    using t summary_counts [OF sum]
    by (auto simp: bounded_inv_def run_inv_def sends_ok_def retries_by_kind_def Let_def simp del: length_filter_map
        split: if_splits)
  ultimately show ?thesis by blast
qed

lemma replay_report_accounts_witness:
  "\<exists>s rep. replay demo_env demo_args = (s, Inr rep) \<and> total_read (stats s) = payload_accepted (stats s) + payload_rejected (stats s) \<and> length (sent s) = 3
     \<and> length (sent s) = attempted (stats s) + retry_attempts (stats s)"
proof -
  obtain s rep where run: "replay demo_env demo_args = (s, Inr rep)" "length (sent s) = 3" using demo_runs by blast
  from replay_report_accounts [OF run(1)] run show ?thesis by blast
qed

text \<open>The distributions of a finished run partition: what was counted of a type on input was counted
  either of an accepted or of a rejected row, for each of the three type fields.\<close>

theorem replay_distributions_partition:
  assumes "replay env a = (s, Inr rep)"
  shows "cget (input_native_types (stats s)) t = cget (accepted_native_types (stats s)) t + cget (rejected_native_types (stats s)) t
    \<and> cget (input_normalized_types (stats s)) t
       = cget (accepted_normalized_types (stats s)) t + cget (rejected_normalized_types (stats s)) t
    \<and> cget (input_support_levels (stats s)) t
       = cget (accepted_support_levels (stats s)) t + cget (rejected_support_levels (stats s)) t"
proof -
  obtain token taken rest where t: "bounded_inv a token 0 taken s" by (rule finished_run [OF assms])
  then have "summary a (map snd taken) (stats s)" by (simp add: bounded_inv_def run_inv_def)
  then show ?thesis
    using cget_tally_split [of native_type_of "map snd taken" t "row_valid a"]
      cget_tally_split [of normalized_type_of "map snd taken" t "row_valid a"]
      cget_tally_split [of support_level_of "map snd taken" t "row_valid a"]
    by (simp add: summary_def Let_def)
qed

lemma replay_distributions_partition_witness:
  "\<exists>s rep. replay demo_env demo_args = (s, Inr rep) \<and> length (sent s) = 3 \<and> cget (input_native_types (stats s)) ''PAYMENT''
     = cget (accepted_native_types (stats s)) ''PAYMENT'' + cget (rejected_native_types (stats s)) ''PAYMENT''"
proof -
  obtain s rep where run: "replay demo_env demo_args = (s, Inr rep)" "length (sent s) = 3" using demo_runs by blast
  from replay_distributions_partition [OF run(1)] run show ?thesis by blast
qed

text \<open>C33: what a run keeps and does is bounded, however it ends: at most 50 failures and 10 sample event
  ids, no more rows than the limit on events, and no more posts than (retry count + 1) per accepted
  row.\<close>

theorem replay_bounds:
  assumes "replay env a = (s, r)"
  shows "length (failures (stats s)) \<le> 50 \<and> length (replay_sample_ids (stats s)) \<le> 10
    \<and> (\<forall>n. validate_replay_args a (env_report_exists env) = None \<longrightarrow> ra_max_events a = Some n \<longrightarrow> int (total_read (stats s)) \<le> n)
    \<and> int (length (sent s)) \<le> int (payload_accepted (stats s)) * (ra_retry_count a + 1)"
  using assms
proof (cases rule: replay_outcome)
  case (3 ls)
  obtain token taken lost where inv: "bounded_inv a token lost taken s"
    by (rule replay_run [OF 3 assms]) (auto split: sum.splits)
  have "int (length (sent s)) \<le> int (payload_accepted (stats s)) * (ra_retry_count a + 1)"
  proof (cases "ra_dry_run a")
    case True
    then show ?thesis using inv valid_args_rate(1) [OF 3(1)]
      by (simp add: bounded_inv_def run_inv_def sends_ok_def Let_def)
  next
    case False
    then obtain ns where "length ns = payload_accepted (stats s)"
      "\<forall>n \<in> set ns. int n \<le> ra_retry_count a + 1" "length (sent s) = sum_list ns"
      using inv by (auto simp: bounded_inv_def run_inv_def sends_ok_def summary_def Let_def length_requests)
    then show ?thesis using sum_list_bound [of ns] by simp
  qed
  then show ?thesis using inv
    by (auto simp: bounded_inv_def run_inv_def summary_def within_limit_def MAX_FAILURES_def MAX_SAMPLE_EVENT_IDS_def Let_def)
qed (auto simp: init_replay_state_def empty_stats_def validate_replay_args_def)

lemma replay_bounds_witness:
  "\<exists>s r. replay demo_env demo_args = (s, r) \<and> length (failures (stats s)) \<le> 50 \<and> int (total_read (stats s)) \<le> 3"
proof -
  obtain s rep where run: "replay demo_env demo_args = (s, Inr rep)" using demo_runs by blast
  have "ra_max_events demo_args = Some 3" by (simp add: demo_args_def)
  with replay_bounds [OF run] demo_args_ok(1) run show ?thesis by blast
qed

section \<open>Errors\<close>

text \<open>C34: these are all the ways a run can fail: bad arguments, with the message of the check; a missing
  input file; a malformed line, whose exception is one of the two of the reader; and, in a run that is not dry, an
  exception of the network stack that the script does not catch, a pause too long for \<open>time.sleep\<close>, or a header
  with a line break. The last comes from the token or from the trace id of an event: the validation takes any
  text there, so an event that it accepts can end the run.\<close>

theorem replay_failures:
  assumes "replay env a = (s, Inl x)"
  shows "validate_replay_args a (env_report_exists env) = Some x
    \<or> x = FileNotFoundError (ra_input a) \<and> env_lines env = None
    \<or> Inl x \<in> set (replay_items env) \<and> (x = PayloadValidationError ''INVALID_JSON'' None \<or> x = PayloadValidationError ''JSON_ROW_NOT_OBJECT'' None)
    \<or> \<not> ra_dry_run a \<and>
      (x = ConnectionFault \<and> (\<exists>n. env_http env n = OtherRaised)
       \<or> x = OverflowError \<and> pause_overflows env a
       \<or> x = ValueError ''Invalid header value'' \<and>
         (\<exists>row e. Inr (row, e) \<in> set (replay_items env) \<and> validate_event e (ra_event_type_policy a) = None
            \<and> header_refused (request_of a (fst (resolve_auth_token a (env_getenv env))) e)))"
  using assms
proof (cases rule: replay_outcome)
  case (3 ls)
  have bad: "Inl x \<in> set (jsonl_items f g loads n ls) \<Longrightarrow> \<exists>m. x = f m \<or> x = g m" for f g loads n ls
    by (induction f g loads n ls rule: jsonl_items.induct) (auto split: if_splits option.splits json.splits)
  obtain token taken rest where t: "token = fst (resolve_auth_token a (env_getenv env))" "replay_items env = map Inr taken @ rest"
    "rest \<noteq> [] \<and> hd rest = Inl x \<or> (\<exists>(row, e) \<in> set taken. row_fault env a token e x)"
    by (rule replay_run [OF 3 assms]) (simp; blast)
  then consider "Inl x \<in> set (replay_items env)" | row e where "(row, e) \<in> set taken" "row_fault env a token e x"
    by (cases rest) auto
  then show ?thesis
  proof cases
    case 1
    then show ?thesis using bad unfolding replay_items_def by blast
  next
    case 2
    then have "Inr (row, e) \<in> set (replay_items env)" unfolding t(2) by (force simp: image_iff)
    with 2(2) show ?thesis unfolding row_fault_def post_fault_def row_valid_def t(1) by blast
  qed
qed auto

definition line_break_event :: jobj where
  "line_break_event = jset (demo_event ''e1'' ''PAYMENT'') ''traceId'' (JStr [CHR ''a'', CHR 0x0A, CHR ''b''])"

lemma replay_failures_witness:
  "\<exists>s. replay (demo_env\<lparr>env_loads := (\<lambda>_. Some (JObj line_break_event))\<rparr>) demo_args = (s, Inl (ValueError ''Invalid header value''))
     \<and> (\<exists>row e. Inr (row, e) \<in> set (replay_items (demo_env\<lparr>env_loads := (\<lambda>_. Some (JObj line_break_event))\<rparr>))
          \<and> validate_event e ''current-api'' = None \<and> header_refused (request_of demo_args None e))"
proof -
  let ?env = "demo_env\<lparr>env_loads := (\<lambda>_. Some (JObj line_break_event))\<rparr>"
  have "snd (replay ?env demo_args) = Inl (ValueError ''Invalid header value'')" by code_simp
  then obtain s where s: "replay ?env demo_args = (s, Inl (ValueError ''Invalid header value''))"
    by (cases "replay ?env demo_args") simp
  have "validate_replay_args demo_args (env_report_exists ?env) = None" "fst (resolve_auth_token demo_args (env_getenv ?env)) = None"
    "ra_event_type_policy demo_args = ''current-api''" by code_simp+
  with replay_failures [OF s] s show ?thesis by auto
qed

text \<open>One malformed line ends the run without a report, whatever the treatment of errors: when the
  limit on events does not stop the run before the rows in front of the bad line are all taken, a dry
  run without stop-on-error ends in the exception of that line. The line is read before the limit is
  tested, so this holds even for the line right after the last event the limit allows.\<close>

theorem malformed_line_aborts:
  assumes "validate_replay_args a (env_report_exists env) = None" and "env_lines env = Some ls"
    and "replay_items env = map Inr rows @ [Inl x]"
    and "ra_dry_run a" and "\<not> ra_stop_on_error a" and "\<forall>n. ra_max_events a = Some n \<longrightarrow> int (length rows) \<le> n"
  shows "snd (replay env a) = Inl x"
proof -
  obtain s r where run: "replay env a = (s, r)" by fastforce
  show ?thesis
  proof (rule replay_run [OF assms(1,2) run])
    fix token taken rest
    assume eq: "replay_items env = map Inr taken @ rest" and
      "case r of
         Inr _ \<Rightarrow> bounded_inv a token 0 taken s \<and>
           (rest = [] \<or> ra_stop_on_error a \<or> ra_max_events a = Some (int (length taken)) \<and> \<not> isl (hd rest))
       | Inl x \<Rightarrow> bounded_inv a token 0 taken s \<and> rest \<noteq> [] \<and> hd rest = Inl x
           \<or> bounded_inv a token 1 taken s \<and> (\<exists>(row, e) \<in> set taken. row_fault env a token e x)"
    then have how: "case r of
         Inr _ \<Rightarrow> rest = [] \<or> ra_max_events a = Some (int (length taken)) \<and> \<not> isl (hd rest)
       | Inl x \<Rightarrow> rest \<noteq> [] \<and> hd rest = Inl x" using assms(4,5) by (auto simp: row_fault_def split: sum.splits)
    have all: "map Inr rows @ [Inl x] = map Inr taken @ rest" using eq assms(3) by simp
    have "rest \<noteq> []" using arg_cong [OF all, of set] by auto
    then obtain zs y where "rest = zs @ [y]" by (cases rest rule: rev_cases) auto
    with all have "map Inr rows = map Inr taken @ zs" "rest = zs @ [Inl x]" by simp_all
    then obtain zs where "rows = taken @ zs \<and> rest = map Inr zs @ [Inl x]"
      by (auto simp: map_eq_append_conv)
    with how run assms(6) show ?thesis
      by (cases zs) (auto split: sum.splits)
  qed
qed

lemma malformed_line_aborts_witness:
  "snd (replay (demo_env\<lparr>env_loads := (\<lambda>l. if l = ''c'' then None else env_loads demo_env l)\<rparr>)
     (demo_args\<lparr>ra_dry_run := True, ra_max_events := Some 2\<rparr>)) = Inl (PayloadValidationError ''INVALID_JSON'' None)"
proof (rule malformed_line_aborts)
  show "replay_items (demo_env\<lparr>env_loads := (\<lambda>l. if l = ''c'' then None else env_loads demo_env l)\<rparr>)
      = map Inr [(1, demo_event ''e1'' ''PAYMENT''), (2, demo_event ''e2'' ''DEBIT'')]
        @ [Inl (PayloadValidationError ''INVALID_JSON'' None)]"
    by code_simp
qed (simp_all add: demo_env_def demo_args_def default_replay_args_def validate_replay_args_def fle_def truthy_opt_def)

text \<open>C17: a send with retries does what its specification says. A request with a header that holds a line
  break is refused before anything is sent or counted. Otherwise the send consumes outcomes of the network up to
  the first that is not retried or up to the last attempt, posts the same request each time, returns
  the reason of the last outcome, counts that outcome once, counts one retry of one kind for each
  attempt before it, and leaves every other statistic, the clock and the pauses alone.\<close>

theorem send_with_retry_meets_spec:
  assumes "0 \<le> retry_count"
  shows "if header_refused (request_for ep p tr tok)
    then send_with_retry env ep p tr tok retry_count rc s = (s, Inl (ValueError ''Invalid header value''))
    else \<exists>s' n r. send_with_retry env ep p tr tok retry_count rc s = (s', bind_res r (\<lambda>x. Inr (Some x)))
      \<and> send_spec env rc (retry_count + 1) s s' n r \<and> sent s' = sent s @ replicate n (request_for ep p tr tok)"
  using send_from_spec [OF assms, of ep p tr tok env rc s] send_from_refused [OF assms] by (simp add: send_with_retry_def)

lemma send_with_retry_meets_spec_witness:
  "\<exists>s' n r. send_with_retry demo_env ''http://x'' [] ''t'' None 1 False init_replay_state = (s', bind_res r (\<lambda>x. Inr (Some x)))
    \<and> send_spec demo_env False 2 init_replay_state s' n r"
proof -
  have "\<not> header_refused (request_for ''http://x'' [] ''t'' None)" by code_simp
  then show ?thesis
    using send_with_retry_meets_spec [of 1 "''http://x''" "[]" "''t''" None demo_env False init_replay_state] by auto
qed

section \<open>The contract of an accepted event\<close>

text \<open>C29: an accepted event that carries any mapping metadata carries all of it, and it is the mapping
  policy's: its native type is a mapped one, and its event type, normalised type and support level
  are those the policy gives it. So a debit is never replayed under another name.\<close>

theorem accepted_event_follows_mapping:
  assumes "validate_event e pol = None" and "has_mapping_metadata e"
  shows "\<exists>t nt. jget e ''nativeEventType'' = JStr t \<and> normalized_type (mapping_for t) = Some nt
    \<and> t \<noteq> ''DEBIT'' \<and> nt \<in> set CURRENT_API_EVENT_TYPES
    \<and> jget e ''eventType'' = JStr nt \<and> jget e ''normalizedEventType'' = JStr nt
    \<and> jget e ''typeSupportLevel'' = JStr (support_level (mapping_for t))
    \<and> jget e ''typeMappingPolicyVersion'' = JStr MAPPING_POLICY_VERSION"
proof -
  have m: "validate_native_mapping e = None" using assms(1) by (simp add: validate_event_None_iff)
  then obtain t where t: "jget e ''nativeEventType'' = JStr t"
    using assms(2) by (auto simp: validate_native_mapping_def Let_def nonempty_str_iff)
  then obtain nt where nt: "normalized_type (mapping_for t) = Some nt"
    using assms(2) m by (auto simp: validate_native_mapping_def Let_def)
  then have "t \<noteq> ''DEBIT'' \<and> nt \<in> set CURRENT_API_EVENT_TYPES"
    by (auto simp: normalized_type_mapping_for CURRENT_API_EVENT_TYPES_def split: if_splits)
  with t nt m assms(2) show ?thesis
    by (auto simp: validate_native_mapping_def Let_def json_of_option_def)
qed

definition demo_mapped_event :: jobj where
  "demo_mapped_event = demo_event ''e1'' ''WITHDRAWAL'' @
    [(''nativeEventType'', JStr ''CASH_OUT''), (''normalizedEventType'', JStr ''WITHDRAWAL''),
     (''typeSupportLevel'', JStr ''replay-supported''), (''typeMappingPolicyVersion'', JStr MAPPING_POLICY_VERSION)]"

lemma accepted_event_follows_mapping_witness:
  "\<exists>t nt. jget demo_mapped_event ''nativeEventType'' = JStr t \<and> normalized_type (mapping_for t) = Some nt"
proof -
  have "validate_event demo_mapped_event ''current-api'' = None" "has_mapping_metadata demo_mapped_event"
    by code_simp+
  from accepted_event_follows_mapping [OF this] show ?thesis by blast
qed

text \<open>The mapping policy is coherent: for every type text, unsupported is the same as unmapped, the
  same as excluded from the evaluation denominator, and the same as carrying an exclusion reason, which
  then names the type; a mapped type goes to a type of the intake contract.\<close>

theorem mapping_policy_coherent:
  "(support_level (mapping_for t) = ''unsupported'' \<longleftrightarrow> normalized_type (mapping_for t) = None)
   \<and> (evaluation_denominator (mapping_for t) = ''excluded'' \<longleftrightarrow> normalized_type (mapping_for t) = None)
   \<and> excluded_reason (mapping_for t)
      = (if normalized_type (mapping_for t) = None then Some (''UNSUPPORTED_NATIVE_TYPE:'' @ t) else None)
   \<and> set_option (normalized_type (mapping_for t)) \<subseteq> set CURRENT_API_EVENT_TYPES"
  by (auto simp: mapping_for_def TYPE_MAPPINGS_def CURRENT_API_EVENT_TYPES_def)

text \<open>C32: the matcher for raw PaySim identifiers finds one exactly when the text contains one: a C or an M
  not preceded by a word character, then three or more digits not followed by a word character.\<close>

theorem raw_identifier_search_correct: "raw_identifier_search s \<longleftrightarrow> contains_raw_identifier s"
  by (rule raw_identifier_search_iff)

end
