(* ===== verification/ReplayLiveness.thy ===== *)
theory ReplayLiveness
  imports ReplayProperties
begin

text \<open>
  That a replay gets through: when the network answers every request in one of the ways the script handles, no header
  holds a line break and no pause is too long, no row raises, and the run reaches the end of the file.
\<close>

section \<open>Pauses\<close>

text \<open>At least one event in a million seconds is sent, and the clock is monotonic, as \<open>time.monotonic\<close> is.\<close>

definition paced :: "replay_env \<Rightarrow> replay_args \<Rightarrow> bool" where
  "paced env a \<longleftrightarrow> fle (Fin (1 / 1000000)) (ra_rate_per_second a)
     \<and> (\<forall>i j. i \<le> j \<longrightarrow> (\<exists>x y. env_clock env i = Fin x \<and> env_clock env j = Fin y \<and> x \<le> y))"

lemma interval_of_paced:
  assumes "fle (Fin (1 / 1000000)) rate"
  obtains v where "fdiv (Fin 1) rate = Inr (Fin v)" "0 \<le> v" "v \<le> 1000000"
proof (cases rate)
  case (Fin r)
  then have r: "1 / 1000000 \<le> r" using assms by (auto simp: fle_def)
  then have "0 \<le> 1 / r" "1 / r \<le> of_int 1000000" by (simp_all add: field_simps)
  then obtain v where "to_double (1 / r) = Fin v" "0 \<le> v" "v \<le> of_int 1000000"
    by (rule to_double_le) simp_all
  then show ?thesis using r Fin by (intro that [of v]) auto
next
  case PInf
  then show ?thesis by (intro that [of 0]) simp_all
qed (use assms in \<open>simp_all add: fle_def\<close>)

lemma paced_sleeps:
  assumes "paced env a"
  shows "\<not> pause_overflows env a"
proof
  assume "pause_overflows env a"
  then obtain i j interval where p: "i < j" "fdiv (Fin 1) (ra_rate_per_second a) = Inr interval"
    "flt (fsub (env_clock env j) (env_clock env i)) interval"
    "sleep_overflows (fsub interval (fsub (env_clock env j) (env_clock env i)))"
    unfolding pause_overflows_def by blast
  obtain v where v: "interval = Fin v" "0 \<le> v" "v \<le> 1000000"
    using interval_of_paced [of "ra_rate_per_second a"] assms p(2) by (auto simp: paced_def)
  obtain x y where xy: "env_clock env i = Fin x" "env_clock env j = Fin y" "x \<le> y"
    using assms p(1) unfolding paced_def by (meson less_imp_le)
  have "\<exists>e. fsub (env_clock env j) (env_clock env i) = Fin e \<and> 0 \<le> e \<and> e < v"
    using p(3) xy rnd_pos_nonneg [of "y - x"] unfolding v(1) fsub_def
    by (cases "x = y") (auto simp: to_double_def Let_def split: if_splits)
  then obtain e where e: "fsub (env_clock env j) (env_clock env i) = Fin e" "0 \<le> e" "e < v" by blast
  have "0 \<le> v - e" "v - e \<le> of_int 1000000" using e v by simp_all
  then obtain w where w: "to_double (v - e) = Fin w" "0 \<le> w" "w \<le> of_int 1000000"
    by (rule to_double_le) simp_all
  then have "0 \<le> w * 1000000000" "w * 1000000000 \<le> of_int 1000000000000000" by simp_all
  then obtain d where "to_double (w * 1000000000) = Fin d" "d \<le> of_int 1000000000000000"
    by (rule to_double_le) simp_all
  moreover have "fsub interval (fsub (env_clock env j) (env_clock env i)) = Fin w"
    using w(1) unfolding v(1) e(1) by (simp add: fsub_def)
  ultimately show False using p(4) by (auto simp: sleep_overflows_def fle_def)
qed

section \<open>Every valid row is posted\<close>

text \<open>What is asked of the outside for a run to get through.\<close>

definition undisturbed :: "replay_env \<Rightarrow> replay_args \<Rightarrow> string option \<Rightarrow> jobj list \<Rightarrow> bool" where
  "undisturbed env a token es \<longleftrightarrow> (\<forall>n. env_http env n \<noteq> OtherRaised) \<and> paced env a
     \<and> (\<forall>e \<in> set es. row_valid a e \<longrightarrow> \<not> header_refused (request_of a token e))"

lemma undisturbed_no_fault: "undisturbed env a token es \<Longrightarrow> e \<in> set es \<Longrightarrow> \<not> row_fault env a token e x"
  using paced_sleeps by (auto simp: undisturbed_def row_fault_def post_fault_def)

lemma valid_rows_posted:
  fixes env :: replay_env and a :: replay_args
  defines "token \<equiv> fst (resolve_auth_token a (env_getenv env))"
  assumes "validate_replay_args a (env_report_exists env) = None" "env_lines env = Some ls" "replay_items env = map Inr rows"
    and "\<not> ra_dry_run a" "\<not> ra_stop_on_error a" "ra_max_events a = None" "undisturbed env a token (map snd rows)"
  shows "\<exists>s rep. replay env a = (s, Inr rep)
    \<and> (\<forall>(row, e) \<in> set rows. validate_event e (ra_event_type_policy a) = None \<longrightarrow> request_of a token e \<in> set (sent s))
    \<and> attempted (stats s) = length (filter (\<lambda>(row, e). validate_event e (ra_event_type_policy a) = None) rows)"
proof -
  obtain s r where run: "replay env a = (s, r)" by fastforce
  obtain t taken rest where t: "t = fst (resolve_auth_token a (env_getenv env))" "replay_items env = map Inr taken @ rest"
    "case r of
       Inr _ \<Rightarrow> bounded_inv a t 0 taken s \<and>
         (rest = [] \<or> ra_stop_on_error a \<or> ra_max_events a = Some (int (length taken)) \<and> \<not> isl (hd rest))
     | Inl x \<Rightarrow> bounded_inv a t 0 taken s \<and> rest \<noteq> [] \<and> hd rest = Inl x
         \<or> bounded_inv a t 1 taken s \<and> (\<exists>(row, e) \<in> set taken. row_fault env a t e x)"
    by (rule replay_run [OF assms(2,3) run])
  have items: "map Inr rows = map Inr taken @ rest" and
    r: "case r of
       Inr _ \<Rightarrow> bounded_inv a token 0 taken s \<and> rest = []
     | Inl x \<Rightarrow> rest \<noteq> [] \<and> hd rest = Inl x \<or> (\<exists>(row, e) \<in> set taken. row_fault env a token e x)"
    using t assms(4,6,7) unfolding token_def by (auto split: sum.splits)
  have sub: "set taken \<subseteq> set rows" using arg_cong [OF items, of set] by auto
  have "\<not> row_fault env a token e x" if "(row, e) \<in> set taken" for row e x
    using undisturbed_no_fault [OF assms(8)] sub that by force
  moreover have "hd rest \<noteq> Inl x" if "rest \<noteq> []" for x
    using items that by (cases rest) (auto simp: map_eq_append_conv)
  ultimately obtain rep where rep: "r = Inr rep" using r by (cases r) fastforce+
  with r items have "bounded_inv a token 0 rows s" by (simp add: inj_map_eq_map)
  then have inv: "run_inv a token 0 rows s" by (simp add: bounded_inv_def)
  obtain ns where ns: "length ns = length (filter (row_valid a) (map snd rows))"
    "\<forall>n \<in> set ns. 1 \<le> n" "sent s = requests a token ns (filter (row_valid a) (map snd rows))"
    and att: "attempted (stats s) = length (filter (row_valid a) (map snd rows))"
    using inv assms(5) by (auto simp: run_inv_def sends_ok_def Let_def)
  have "request_of a token e \<in> set (sent s)" if e: "(row, e) \<in> set rows" "validate_event e (ra_event_type_policy a) = None" for row e
  proof -
    have "e \<in> set (filter (row_valid a) (map snd rows))" using e by (force simp: row_valid_def)
    then obtain i where i: "i < length ns" "filter (row_valid a) (map snd rows) ! i = e"
      unfolding in_set_conv_nth ns(1) by blast
    then have "(ns ! i, e) \<in> set (zip ns (filter (row_valid a) (map snd rows)))" using ns(1) by (auto simp: in_set_zip)
    moreover have "1 \<le> ns ! i" using ns(2) i(1) by simp
    then have "request_of a token e \<in> set ((\<lambda>(n, e). replicate n (request_of a token e)) (ns ! i, e))" by simp
    ultimately show ?thesis unfolding ns(3) requests_def set_concat set_map by (rule UN_I [OF imageI])
  qed
  moreover have "attempted (stats s) = length (filter (\<lambda>(row, e). validate_event e (ra_event_type_policy a) = None) rows)"
    unfolding att by (simp add: filter_map o_def row_valid_def split_def)
  ultimately show ?thesis using run rep by blast
qed

text \<open>C12: every valid row is posted. When no line is malformed, the run is neither dry nor limited nor told to stop at an
  error, the network answers each request with a status, a timeout or a connection error, at least one event in a
  million seconds is sent, by a clock that is monotonic, and no header of a valid row holds a line break, the run ends
  with a report, whatever the answers are; every row the validation accepts has been posted, and each of them has its
  outcome counted.\<close>

theorem every_valid_row_is_posted:
  assumes "validate_replay_args a (env_report_exists env) = None" "env_lines env = Some ls" "replay_items env = map Inr rows"
    and "\<not> ra_dry_run a" "\<not> ra_stop_on_error a" "ra_max_events a = None"
    and "undisturbed env a (fst (resolve_auth_token a (env_getenv env))) (map snd rows)"
  shows "\<exists>s rep. replay env a = (s, Inr rep)
    \<and> (\<forall>(row, e) \<in> set rows. validate_event e (ra_event_type_policy a) = None \<longrightarrow>
         request_of a (fst (resolve_auth_token a (env_getenv env))) e \<in> set (sent s))
    \<and> attempted (stats s) = length (filter (\<lambda>(row, e). validate_event e (ra_event_type_policy a) = None) rows)"
  by (rule valid_rows_posted [OF assms])

lemma demo_paced: "paced demo_env (demo_args\<lparr>ra_max_events := None\<rparr>)"
  by (simp add: paced_def demo_env_def demo_args_def default_replay_args_def fle_def)

lemma every_valid_row_is_posted_witness:
  "\<exists>s rep. replay demo_env (demo_args\<lparr>ra_max_events := None\<rparr>) = (s, Inr rep) \<and> attempted (stats s) = 2"
proof -
  let ?a = "demo_args\<lparr>ra_max_events := None\<rparr>"
  let ?rows = "[(1 :: nat, demo_event ''e1'' ''PAYMENT''), (2, demo_event ''e2'' ''DEBIT''), (3, demo_event ''e3'' ''TRANSFER'')]"
  have rows: "replay_items demo_env = map Inr ?rows" by code_simp
  have args: "validate_replay_args ?a (env_report_exists demo_env) = None" "env_lines demo_env = Some [''a'', ''b'', ''c'']"
    "\<not> ra_dry_run ?a" "\<not> ra_stop_on_error ?a" "ra_max_events ?a = None" "\<forall>n. env_http demo_env n \<noteq> OtherRaised"
    by (code_simp, simp_all add: demo_args_def demo_env_def default_replay_args_def)
  have "list_all (\<lambda>e. \<not> header_refused (request_of ?a (fst (resolve_auth_token ?a (env_getenv demo_env))) e)) (map snd ?rows)"
    by code_simp
  then have "undisturbed demo_env ?a (fst (resolve_auth_token ?a (env_getenv demo_env))) (map snd ?rows)"
    using args(6) demo_paced unfolding undisturbed_def list_all_iff by blast
  moreover have "length (filter (\<lambda>(row, e). validate_event e (ra_event_type_policy ?a) = None) ?rows) = 2" by code_simp
  ultimately show ?thesis using every_valid_row_is_posted [OF args(1,2) rows args(3-5)] by auto
qed

end
