(* ===== verification/EvaluationPolicy.thy ===== *)
theory EvaluationPolicy
  imports PyValue
begin

text \<open>
  \<open>scripts/data/paysim_evaluation_policy.py\<close>: the versions of the evaluation contract and the two
  threshold policies. The operator workload budget, a dict with two float entries in the source, is
  a pair of record fields; its floats are the binary64 values of the literals.
\<close>

definition EVALUATION_CONTRACT_VERSION :: string where
  "EVALUATION_CONTRACT_VERSION = ''v2-phase9-evaluation-contract-v1''"

definition EVALUATION_POLICY_VERSION :: string where
  "EVALUATION_POLICY_VERSION = ''evaluation-policy-v1''"

definition RULE_VERSION :: string where
  "RULE_VERSION = ''rule-v2-baseline-v1''"

definition RULE_VERSIONS :: "string list" where
  "RULE_VERSIONS = [RULE_VERSION]"

definition DEFAULT_THRESHOLD_VERSION :: string where
  "DEFAULT_THRESHOLD_VERSION = ''threshold-v1''"

record threshold_policy =
  threshold_version :: string
  medium_risk_threshold :: int
  high_risk_threshold :: int
  positive_risk_level_fallback :: string
  review_risk_levels_fallback :: "string list"
  block_risk_levels_fallback :: "string list"
  fraud_prediction_policy :: string
  review_candidate_policy :: string
  blocked_candidate_policy :: string
  max_review_rate :: pyfloat
  max_blocked_rate :: pyfloat

definition workload_budget_json :: "threshold_policy \<Rightarrow> json" where
  "workload_budget_json p = JObj
    [(''maxReviewCandidateRateCandidate'', JFloat (max_review_rate p)),
     (''maxBlockedCandidateRateCandidate'', JFloat (max_blocked_rate p))]"

definition threshold_as_dict :: "threshold_policy \<Rightarrow> json" where
  "threshold_as_dict p = JObj
    [(''thresholdVersion'', JStr (threshold_version p)),
     (''mediumRiskThreshold'', JInt (medium_risk_threshold p)),
     (''highRiskThreshold'', JInt (high_risk_threshold p)),
     (''positiveRiskLevelFallback'', JStr (positive_risk_level_fallback p)),
     (''reviewRiskLevelsFallback'', JList (map JStr (review_risk_levels_fallback p))),
     (''blockRiskLevelsFallback'', JList (map JStr (block_risk_levels_fallback p))),
     (''fraudPredictionPolicy'', JStr (fraud_prediction_policy p)),
     (''reviewCandidatePolicy'', JStr (review_candidate_policy p)),
     (''blockedCandidatePolicy'', JStr (blocked_candidate_policy p)),
     (''operatorWorkloadBudget'', workload_budget_json p)]"

definition threshold_v1 :: threshold_policy where
  "threshold_v1 =
    \<lparr>threshold_version = ''threshold-v1'',
     medium_risk_threshold = 50,
     high_risk_threshold = 80,
     positive_risk_level_fallback = ''MEDIUM'',
     review_risk_levels_fallback = [''MEDIUM'', ''HIGH'', ''CRITICAL''],
     block_risk_levels_fallback = [''HIGH'', ''CRITICAL''],
     fraud_prediction_policy =
       ''riskScore >= mediumRiskThreshold when riskScore is present; otherwise riskLevel >= MEDIUM'',
     review_candidate_policy = ''riskScore >= mediumRiskThreshold or riskLevel in MEDIUM/HIGH/CRITICAL'',
     blocked_candidate_policy = ''riskScore >= highRiskThreshold or riskLevel in HIGH/CRITICAL'',
     max_review_rate = to_double (30 / 100),
     max_blocked_rate = to_double (10 / 100)\<rparr>"

definition threshold_strict_v1 :: threshold_policy where
  "threshold_strict_v1 =
    \<lparr>threshold_version = ''threshold-strict-v1'',
     medium_risk_threshold = 70,
     high_risk_threshold = 90,
     positive_risk_level_fallback = ''HIGH'',
     review_risk_levels_fallback = [''HIGH'', ''CRITICAL''],
     block_risk_levels_fallback = [''CRITICAL''],
     fraud_prediction_policy =
       ''riskScore >= mediumRiskThreshold when riskScore is present; otherwise riskLevel >= HIGH'',
     review_candidate_policy = ''riskScore >= mediumRiskThreshold or riskLevel in HIGH/CRITICAL'',
     blocked_candidate_policy = ''riskScore >= highRiskThreshold or riskLevel in CRITICAL'',
     max_review_rate = to_double (20 / 100),
     max_blocked_rate = to_double (5 / 100)\<rparr>"

definition THRESHOLD_POLICIES :: "(string \<times> threshold_policy) list" where
  "THRESHOLD_POLICIES = [(''threshold-v1'', threshold_v1), (''threshold-strict-v1'', threshold_strict_v1)]"

definition threshold_policy_for :: "string \<Rightarrow> threshold_policy res" where
  "threshold_policy_for v =
    (case map_of THRESHOLD_POLICIES v of
       None \<Rightarrow> Inl (ValueError (''unsupported thresholdVersion: '' @ v))
     | Some p \<Rightarrow> Inr p)"

definition validate_rule_version :: "string \<Rightarrow> exn option" where
  "validate_rule_version v =
    raise_if (v \<notin> set RULE_VERSIONS) (ValueError (''unsupported ruleVersion: '' @ v))"

text \<open>The two policies are all there are, and each is found under its own version.\<close>

lemma threshold_policy_for_cases:
  assumes "threshold_policy_for v = Inr p"
  obtains "v = ''threshold-v1''" "p = threshold_v1" | "v = ''threshold-strict-v1''" "p = threshold_strict_v1"
  using assms by (auto simp: threshold_policy_for_def THRESHOLD_POLICIES_def split: if_splits)

lemma threshold_policy_for_version: "threshold_policy_for v = Inr p \<Longrightarrow> threshold_version p = v"
  by (elim threshold_policy_for_cases) (simp_all add: threshold_v1_def threshold_strict_v1_def)

end
