(* ===== verification/Evaluate.thy ===== *)
theory Evaluate
  imports Scanning TypeMapping EvaluationPolicy DateTime
begin

text \<open>
  \<open>scripts/data/evaluate_paysim_replay_results.py\<close>: detection results are joined with the label
  sidecar, the labels whose event the replay rejected are taken out, and a confusion matrix, workload
  figures and coverage figures are reported.

  The dicts of label rows and detection results are association lists keyed by the normalised event
  id. \<open>eval_env\<close> is what the outside gives: the lines of the two input files, the text of the replay
  report, whether the output exists, \<open>json.loads\<close>, and the two readings of the clock.
\<close>

section \<open>Constants and data\<close>

definition RISK_LEVELS :: "string list" where
  "RISK_LEVELS = [''LOW'', ''MEDIUM'', ''HIGH'', ''CRITICAL'']"

definition RISK_RANK :: "string \<Rightarrow> nat" where
  "RISK_RANK r = (case List.find (\<lambda>(i, x). x = r) (enumerate 0 RISK_LEVELS) of Some (i, _) \<Rightarrow> i | None \<Rightarrow> 0)"

definition EVAL_MAX_SAMPLES :: nat where "EVAL_MAX_SAMPLES = 10"

definition EVAL_RAW_FIELDS :: "string list" where
  "EVAL_RAW_FIELDS = [''nameOrig'', ''nameDest'']"

definition LABEL_FIELDS_FORBIDDEN_IN_RESULTS :: "string list" where
  "LABEL_FIELDS_FORBIDDEN_IN_RESULTS = [''isFraud'', ''isFlaggedFraud'', ''sourceFlaggedFraud'']"

definition FORBIDDEN_REPORT_FIELDS :: "string list" where
  "FORBIDDEN_REPORT_FIELDS = [''requestBody'', ''responseBody'', ''token'', ''authToken'', ''authorization'']"

definition REPLAY_PRE_HTTP_REJECT_PREFIXES :: "string list" where
  "REPLAY_PRE_HTTP_REJECT_PREFIXES =
    [''UNSUPPORTED_EVENT_TYPE_FOR_CURRENT_API'', ''LABEL_FIELD'', ''RAW_IDENTIFIER_FIELD'',
     ''RAW_IDENTIFIER_VALUE'', ''RECEIVED_AT_PRESENT'', ''MISSING_FIELD'', ''INVALID_HASH_ID'',
     ''INVALID_EVENT_ID'', ''INVALID_TRACE_ID'', ''INVALID_EVENT_TYPE'', ''INVALID_NATIVE_EVENT_TYPE'',
     ''UNSUPPORTED_NATIVE_TYPE'', ''UNSUPPORTED_MAPPING_POLICY_VERSION'', ''NATIVE_MAPPING_MISMATCH'',
     ''NORMALIZED_EVENT_TYPE_MISMATCH'', ''TYPE_SUPPORT_LEVEL_MISMATCH'', ''INVALID_CURRENCY'',
     ''INVALID_AMOUNT'', ''INVALID_EVENT_TIME'']"

record label_row =
  lr_event_id :: string
  lr_is_fraud :: bool
  lr_source_type :: "string option"

record detection_result =
  dr_event_id :: string
  dr_normalized_event_id :: string
  dr_risk_level :: string
  dr_risk_score :: "pyfloat option"
  dr_rule_version :: "string option"
  dr_rule_codes :: "string list"

record evaluation_stats =
  total_labels :: nat
  total_results :: nat
  matched_results :: nat
  unmatched_results :: nat
  evaluated_events :: nat
  excluded_replay_rejected :: nat
  missing_results :: nat
  total_fraud_labels :: nat
  total_non_fraud_labels :: nat
  missing_fraud_labels :: nat
  missing_non_fraud_labels :: nat
  true_positive :: nat
  false_positive :: nat
  true_negative :: nat
  false_negative :: nat
  risk_level_counts :: "string counter"
  fraud_by_risk_level :: "string counter"
  non_fraud_by_risk_level :: "string counter"
  rule_code_counts :: "string counter"
  action_decisions :: "string counter"
  review_candidate_events :: nat
  blocked_candidate_events :: nat
  with_risk_score :: nat
  without_risk_score :: nat
  with_rule_version :: nat
  without_rule_version :: nat
  rule_versions :: "string counter"
  evaluated_native_types :: "string counter"
  evaluated_normalized_types :: "string counter"
  excluded_native_types :: "string counter"
  eval_sample_ids :: "string list"

definition zero_eval_stats :: evaluation_stats where
  "zero_eval_stats =
    \<lparr>total_labels = 0, total_results = 0, matched_results = 0, unmatched_results = 0, evaluated_events = 0,
     excluded_replay_rejected = 0, missing_results = 0, total_fraud_labels = 0, total_non_fraud_labels = 0,
     missing_fraud_labels = 0, missing_non_fraud_labels = 0, true_positive = 0, false_positive = 0,
     true_negative = 0, false_negative = 0, risk_level_counts = [], fraud_by_risk_level = [],
     non_fraud_by_risk_level = [], rule_code_counts = [], action_decisions = [], review_candidate_events = 0,
     blocked_candidate_events = 0, with_risk_score = 0, without_risk_score = 0, with_rule_version = 0,
     without_rule_version = 0, rule_versions = [], evaluated_native_types = [],
     evaluated_normalized_types = [], excluded_native_types = [], eval_sample_ids = []\<rparr>"

definition add_eval_sample :: "string \<Rightarrow> evaluation_stats \<Rightarrow> evaluation_stats" where
  "add_eval_sample eid s =
    (if length (eval_sample_ids s) < EVAL_MAX_SAMPLES then s\<lparr>eval_sample_ids := eval_sample_ids s @ [eid]\<rparr> else s)"

record eval_args =
  ea_labels :: string
  ea_results :: string
  ea_replay_report :: "string option"
  ea_output :: string
  ea_positive_risk_level :: "string option"
  ea_threshold_version :: string
  ea_rule_version :: string
  ea_evaluation_policy_version :: string
  ea_event_id_prefix :: "string option"
  ea_exclude_replay_rejected :: bool
  ea_include_missing_results :: bool
  ea_force :: bool
  ea_strict :: bool
  ea_require_rule_version :: bool

definition default_eval_args :: eval_args where
  "default_eval_args =
    \<lparr>ea_labels = ''data/samples/paysim-labels-sample.jsonl'',
     ea_results = ''data/processed/paysim-detection-results.jsonl'',
     ea_replay_report = None,
     ea_output = ''data/processed/paysim-evaluation-report.json'',
     ea_positive_risk_level = None,
     ea_threshold_version = DEFAULT_THRESHOLD_VERSION,
     ea_rule_version = RULE_VERSION,
     ea_evaluation_policy_version = EVALUATION_POLICY_VERSION,
     ea_event_id_prefix = None,
     ea_exclude_replay_rejected = True,
     ea_include_missing_results = False,
     ea_force = False,
     ea_strict = False,
     ea_require_rule_version = False\<rparr>"

record eval_env =
  ev_labels :: "string list option"
  ev_results :: "string list option"
  ev_replay_report :: "string option"
  ev_output_exists :: bool
  ev_loads :: "string \<Rightarrow> json option"
  ev_started :: int
  ev_finished :: int

text \<open>A text that is there and not empty.\<close>

definition given :: "string option \<Rightarrow> bool" where
  "given v \<longleftrightarrow> v \<noteq> None \<and> v \<noteq> Some []"

section \<open>Reading the inputs\<close>

definition eval_items :: "(string \<Rightarrow> json option) \<Rightarrow> string \<Rightarrow> string list \<Rightarrow> item list" where
  "eval_items loads path ls = jsonl_items
     (\<lambda>n. EvaluationError (path @ '':'' @ str_of_nat n @ '': invalid JSON''))
     (\<lambda>n. EvaluationError (path @ '':'' @ str_of_nat n @ '': JSON row must be an object'')) loads 1 ls"

definition eval_forbidden_key :: "string \<Rightarrow> string list \<Rightarrow> jobj \<Rightarrow> string \<Rightarrow> string \<Rightarrow> exn option" where
  "eval_forbidden_key source forbidden d path k =
     raise_if (k \<in> set EVAL_RAW_FIELDS \<or> k \<in> set forbidden \<or> k \<in> set FORBIDDEN_REPORT_FIELDS)
       (EvaluationError (source @ '' contains forbidden field: '' @ k))"

definition eval_scan_forbidden :: "json \<Rightarrow> string \<Rightarrow> string list \<Rightarrow> exn option" where
  "eval_scan_forbidden v source forbidden =
     scan_json (eval_forbidden_key source forbidden)
       (\<lambda>_. EvaluationError (source @ '' contains raw PaySim identifier pattern'')) [] v"

definition normalize_event_id :: "string \<Rightarrow> string option \<Rightarrow> string" where
  "normalize_event_id eid prefix =
    (if given prefix \<and> starts_with eid (the prefix @ ''-'') then drop (length (the prefix @ ''-'')) eid else eid)"

definition extract_rule_codes :: "jobj \<Rightarrow> string list res" where
  "extract_rule_codes row =
    (case jget_or row ''ruleCodes'' (jget_or row ''matchedRules'' (jget_or row ''matchedRuleCodes'' (JList []))) of
       JNull \<Rightarrow> Inr []
     | JList vs \<Rightarrow> Inr (filter (\<lambda>s. s \<noteq> []) (map py_str vs))
     | JStr s \<Rightarrow> Inr (filter (\<lambda>s. s \<noteq> []) (map strip (split_on CHR '','' s)))
     | _ \<Rightarrow> Inl (EvaluationError
         ''detection result ruleCodes/matchedRules must be a list or comma-separated string''))"

definition extract_risk_score :: "jobj \<Rightarrow> pyfloat option res" where
  "extract_risk_score row =
    (if jget row ''riskScore'' = JNull then Inr None
     else case py_float (jget row ''riskScore'') of
       Inl x \<Rightarrow> (case x of
           TypeError \<Rightarrow> Inl (EvaluationError ''detection result riskScore must be numeric when present'')
         | ValueError _ \<Rightarrow> Inl (EvaluationError ''detection result riskScore must be numeric when present'')
         | _ \<Rightarrow> Inl x)
     | Inr v \<Rightarrow>
         if flt v (Fin 0) \<or> flt (Fin 100) v
         then Inl (EvaluationError ''detection result riskScore must be between 0 and 100'')
         else Inr (Some v))"

definition extract_rule_version :: "jobj \<Rightarrow> string \<Rightarrow> string \<Rightarrow> string option res" where
  "extract_rule_version row expected source =
    (let v = jget row ''ruleVersion'' in
     if v = JNull then Inr None
     else if \<not> nonempty_str v
     then Inl (EvaluationError (source @ '': detection result ruleVersion must be a non-blank string when present''))
     else if the_str v \<noteq> expected
     then Inl (EvaluationError (source @ '': detection result ruleVersion mismatch: expected '' @ expected
                @ '', got '' @ the_str v))
     else Inr (Some (the_str v)))"

definition label_checks :: "string \<Rightarrow> bool \<Rightarrow> nat \<Rightarrow> jobj \<Rightarrow> exn option" where
  "label_checks path strict n row =
    (let err = (\<lambda>m. EvaluationError (path @ '':'' @ str_of_nat n @ m)) in first_fail
      [eval_scan_forbidden (JObj row) ''label file'' [],
       raise_if (\<not> nonempty_str (jget row ''eventId'')) (err '': label eventId is required''),
       raise_if (\<not> is_bool (jget row ''isFraud'')) (err '': label isFraud boolean is required''),
       raise_if (strict \<and> \<not> is_bool (jget row ''sourceFlaggedFraud''))
         (err '': label sourceFlaggedFraud boolean is required''),
       raise_if (strict \<and> (is_bool (jget row ''sourceStep'') \<or> \<not> is_int (jget row ''sourceStep'')
           \<or> the_int (jget row ''sourceStep'') < 0))
         (err '': label sourceStep non-negative integer is required''),
       raise_if (strict \<and> \<not> nonempty_str (jget row ''sourceType''))
         (err '': label sourceType string is required'')])"

definition label_of :: "jobj \<Rightarrow> label_row" where
  "label_of row =
    \<lparr>lr_event_id = the_str (jget row ''eventId''), lr_is_fraud = the_bool (jget row ''isFraud''),
     lr_source_type = (case jget row ''sourceType'' of JStr s \<Rightarrow> Some s | _ \<Rightarrow> None)\<rparr>"

definition add_label :: "string \<Rightarrow> bool \<Rightarrow> (string \<times> label_row) list \<Rightarrow> nat \<Rightarrow> jobj \<Rightarrow> (string \<times> label_row) list res" where
  "add_label path strict labels n row =
    check_then (label_checks path strict n row)
      (let eid = the_str (jget row ''eventId'') in
       if map_of labels eid \<noteq> None then Inl (EvaluationError (''duplicate label eventId: '' @ eid))
       else Inr (jset labels eid (label_of row)))"

definition load_labels :: "(string \<Rightarrow> json option) \<Rightarrow> string \<Rightarrow> string list \<Rightarrow> bool \<Rightarrow> (string \<times> label_row) list res" where
  "load_labels loads path ls strict = for_items (add_label path strict) [] (eval_items loads path ls)"

definition result_checks :: "string \<Rightarrow> nat \<Rightarrow> jobj \<Rightarrow> exn option" where
  "result_checks path n row =
    (let err = (\<lambda>m. EvaluationError (path @ '':'' @ str_of_nat n @ m)); level = jget row ''riskLevel'' in first_fail
      [eval_scan_forbidden (JObj row) ''detection result file'' LABEL_FIELDS_FORBIDDEN_IN_RESULTS,
       raise_if (\<not> nonempty_str (jget row ''eventId'')) (err '': result eventId is required''),
       raise_if (\<not> hashable level) TypeError,
       raise_if (\<not> in_strings level RISK_LEVELS) (err ('': unsupported riskLevel: '' @ py_str level))])"

definition add_result ::
  "string \<Rightarrow> string option \<Rightarrow> string \<Rightarrow> (string \<times> detection_result) list \<Rightarrow> nat \<Rightarrow> jobj
    \<Rightarrow> (string \<times> detection_result) list res" where
  "add_result path prefix expected results n row =
    check_then (result_checks path n row)
      (let eid = the_str (jget row ''eventId''); nid = normalize_event_id eid prefix in
       if map_of results nid \<noteq> None
       then Inl (EvaluationError (''duplicate result eventId after prefix normalization: '' @ nid))
       else bind_res (extract_risk_score row) (\<lambda>score.
            bind_res (extract_rule_version row expected (path @ '':'' @ str_of_nat n)) (\<lambda>version.
            bind_res (extract_rule_codes row) (\<lambda>codes.
              Inr (jset results nid
                \<lparr>dr_event_id = eid, dr_normalized_event_id = nid, dr_risk_level = the_str (jget row ''riskLevel''),
                 dr_risk_score = score, dr_rule_version = version, dr_rule_codes = codes\<rparr>)))))"

definition load_results ::
  "(string \<Rightarrow> json option) \<Rightarrow> string \<Rightarrow> string list \<Rightarrow> string option \<Rightarrow> string \<Rightarrow> (string \<times> detection_result) list res" where
  "load_results loads path ls prefix expected =
     for_items (add_result path prefix expected) [] (eval_items loads path ls)"

definition load_replay_report :: "eval_env \<Rightarrow> string option \<Rightarrow> jobj option res" where
  "load_replay_report env path =
    (case path of None \<Rightarrow> Inr None
     | Some p \<Rightarrow> (case ev_replay_report env of
         None \<Rightarrow> Inl (FileNotFoundError p)
       | Some t \<Rightarrow> (case ev_loads env t of
           None \<Rightarrow> Inl (EvaluationError (''invalid replay report JSON: '' @ p))
         | Some (JObj d) \<Rightarrow> check_then (eval_scan_forbidden (JObj d) ''replay report'' []) (Inr (Some d))
         | Some _ \<Rightarrow> Inl (EvaluationError ''replay report must be a JSON object''))))"

section \<open>The replay report\<close>

text \<open>\<open>if replay_report\<close>: there is one, and it is not the empty object.\<close>

definition used_report :: "jobj option \<Rightarrow> bool" where
  "used_report r \<longleftrightarrow> r \<noteq> None \<and> r \<noteq> Some []"

definition event_id_prefix_from :: "eval_args \<Rightarrow> jobj option \<Rightarrow> string option" where
  "event_id_prefix_from a report =
    (if given (ea_event_id_prefix a) then ea_event_id_prefix a
     else if used_report report \<and> nonempty_str (jget (the report) ''eventIdPrefix'')
     then Some (the_str (jget (the report) ''eventIdPrefix''))
     else None)"

definition rejected_id_of :: "string option \<Rightarrow> json \<Rightarrow> string option" where
  "rejected_id_of prefix failure = (case failure of
     JObj d \<Rightarrow>
       if is_str (jget d ''eventId'') \<and> is_str (jget d ''reason'')
          \<and> list_ex (starts_with (the_str (jget d ''reason''))) REPLAY_PRE_HTTP_REJECT_PREFIXES
       then Some (normalize_event_id (the_str (jget d ''eventId'')) prefix) else None
   | _ \<Rightarrow> None)"

text \<open>The set of rejected event ids, as a list without repetitions.\<close>

definition replay_rejected_event_ids :: "jobj option \<Rightarrow> string option \<Rightarrow> string list" where
  "replay_rejected_event_ids report prefix =
    (if \<not> used_report report then []
     else case jget_or (the report) ''failures'' (JList []) of
       JList fs \<Rightarrow> remdups (List.map_filter (rejected_id_of prefix) fs)
     | _ \<Rightarrow> [])"

definition replay_payload_rejected_count :: "jobj option \<Rightarrow> int option res" where
  "replay_payload_rejected_count report =
    (if \<not> used_report report then Inr None
     else let v = jget_or (the report) ''payloadRejected'' (JInt 0) in
       if v = JNull then Inr (Some 0)
       else case py_int v of
         Inl x \<Rightarrow> (case x of
             TypeError \<Rightarrow> Inl (EvaluationError ''replay report payloadRejected must be an integer'')
           | ValueError _ \<Rightarrow> Inl (EvaluationError ''replay report payloadRejected must be an integer'')
           | _ \<Rightarrow> Inl x)
       | Inr n \<Rightarrow>
           if n < 0 then Inl (EvaluationError ''replay report payloadRejected must be >= 0'') else Inr (Some n))"

definition replay_mapping_value :: "jobj option \<Rightarrow> string \<Rightarrow> json \<Rightarrow> json" where
  "replay_mapping_value report key dflt =
    (if \<not> used_report report then dflt
     else let v = jget_or (the report) key dflt in if is_obj dflt \<and> \<not> is_obj v then dflt else v)"

section \<open>Decisions and ratios\<close>

definition is_predicted_positive :: "detection_result \<Rightarrow> threshold_policy \<Rightarrow> bool" where
  "is_predicted_positive r p =
    (case dr_risk_score r of
       Some x \<Rightarrow> fle (Fin (of_int (medium_risk_threshold p))) x
     | None \<Rightarrow> RISK_RANK (positive_risk_level_fallback p) \<le> RISK_RANK (dr_risk_level r))"

definition action_decision_for :: "detection_result \<Rightarrow> threshold_policy \<Rightarrow> string" where
  "action_decision_for r p =
    (case dr_risk_score r of
       Some x \<Rightarrow>
         if fle (Fin (of_int (high_risk_threshold p))) x then ''BLOCK''
         else if fle (Fin (of_int (medium_risk_threshold p))) x then ''REVIEW'' else ''ALLOW''
     | None \<Rightarrow>
         if dr_risk_level r \<in> set (block_risk_levels_fallback p) then ''BLOCK''
         else if dr_risk_level r \<in> set (review_risk_levels_fallback p) then ''REVIEW'' else ''ALLOW'')"

text \<open>
  The quotient of two counts. Python's integer division raises only when the quotient is beyond the
  largest float; every ratio the script takes is of a part to its whole (\<open>safe_ratio_is_division\<close>).
\<close>

definition safe_ratio :: "nat \<Rightarrow> nat \<Rightarrow> pyfloat option" where
  "safe_ratio n d = (if d = 0 then None else Some (to_double (of_nat n / of_nat d)))"

lemma safe_ratio_is_division:
  "n \<le> d \<Longrightarrow> 0 < d \<Longrightarrow> true_div (int n) (int d) = Inr (the (safe_ratio n d))"
  by (rule true_div_unit [of "int n" "int d"]) (auto simp: true_div_def safe_ratio_def Let_def split: if_splits)

definition f1_score :: "pyfloat option \<Rightarrow> pyfloat option \<Rightarrow> pyfloat option" where
  "f1_score precision recall =
    (case (precision, recall) of
       (Some p, Some r) \<Rightarrow>
         if feq (fadd p r) (Fin 0) then None
         else (case fdiv (fmul (fmul (Fin 2) p) r) (fadd p r) of Inr x \<Rightarrow> Some x | Inl _ \<Rightarrow> None)
     | _ \<Rightarrow> None)"

definition risk_level_items :: "string counter \<Rightarrow> string counter" where
  "risk_level_items c = map (\<lambda>k. (k, cget c k)) RISK_LEVELS @
     map (\<lambda>k. (k, cget c k)) (filter (\<lambda>k. k \<notin> set RISK_LEVELS) (sort (map fst c)))"

definition rule_version_readiness :: "evaluation_stats \<Rightarrow> string" where
  "rule_version_readiness s =
    (if with_rule_version s = 0 then ''contract_level_only''
     else if 0 < without_rule_version s then ''contract_level_with_partial_per_result_coverage''
     else ''per_result_verified'')"

definition normalized_type_for_source :: "string option \<Rightarrow> string option" where
  "normalized_type_for_source t = (if \<not> given t then None else normalized_type (mapping_for (the t)))"

section \<open>The join\<close>

definition inc_opt :: "string option \<Rightarrow> string counter \<Rightarrow> string counter" where
  "inc_opt t c = (if given t then cinc (the t) c else c)"

text \<open>The two type distributions of an event in the denominator.\<close>

definition note_types :: "label_row \<Rightarrow> evaluation_stats \<Rightarrow> evaluation_stats" where
  "note_types l s = s\<lparr>
     evaluated_native_types := inc_opt (lr_source_type l) (evaluated_native_types s),
     evaluated_normalized_types :=
       inc_opt (normalized_type_for_source (lr_source_type l)) (evaluated_normalized_types s)\<rparr>"

definition note_excluded_label :: "label_row \<Rightarrow> evaluation_stats \<Rightarrow> evaluation_stats" where
  "note_excluded_label l s = s\<lparr>
     excluded_replay_rejected := Suc (excluded_replay_rejected s),
     excluded_native_types := inc_opt (lr_source_type l) (excluded_native_types s)\<rparr>"

definition note_missing :: "bool \<Rightarrow> string \<Rightarrow> label_row \<Rightarrow> evaluation_stats \<Rightarrow> evaluation_stats" where
  "note_missing include eid l s =
    (let s1 = (if lr_is_fraud l
               then s\<lparr>missing_results := Suc (missing_results s), missing_fraud_labels := Suc (missing_fraud_labels s)\<rparr>
               else s\<lparr>missing_results := Suc (missing_results s), missing_non_fraud_labels := Suc (missing_non_fraud_labels s)\<rparr>)
     in if \<not> include then s1
        else let s2 = note_types l (add_eval_sample eid (s1\<lparr>evaluated_events := Suc (evaluated_events s1)\<rparr>))
          in if lr_is_fraud l then s2\<lparr>false_negative := Suc (false_negative s2)\<rparr>
             else s2\<lparr>true_negative := Suc (true_negative s2)\<rparr>)"

text \<open>A label with its result, in three steps: coverage and types, the decision, the matrix.\<close>

definition note_coverage :: "detection_result \<Rightarrow> evaluation_stats \<Rightarrow> evaluation_stats" where
  "note_coverage r s =
    (let s1 = (if dr_risk_score r = None then s\<lparr>without_risk_score := Suc (without_risk_score s)\<rparr>
               else s\<lparr>with_risk_score := Suc (with_risk_score s)\<rparr>)
     in case dr_rule_version r of
          None \<Rightarrow> s1\<lparr>without_rule_version := Suc (without_rule_version s1)\<rparr>
        | Some v \<Rightarrow> s1\<lparr>with_rule_version := Suc (with_rule_version s1), rule_versions := cinc v (rule_versions s1)\<rparr>)"

definition note_decision :: "detection_result \<Rightarrow> string \<Rightarrow> evaluation_stats \<Rightarrow> evaluation_stats" where
  "note_decision r action s = s\<lparr>
     risk_level_counts := cinc (dr_risk_level r) (risk_level_counts s),
     action_decisions := cinc action (action_decisions s),
     review_candidate_events := review_candidate_events s + (if action \<in> {''REVIEW'', ''BLOCK''} then 1 else 0),
     blocked_candidate_events := blocked_candidate_events s + (if action = ''BLOCK'' then 1 else 0)\<rparr>"

definition note_matrix :: "bool \<Rightarrow> bool \<Rightarrow> string \<Rightarrow> evaluation_stats \<Rightarrow> evaluation_stats" where
  "note_matrix fraud positive level s =
    (if fraud
     then let s1 = s\<lparr>fraud_by_risk_level := cinc level (fraud_by_risk_level s)\<rparr> in
       if positive then s1\<lparr>true_positive := Suc (true_positive s1)\<rparr> else s1\<lparr>false_negative := Suc (false_negative s1)\<rparr>
     else let s1 = s\<lparr>non_fraud_by_risk_level := cinc level (non_fraud_by_risk_level s)\<rparr> in
       if positive then s1\<lparr>false_positive := Suc (false_positive s1)\<rparr> else s1\<lparr>true_negative := Suc (true_negative s1)\<rparr>)"

definition note_matched ::
  "threshold_policy \<Rightarrow> string \<Rightarrow> label_row \<Rightarrow> detection_result \<Rightarrow> evaluation_stats \<Rightarrow> evaluation_stats" where
  "note_matched p eid l r s =
    (let s1 = note_types l (note_coverage r (add_eval_sample eid (s\<lparr>evaluated_events := Suc (evaluated_events s)\<rparr>)));
         s2 = note_decision r (action_decision_for r p) s1;
         s3 = note_matrix (lr_is_fraud l) (is_predicted_positive r p) (dr_risk_level r) s2
     in s3\<lparr>rule_code_counts := fold cinc (dr_rule_codes r) (rule_code_counts s3)\<rparr>)"

definition evaluate_label ::
  "(string \<times> label_row) list \<Rightarrow> (string \<times> detection_result) list \<Rightarrow> string list \<Rightarrow> threshold_policy \<Rightarrow> bool
    \<Rightarrow> string \<Rightarrow> evaluation_stats \<Rightarrow> evaluation_stats" where
  "evaluate_label labels results rejected p include eid s =
    (let l = the (map_of labels eid) in
     if eid \<in> set rejected then note_excluded_label l s
     else case map_of results eid of
       None \<Rightarrow> note_missing include eid l s
     | Some r \<Rightarrow> note_matched p eid l r s)"

definition initial_eval_stats ::
  "(string \<times> label_row) list \<Rightarrow> (string \<times> detection_result) list \<Rightarrow> evaluation_stats" where
  "initial_eval_stats labels results = zero_eval_stats\<lparr>
     total_labels := length labels,
     total_results := length results,
     matched_results := length (filter (\<lambda>k. map_of results k \<noteq> None) (map fst labels)),
     unmatched_results := length (filter (\<lambda>k. map_of labels k = None) (map fst results)),
     total_fraud_labels := length (filter (\<lambda>(_, l). lr_is_fraud l) labels),
     total_non_fraud_labels := length (filter (\<lambda>(_, l). \<not> lr_is_fraud l) labels)\<rparr>"

definition evaluate_rows ::
  "(string \<times> label_row) list \<Rightarrow> (string \<times> detection_result) list \<Rightarrow> string list \<Rightarrow> threshold_policy \<Rightarrow> bool
    \<Rightarrow> evaluation_stats" where
  "evaluate_rows labels results rejected p include =
     fold (evaluate_label labels results rejected p include) (sort (map fst labels))
       (initial_eval_stats labels results)"

section \<open>The report\<close>

definition over_budget :: "pyfloat option \<Rightarrow> pyfloat \<Rightarrow> bool" where
  "over_budget rate budget \<longleftrightarrow> (case rate of None \<Rightarrow> False | Some x \<Rightarrow> flt budget x)"

definition build_warnings ::
  "string list \<Rightarrow> evaluation_stats \<Rightarrow> int option \<Rightarrow> string list \<Rightarrow> bool \<Rightarrow> threshold_policy \<Rightarrow> string list" where
  "build_warnings base s payload_rejected rejected include p =
    (let review_rate = safe_ratio (review_candidate_events s) (evaluated_events s);
         blocked_rate = safe_ratio (blocked_candidate_events s) (evaluated_events s);
         warn = (\<lambda>b m. if b then [m] else [])
     in base
      @ warn (true_positive s + false_positive s = 0) ''No positive prediction was produced; precision is null.''
      @ warn (evaluated_events s = 0) ''No events were evaluated; denominator-based metrics are null.''
      @ warn (case payload_rejected of None \<Rightarrow> False | Some n \<Rightarrow> int (length rejected) < n)
          (''Replay report payloadRejected is greater than available rejected eventIds; '' @
           ''evaluation denominator may include replay-rejected events.'')
      @ (if 0 < missing_results s \<and> include
         then [''Missing detection results are included in metrics; '' @
               ''non-fraud missing results are counted as true negatives by policy.'']
         else warn (0 < missing_results s)
           ''Missing detection results are excluded from denominator metrics by default.'')
      @ (if 0 < total_results s \<and> matched_results s = 0
         then [''Detection results exist but do not match any label eventId. Check --event-id-prefix or result export source.'']
         else warn (0 < unmatched_results s)
           ''Some detection results do not match any label eventId and were not used in metrics.'')
      @ warn (0 < without_risk_score s)
          ''Some evaluated results do not include riskScore; threshold policy falls back to riskLevel-based decisions.''
      @ warn (0 < without_rule_version s)
          (''Some evaluated results do not include per-result ruleVersion; '' @ ''evaluation uses contract-level ruleVersion.'')
      @ warn (over_budget review_rate (max_review_rate p)) ''Review candidate rate exceeds candidate workload budget.''
      @ warn (over_budget blocked_rate (max_blocked_rate p)) ''Blocked candidate rate exceeds candidate workload budget.'')"

abbreviation ecount :: "nat \<Rightarrow> json" where
  "ecount n \<equiv> JInt (int n)"

definition ratio_json :: "pyfloat option \<Rightarrow> json" where
  "ratio_json r = (case r of None \<Rightarrow> JNull | Some x \<Rightarrow> JFloat x)"

definition within_budget :: "pyfloat option \<Rightarrow> pyfloat \<Rightarrow> bool" where
  "within_budget rate budget \<longleftrightarrow> (case rate of None \<Rightarrow> True | Some x \<Rightarrow> fle x budget)"

definition exclusion_complete :: "int option \<Rightarrow> bool \<Rightarrow> string list \<Rightarrow> json" where
  "exclusion_complete payload_rejected exclude rejected =
    (case payload_rejected of
       None \<Rightarrow> JNull
     | Some n \<Rightarrow> if \<not> exclude then JNull else JBool (n \<le> int (length rejected)))"

definition build_eval_report ::
  "eval_args \<Rightarrow> threshold_policy \<Rightarrow> string option \<Rightarrow> string option \<Rightarrow> evaluation_stats \<Rightarrow> int option \<Rightarrow> string list
    \<Rightarrow> jobj option \<Rightarrow> string list \<Rightarrow> int \<Rightarrow> int \<Rightarrow> jobj" where
  "build_eval_report a p report_path prefix s payload_rejected rejected report warnings started finished =
    (let tp = true_positive s; fp = false_positive s; tn = true_negative s; fn = false_negative s;
         precision = safe_ratio tp (tp + fp); recall = safe_ratio tp (tp + fn);
         value = replay_mapping_value report; dist = (\<lambda>c. counter_json (sorted_items c));
         native = value ''inputNativeTypeDistribution'' (value ''nativeTypeDistribution'' (JObj []));
         normalized = value ''inputNormalizedTypeDistribution'' (value ''normalizedTypeDistribution'' (JObj []));
         support = value ''inputTypeSupportLevelDistribution'' (value ''typeSupportLevelDistribution'' (JObj []));
         excluded = value ''excludedByType'' (JObj []);
         review_rate = safe_ratio (review_candidate_events s) (evaluated_events s);
         blocked_rate = safe_ratio (blocked_candidate_events s) (evaluated_events s)
     in
    [(''scriptVersion'', JStr ''paysim-evaluation-v1''),
     (''reportSchemaVersion'', JStr ''2026-06-v2-phase12''),
     (''evaluationContractVersion'', JStr EVALUATION_CONTRACT_VERSION),
     (''evaluationPolicyVersion'', JStr (ea_evaluation_policy_version a)),
     (''ruleVersion'', JStr (ea_rule_version a)),
     (''thresholdVersion'', JStr (ea_threshold_version a)),
     (''thresholdPolicy'', threshold_as_dict p),
     (''highRiskThreshold'', JInt (high_risk_threshold p)),
     (''mediumRiskThreshold'', JInt (medium_risk_threshold p)),
     (''decisionPolicy'', JObj
       [(''reviewCandidate'', JStr (review_candidate_policy p)),
        (''blockedCandidate'', JStr (blocked_candidate_policy p))]),
     (''labelsPath'', JStr (ea_labels a)),
     (''resultsPath'', JStr (ea_results a)),
     (''replayReportPath'', json_of_option report_path),
     (''replayReportUsed'', JBool (report_path \<noteq> None)),
     (''startedAt'', JStr (iso_z started)),
     (''finishedAt'', JStr (iso_z finished)),
     (''positiveRiskLevel'', JStr (positive_risk_level_fallback p)),
     (''eventIdPrefix'', json_of_option prefix),
     (''excludeReplayRejected'', JBool (ea_exclude_replay_rejected a)),
     (''includeMissingResults'', JBool (ea_include_missing_results a)),
     (''requirePerResultRuleVersion'', JBool (ea_require_rule_version a)),
     (''missingResultTreatment'', JStr (if ea_include_missing_results a
        then ''fraud_missing_as_FN_non_fraud_missing_as_TN'' else ''missing_results_excluded_from_denominator'')),
     (''recordFailurePolicy'', JStr ''fail_fast_before_report_generation''),
     (''pipelineFailureCountingPolicy'', JStr ''fail_fast_before_report_generation''),
     (''invalidRecordCountingPolicy'', JStr ''fail_fast_before_report_generation''),
     (''totalLabels'', ecount (total_labels s)),
     (''totalFraudLabels'', ecount (total_fraud_labels s)),
     (''totalNonFraudLabels'', ecount (total_non_fraud_labels s)),
     (''totalResults'', ecount (total_results s)),
     (''matchedResults'', ecount (matched_results s)),
     (''unmatchedResults'', ecount (unmatched_results s)),
     (''evaluatedEvents'', ecount (evaluated_events s)),
     (''excludedReplayRejected'', ecount (excluded_replay_rejected s)),
     (''replayPayloadRejected'', (case payload_rejected of None \<Rightarrow> JNull | Some n \<Rightarrow> JInt n)),
     (''mappingPolicyVersion'', value ''mappingPolicyVersion'' JNull),
     (''mappingPolicyVersions'', value ''mappingPolicyVersions'' (JObj [])),
     (''mappingMetadataPolicy'', value ''mappingMetadataPolicy'' JNull),
     (''replayMissingMappingMetadata'', value ''missingMappingMetadata'' (JInt 0)),
     (''typeDistributionScope'', JStr ''split_replay_input_and_evaluation_denominator''),
     (''nativeTypeDistributionSource'', JStr ''replay_report_input_scope''),
     (''normalizedTypeDistributionSource'', JStr ''replay_report_input_scope''),
     (''typeSupportLevelDistributionSource'', JStr ''replay_report_input_scope''),
     (''evaluationDenominatorTypeDistributionAvailable'', JBool True),
     (''nativeTypeDistribution'', native),
     (''normalizedTypeDistribution'', normalized),
     (''typeSupportLevelDistribution'', support),
     (''excludedByType'', excluded),
     (''replayNativeTypeDistribution'', native),
     (''replayNormalizedTypeDistribution'', normalized),
     (''replayTypeSupportLevelDistribution'', support),
     (''evaluatedNativeTypeDistribution'', dist (evaluated_native_types s)),
     (''evaluatedNormalizedTypeDistribution'', dist (evaluated_normalized_types s)),
     (''excludedNativeTypeDistribution'', excluded),
     (''denominatorExcludedNativeTypeDistribution'', dist (excluded_native_types s)),
     (''replayRejectedEventIdsAvailable'', ecount (length rejected)),
     (''replayRejectedExclusionComplete'',
       exclusion_complete payload_rejected (ea_exclude_replay_rejected a) rejected),
     (''missingResults'', ecount (missing_results s)),
     (''missingFraudLabels'', ecount (missing_fraud_labels s)),
     (''missingNonFraudLabels'', ecount (missing_non_fraud_labels s)),
     (''totalEvents'', ecount (evaluated_events s)),
     (''fraudLabeledEvents'', ecount (tp + fn)),
     (''evaluatedFraudLabeledEvents'', ecount (tp + fn)),
     (''detectedFraudEvents'', ecount (tp + fp)),
     (''missedFraudEvents'', ecount fn),
     (''evaluatedMissedFraudEvents'', ecount fn),
     (''falsePositiveEvents'', ecount fp),
     (''truePositiveEvents'', ecount tp),
     (''trueNegativeEvents'', ecount tn),
     (''misclassifiedEvents'', ecount (fp + fn)),
     (''unmatchedResultEvents'', ecount (unmatched_results s)),
     (''reviewCandidateEvents'', ecount (review_candidate_events s)),
     (''reviewCandidateRate'', ratio_json review_rate),
     (''blockedCandidateEvents'', ecount (blocked_candidate_events s)),
     (''blockedCandidateRate'', ratio_json blocked_rate),
     (''actionDecisionDistribution'', dist (action_decisions s)),
     (''riskScoreCoverage'', JObj
       [(''resultsWithRiskScore'', ecount (with_risk_score s)),
        (''resultsWithoutRiskScore'', ecount (without_risk_score s)),
        (''coverageRate'', ratio_json (safe_ratio (with_risk_score s) (with_risk_score s + without_risk_score s))),
        (''coverageScope'', JStr ''evaluated_results_only'')]),
     (''ruleVersionCoverage'', JObj
       [(''resultsWithRuleVersion'', ecount (with_rule_version s)),
        (''resultsWithoutRuleVersion'', ecount (without_rule_version s)),
        (''coverageRate'', ratio_json (safe_ratio (with_rule_version s) (with_rule_version s + without_rule_version s))),
        (''coverageScope'', JStr ''evaluated_results_only''),
        (''ruleVersionSource'', JStr ''per_result_when_present_otherwise_contract_level'')]),
     (''ruleVersionReadiness'', JStr (rule_version_readiness s)),
     (''ruleVersionDistribution'', dist (rule_versions s)),
     (''thresholdRegressionReliability'', JStr (if without_risk_score s = 0 then ''full_risk_score_coverage''
        else ''partial_without_full_risk_score_coverage'')),
     (''operatorWorkloadSummary'', JObj
       [(''reviewCandidateEvents'', ecount (review_candidate_events s)),
        (''reviewCandidateRate'', ratio_json review_rate),
        (''blockedCandidateEvents'', ecount (blocked_candidate_events s)),
        (''blockedCandidateRate'', ratio_json blocked_rate),
        (''workloadBudget'', workload_budget_json p),
        (''budgetStatus'', JObj
          [(''reviewCandidateRateWithinBudget'', JBool (within_budget review_rate (max_review_rate p))),
           (''blockedCandidateRateWithinBudget'', JBool (within_budget blocked_rate (max_blocked_rate p)))]),
        (''interpretation'',
          JStr ''candidate workload summary for evaluation evidence; not a production staffing guarantee'')]),
     (''evaluationExcludedRecords'', ecount (excluded_replay_rejected s)),
     (''failedRecords'', JInt 0),
     (''invalidRecords'', JInt 0),
     (''confusionMatrix'', JObj
       [(''truePositive'', ecount tp), (''falsePositive'', ecount fp),
        (''trueNegative'', ecount tn), (''falseNegative'', ecount fn)]),
     (''metrics'', JObj
       [(''precision'', ratio_json precision),
        (''recall'', ratio_json recall),
        (''f1Score'', ratio_json (f1_score precision recall)),
        (''falsePositiveRate'', ratio_json (safe_ratio fp (fp + tn))),
        (''falseNegativeRate'', ratio_json (safe_ratio fn (fn + tp))),
        (''accuracy'', ratio_json (safe_ratio (tp + tn) (evaluated_events s)))]),
     (''riskLevelCounts'', counter_json (risk_level_items (risk_level_counts s))),
     (''fraudByRiskLevel'', counter_json (risk_level_items (fraud_by_risk_level s))),
     (''nonFraudByRiskLevel'', counter_json (risk_level_items (non_fraud_by_risk_level s))),
     (''ruleCodeCounts'', dist (rule_code_counts s)),
     (''warnings'', JList (map JStr warnings)),
     (''sampleEventIds'', JList (map JStr (eval_sample_ids s)))])"

section \<open>The run\<close>

text \<open>A \<open>ValueError\<close> of the policy module becomes an \<open>EvaluationError\<close> with its message.\<close>

definition as_evaluation_error :: "exn \<Rightarrow> exn" where
  "as_evaluation_error x = (case x of ValueError m \<Rightarrow> EvaluationError m | _ \<Rightarrow> x)"

definition validate_eval_args :: "eval_env \<Rightarrow> eval_args \<Rightarrow> exn option" where
  "validate_eval_args env a = first_fail
    [raise_if (ev_labels env = None) (FileNotFoundError (ea_labels a)),
     raise_if (ev_results env = None) (FileNotFoundError (ea_results a)),
     raise_if (ev_output_exists env \<and> \<not> ea_force a)
       (EvaluationError (''output file already exists. Use --force: '' @ ea_output a)),
     (case threshold_policy_for (ea_threshold_version a) of
        Inl x \<Rightarrow> Some (as_evaluation_error x) | Inr _ \<Rightarrow> None),
     raise_if (ea_evaluation_policy_version a \<noteq> EVALUATION_POLICY_VERSION)
       (EvaluationError (''unsupported evaluationPolicyVersion: '' @ ea_evaluation_policy_version a)),
     map_option as_evaluation_error (validate_rule_version (ea_rule_version a)),
     (case threshold_policy_for (ea_threshold_version a) of
        Inl _ \<Rightarrow> None
      | Inr p \<Rightarrow> raise_if (ea_positive_risk_level a \<noteq> None
            \<and> ea_positive_risk_level a \<noteq> Some (positive_risk_level_fallback p))
          (EvaluationError (''--positive-risk-level must match threshold policy fallback in Phase 9: '' @
             positive_risk_level_fallback p)))]"

text \<open>What is joined: the prefix, the labels, the results and the rejected ids.\<close>

record eval_inputs =
  ei_report :: "jobj option"
  ei_prefix :: "string option"
  ei_labels :: "(string \<times> label_row) list"
  ei_results :: "(string \<times> detection_result) list"
  ei_rejected :: "string list"
  ei_payload_rejected :: "int option"
  ei_policy :: threshold_policy

definition load_inputs :: "eval_env \<Rightarrow> eval_args \<Rightarrow> eval_inputs res" where
  "load_inputs env a =
    bind_res (load_replay_report env (ea_replay_report a)) (\<lambda>report.
    (let prefix = event_id_prefix_from a report in
     bind_res (load_labels (ev_loads env) (ea_labels a) (the (ev_labels env)) (ea_strict a)) (\<lambda>labels.
     bind_res (load_results (ev_loads env) (ea_results a) (the (ev_results env)) prefix (ea_rule_version a)) (\<lambda>results.
     bind_res (replay_payload_rejected_count report) (\<lambda>payload_rejected.
     bind_res (threshold_policy_for (ea_threshold_version a)) (\<lambda>p.
       Inr \<lparr>ei_report = report, ei_prefix = prefix, ei_labels = labels, ei_results = results,
            ei_rejected = (if ea_exclude_replay_rejected a then replay_rejected_event_ids report prefix else []),
            ei_payload_rejected = payload_rejected, ei_policy = p\<rparr>))))))"

definition evaluate :: "eval_env \<Rightarrow> eval_args \<Rightarrow> (evaluation_stats \<times> jobj) res" where
  "evaluate env a =
    check_then (validate_eval_args env a)
     (bind_res (load_inputs env a) (\<lambda>i.
      (let s = evaluate_rows (ei_labels i) (ei_results i) (ei_rejected i) (ei_policy i) (ea_include_missing_results a) in
       if ea_require_rule_version a \<and> 0 < without_rule_version s
       then Inl (EvaluationError (''per-result ruleVersion is required but missing for '' @
              str_of_nat (without_rule_version s) @ '' evaluated result row(s)''))
       else Inr (s, build_eval_report a (ei_policy i)
              (if used_report (ei_report i) then ea_replay_report a else None) (ei_prefix i) s
              (ei_payload_rejected i) (ei_rejected i) (ei_report i)
              (build_warnings [] s (ei_payload_rejected i) (ei_rejected i) (ea_include_missing_results a) (ei_policy i))
              (ev_started env) (ev_finished env)))))"

definition eval_exit_status :: "(evaluation_stats \<times> jobj) res \<Rightarrow> int" where
  "eval_exit_status r = (case r of
     Inr _ \<Rightarrow> 0
   | Inl (FileNotFoundError _) \<Rightarrow> 2
   | Inl (EvaluationError _) \<Rightarrow> 2
   | Inl _ \<Rightarrow> 1)"

end
