(* ===== verification/EvaluateCorrect.thy ===== *)
theory EvaluateCorrect
  imports Evaluate
begin

text \<open>
  What is proved of the evaluation: what a loaded label or result file is, how each label moves the
  counters, and from this the totals of a run as counts over the labels. The counters are lifted from
  one label to the run by one lemma, \<open>fold_adds\<close>.
\<close>

section \<open>Loading\<close>

interpretation label_scan: forbidden_scanner "\<lambda>v. eval_scan_forbidden v ''label file'' []"
  "\<lambda>k. k \<in> set EVAL_RAW_FIELDS \<union> set FORBIDDEN_REPORT_FIELDS"
proof
  fix v
  have "eval_forbidden_key ''label file'' [] d path k = None
      \<longleftrightarrow> \<not> k \<in> set EVAL_RAW_FIELDS \<union> set FORBIDDEN_REPORT_FIELDS" for d path k
    by (simp add: eval_forbidden_key_def)
  then show "eval_scan_forbidden v ''label file'' [] = None
      \<longleftrightarrow> clean (\<lambda>k. k \<in> set EVAL_RAW_FIELDS \<union> set FORBIDDEN_REPORT_FIELDS) v"
    unfolding eval_scan_forbidden_def by (rule scan_json_None_iff)
qed

abbreviation result_forbidden :: "string \<Rightarrow> bool" where
  "result_forbidden k \<equiv>
     k \<in> set EVAL_RAW_FIELDS \<union> set LABEL_FIELDS_FORBIDDEN_IN_RESULTS \<union> set FORBIDDEN_REPORT_FIELDS"

interpretation result_scan: forbidden_scanner
  "\<lambda>v. eval_scan_forbidden v ''detection result file'' LABEL_FIELDS_FORBIDDEN_IN_RESULTS" result_forbidden
proof
  fix v
  have "eval_forbidden_key ''detection result file'' LABEL_FIELDS_FORBIDDEN_IN_RESULTS d path k = None
      \<longleftrightarrow> \<not> result_forbidden k" for d path k
    by (simp add: eval_forbidden_key_def)
  then show "eval_scan_forbidden v ''detection result file'' LABEL_FIELDS_FORBIDDEN_IN_RESULTS = None
      \<longleftrightarrow> clean result_forbidden v"
    unfolding eval_scan_forbidden_def by (rule scan_json_None_iff)
qed

lemma jset_fresh: "map_of d k = None \<Longrightarrow> jset d k v = d @ [(k, v)]"
  by (induction d k v rule: jset.induct) (auto split: if_splits)

text \<open>
  A loop that puts each row under a fresh key makes the list of the entries, with distinct keys.
\<close>

lemma keyed_loop:
  assumes "for_items f [] is = Inr d"
    and step: "\<And>d n row d'. f d n row = Inr d' \<Longrightarrow>
       map_of d (key n row) = None \<and> d' = jset d (key n row) (val n row) \<and> ok n row"
  shows "is = map Inr (rows_of is) \<and> d = map (\<lambda>(n, row). (key n row, val n row)) (rows_of is)
    \<and> distinct (map fst d) \<and> (\<forall>(n, row) \<in> set (rows_of is). ok n row)"
proof -
  have rows: "is = map Inr (rows_of is)" and fold: "foldM (\<lambda>s (n, row). f s n row) [] (rows_of is) = Inr d"
    using for_items_rows [OF assms(1)] by auto
  have "foldM (\<lambda>s (n, row). f s n row) d0 rs = Inr d \<Longrightarrow> distinct (map fst d0) \<Longrightarrow>
      d = d0 @ map (\<lambda>(n, row). (key n row, val n row)) rs \<and> distinct (map fst d) \<and> (\<forall>(n, row) \<in> set rs. ok n row)"
    for d0 rs
  proof (induction rs arbitrary: d0)
    case (Cons r rs)
    obtain n row where r: "r = (n, row)" by fastforce
    from Cons.prems r obtain d1 where d1: "f d0 n row = Inr d1" "foldM (\<lambda>s (n, row). f s n row) d1 rs = Inr d"
      by (auto split: sum.splits)
    from step [OF d1(1)] have s: "map_of d0 (key n row) = None" "d1 = d0 @ [(key n row, val n row)]" "ok n row"
      by (simp_all add: jset_fresh)
    then have "distinct (map fst d1)" using Cons.prems(2) by (auto simp: map_of_eq_None_iff)
    note h = Cons.IH [OF d1(2) this]
    have "d = d0 @ map (\<lambda>(n, row). (key n row, val n row)) (r # rs)" "\<forall>(n, row) \<in> set (r # rs). ok n row"
      using h s by (simp_all add: r)
    with h show ?case by blast
  qed simp
  from this [OF fold, unfolded append_Nil list.map(1), OF distinct.simps(1) [THEN iffD2, OF TrueI]] rows
  show ?thesis by blast
qed

definition label_key :: "jobj \<Rightarrow> string" where
  "label_key row = the_str (jget row ''eventId'')"

lemma load_labels_Inr:
  assumes "load_labels loads path ls strict = Inr labels"
  defines "rows \<equiv> rows_of (eval_items loads path ls)"
  shows "eval_items loads path ls = map Inr rows"
    "labels = map (\<lambda>(n, row). (label_key row, label_of row)) rows" "distinct (map fst labels)"
    "\<forall>(n, row) \<in> set rows. label_checks path strict n row = None"
proof -
  have "eval_items loads path ls = map Inr (rows_of (eval_items loads path ls))
    \<and> labels = map (\<lambda>(n, row). (label_key row, label_of row)) (rows_of (eval_items loads path ls))
    \<and> distinct (map fst labels)
    \<and> (\<forall>(n, row) \<in> set (rows_of (eval_items loads path ls)). label_checks path strict n row = None)"
    by (rule keyed_loop [OF assms(1) [unfolded load_labels_def]])
       (auto simp: add_label_def label_key_def Let_def split: if_splits)
  then show "eval_items loads path ls = map Inr rows"
    "labels = map (\<lambda>(n, row). (label_key row, label_of row)) rows" "distinct (map fst labels)"
    "\<forall>(n, row) \<in> set rows. label_checks path strict n row = None"
    unfolding rows_def by blast+
qed

text \<open>The result a good row stands for.\<close>

definition result_key :: "string option \<Rightarrow> jobj \<Rightarrow> string" where
  "result_key prefix row = normalize_event_id (the_str (jget row ''eventId'')) prefix"

definition result_of :: "string option \<Rightarrow> jobj \<Rightarrow> detection_result" where
  "result_of prefix row =
    \<lparr>dr_event_id = the_str (jget row ''eventId''), dr_normalized_event_id = result_key prefix row,
     dr_risk_level = the_str (jget row ''riskLevel''),
     dr_risk_score = (case extract_risk_score row of Inr x \<Rightarrow> x | Inl _ \<Rightarrow> None),
     dr_rule_version = (if jget row ''ruleVersion'' = JNull then None else Some (the_str (jget row ''ruleVersion''))),
     dr_rule_codes = (case extract_rule_codes row of Inr x \<Rightarrow> x | Inl _ \<Rightarrow> [])\<rparr>"

definition good_result :: "string \<Rightarrow> string \<Rightarrow> nat \<Rightarrow> jobj \<Rightarrow> bool" where
  "good_result path expected n row \<longleftrightarrow> result_checks path n row = None
     \<and> \<not> isl (extract_risk_score row) \<and> \<not> isl (extract_rule_codes row)
     \<and> (jget row ''ruleVersion'' \<noteq> JNull \<longrightarrow> jget row ''ruleVersion'' = JStr expected)"

lemma extract_rule_version_Inr:
  "extract_rule_version row expected src = Inr v \<longleftrightarrow>
    (if jget row ''ruleVersion'' = JNull then v = None
     else jget row ''ruleVersion'' = JStr expected \<and> expected \<noteq> [] \<and> v = Some expected)"
  by (cases "jget row ''ruleVersion''") (auto simp: extract_rule_version_def nonempty_str_def Let_def)

lemma load_results_Inr:
  assumes "load_results loads path ls prefix expected = Inr results"
  defines "rows \<equiv> rows_of (eval_items loads path ls)"
  shows "eval_items loads path ls = map Inr rows"
    "results = map (\<lambda>(n, row). (result_key prefix row, result_of prefix row)) rows" "distinct (map fst results)"
    "\<forall>(n, row) \<in> set rows. good_result path expected n row"
proof -
  have "eval_items loads path ls = map Inr (rows_of (eval_items loads path ls))
    \<and> results = map (\<lambda>(n, row). (result_key prefix row, result_of prefix row)) (rows_of (eval_items loads path ls))
    \<and> distinct (map fst results)
    \<and> (\<forall>(n, row) \<in> set (rows_of (eval_items loads path ls)). good_result path expected n row)"
    by (rule keyed_loop [OF assms(1) [unfolded load_results_def]])
       (auto simp: add_result_def result_key_def result_of_def good_result_def extract_rule_version_Inr Let_def
         split: if_splits)
  then show "eval_items loads path ls = map Inr rows"
    "results = map (\<lambda>(n, row). (result_key prefix row, result_of prefix row)) rows" "distinct (map fst results)"
    "\<forall>(n, row) \<in> set rows. good_result path expected n row"
    unfolding rows_def by blast+
qed

lemma good_result_level: "good_result path expected n row \<Longrightarrow> the_str (jget row ''riskLevel'') \<in> set RISK_LEVELS"
  by (auto simp: good_result_def result_checks_def in_strings_def Let_def split: json.splits)

section \<open>How a label moves the counters\<close>

lemma fold_adds:
  fixes f :: "'s \<Rightarrow> nat"
  assumes "\<And>x s. x \<in> set xs \<Longrightarrow> f (g x s) = f s + of_bool (P x)"
  shows "f (fold g xs s) = f s + length (filter P xs)"
  using assms by (induction xs arbitrary: s) auto

lemma length_filter_sort: "length (filter P (sort xs)) = length (filter P xs)"
  by (metis filter_sort length_sort sort_key_def)

text \<open>The detection result that decides about a label, if any.\<close>

definition deciding :: "string list \<Rightarrow> (string \<times> detection_result) list \<Rightarrow> string \<Rightarrow> detection_result option" where
  "deciding rejected results eid = (if eid \<in> set rejected then None else map_of results eid)"

definition decided :: "string list \<Rightarrow> (string \<times> detection_result) list \<Rightarrow> (detection_result \<Rightarrow> bool) \<Rightarrow> string \<Rightarrow> bool" where
  "decided rejected results Q eid \<longleftrightarrow> (case deciding rejected results eid of None \<Rightarrow> False | Some r \<Rightarrow> Q r)"

definition lacks_result :: "string list \<Rightarrow> (string \<times> detection_result) list \<Rightarrow> string \<Rightarrow> bool" where
  "lacks_result rejected results eid \<longleftrightarrow> eid \<notin> set rejected \<and> map_of results eid = None"

text \<open>What each step of a pass does to the counters.\<close>

lemma add_eval_sample_counts [simp]:
  "true_positive (add_eval_sample eid s) = true_positive s"
  "false_positive (add_eval_sample eid s) = false_positive s"
  "true_negative (add_eval_sample eid s) = true_negative s"
  "false_negative (add_eval_sample eid s) = false_negative s"
  "evaluated_events (add_eval_sample eid s) = evaluated_events s"
  "excluded_replay_rejected (add_eval_sample eid s) = excluded_replay_rejected s"
  "missing_results (add_eval_sample eid s) = missing_results s"
  "missing_fraud_labels (add_eval_sample eid s) = missing_fraud_labels s"
  "missing_non_fraud_labels (add_eval_sample eid s) = missing_non_fraud_labels s"
  "review_candidate_events (add_eval_sample eid s) = review_candidate_events s"
  "blocked_candidate_events (add_eval_sample eid s) = blocked_candidate_events s"
  "with_risk_score (add_eval_sample eid s) = with_risk_score s"
  "without_risk_score (add_eval_sample eid s) = without_risk_score s"
  "with_rule_version (add_eval_sample eid s) = with_rule_version s"
  "without_rule_version (add_eval_sample eid s) = without_rule_version s"
  "total_labels (add_eval_sample eid s) = total_labels s"
  "total_results (add_eval_sample eid s) = total_results s"
  "matched_results (add_eval_sample eid s) = matched_results s"
  "unmatched_results (add_eval_sample eid s) = unmatched_results s"
  "total_fraud_labels (add_eval_sample eid s) = total_fraud_labels s"
  "total_non_fraud_labels (add_eval_sample eid s) = total_non_fraud_labels s"
  "rule_versions (add_eval_sample eid s) = rule_versions s"
  by (simp_all add: add_eval_sample_def)

lemma note_types_counts [simp]:
  "true_positive (note_types l s) = true_positive s"
  "false_positive (note_types l s) = false_positive s"
  "true_negative (note_types l s) = true_negative s"
  "false_negative (note_types l s) = false_negative s"
  "evaluated_events (note_types l s) = evaluated_events s"
  "excluded_replay_rejected (note_types l s) = excluded_replay_rejected s"
  "missing_results (note_types l s) = missing_results s"
  "missing_fraud_labels (note_types l s) = missing_fraud_labels s"
  "missing_non_fraud_labels (note_types l s) = missing_non_fraud_labels s"
  "review_candidate_events (note_types l s) = review_candidate_events s"
  "blocked_candidate_events (note_types l s) = blocked_candidate_events s"
  "with_risk_score (note_types l s) = with_risk_score s"
  "without_risk_score (note_types l s) = without_risk_score s"
  "with_rule_version (note_types l s) = with_rule_version s"
  "without_rule_version (note_types l s) = without_rule_version s"
  "total_labels (note_types l s) = total_labels s"
  "total_results (note_types l s) = total_results s"
  "matched_results (note_types l s) = matched_results s"
  "unmatched_results (note_types l s) = unmatched_results s"
  "total_fraud_labels (note_types l s) = total_fraud_labels s"
  "total_non_fraud_labels (note_types l s) = total_non_fraud_labels s"
  "rule_versions (note_types l s) = rule_versions s"
  by (simp_all add: note_types_def)

lemma note_excluded_counts [simp]:
  "true_positive (note_excluded_label l s) = true_positive s"
  "false_positive (note_excluded_label l s) = false_positive s"
  "true_negative (note_excluded_label l s) = true_negative s"
  "false_negative (note_excluded_label l s) = false_negative s"
  "evaluated_events (note_excluded_label l s) = evaluated_events s"
  "excluded_replay_rejected (note_excluded_label l s) = Suc (excluded_replay_rejected s)"
  "missing_results (note_excluded_label l s) = missing_results s"
  "missing_fraud_labels (note_excluded_label l s) = missing_fraud_labels s"
  "missing_non_fraud_labels (note_excluded_label l s) = missing_non_fraud_labels s"
  "review_candidate_events (note_excluded_label l s) = review_candidate_events s"
  "blocked_candidate_events (note_excluded_label l s) = blocked_candidate_events s"
  "with_risk_score (note_excluded_label l s) = with_risk_score s"
  "without_risk_score (note_excluded_label l s) = without_risk_score s"
  "with_rule_version (note_excluded_label l s) = with_rule_version s"
  "without_rule_version (note_excluded_label l s) = without_rule_version s"
  "total_labels (note_excluded_label l s) = total_labels s"
  "total_results (note_excluded_label l s) = total_results s"
  "matched_results (note_excluded_label l s) = matched_results s"
  "unmatched_results (note_excluded_label l s) = unmatched_results s"
  "total_fraud_labels (note_excluded_label l s) = total_fraud_labels s"
  "total_non_fraud_labels (note_excluded_label l s) = total_non_fraud_labels s"
  "rule_versions (note_excluded_label l s) = rule_versions s"
  by (simp_all add: note_excluded_label_def)

lemma note_coverage_counts [simp]:
  "true_positive (note_coverage r s) = true_positive s"
  "false_positive (note_coverage r s) = false_positive s"
  "true_negative (note_coverage r s) = true_negative s"
  "false_negative (note_coverage r s) = false_negative s"
  "evaluated_events (note_coverage r s) = evaluated_events s"
  "excluded_replay_rejected (note_coverage r s) = excluded_replay_rejected s"
  "missing_results (note_coverage r s) = missing_results s"
  "missing_fraud_labels (note_coverage r s) = missing_fraud_labels s"
  "missing_non_fraud_labels (note_coverage r s) = missing_non_fraud_labels s"
  "review_candidate_events (note_coverage r s) = review_candidate_events s"
  "blocked_candidate_events (note_coverage r s) = blocked_candidate_events s"
  "with_risk_score (note_coverage r s) = with_risk_score s + of_bool (dr_risk_score r \<noteq> None)"
  "without_risk_score (note_coverage r s) = without_risk_score s + of_bool (dr_risk_score r = None)"
  "with_rule_version (note_coverage r s) = with_rule_version s + of_bool (dr_rule_version r \<noteq> None)"
  "without_rule_version (note_coverage r s) = without_rule_version s + of_bool (dr_rule_version r = None)"
  "total_labels (note_coverage r s) = total_labels s"
  "total_results (note_coverage r s) = total_results s"
  "matched_results (note_coverage r s) = matched_results s"
  "unmatched_results (note_coverage r s) = unmatched_results s"
  "total_fraud_labels (note_coverage r s) = total_fraud_labels s"
  "total_non_fraud_labels (note_coverage r s) = total_non_fraud_labels s"
  "rule_versions (note_coverage r s) = (case dr_rule_version r of None \<Rightarrow> rule_versions s | Some v \<Rightarrow> cinc v (rule_versions s))"
  by (simp_all add: note_coverage_def Let_def split: option.split)

lemma note_decision_counts [simp]:
  "true_positive (note_decision r a s) = true_positive s"
  "false_positive (note_decision r a s) = false_positive s"
  "true_negative (note_decision r a s) = true_negative s"
  "false_negative (note_decision r a s) = false_negative s"
  "evaluated_events (note_decision r a s) = evaluated_events s"
  "excluded_replay_rejected (note_decision r a s) = excluded_replay_rejected s"
  "missing_results (note_decision r a s) = missing_results s"
  "missing_fraud_labels (note_decision r a s) = missing_fraud_labels s"
  "missing_non_fraud_labels (note_decision r a s) = missing_non_fraud_labels s"
  "review_candidate_events (note_decision r a s) = review_candidate_events s + of_bool (a \<in> {''REVIEW'', ''BLOCK''})"
  "blocked_candidate_events (note_decision r a s) = blocked_candidate_events s + of_bool (a = ''BLOCK'')"
  "with_risk_score (note_decision r a s) = with_risk_score s"
  "without_risk_score (note_decision r a s) = without_risk_score s"
  "with_rule_version (note_decision r a s) = with_rule_version s"
  "without_rule_version (note_decision r a s) = without_rule_version s"
  "total_labels (note_decision r a s) = total_labels s"
  "total_results (note_decision r a s) = total_results s"
  "matched_results (note_decision r a s) = matched_results s"
  "unmatched_results (note_decision r a s) = unmatched_results s"
  "total_fraud_labels (note_decision r a s) = total_fraud_labels s"
  "total_non_fraud_labels (note_decision r a s) = total_non_fraud_labels s"
  "rule_versions (note_decision r a s) = rule_versions s"
  by (simp_all add: note_decision_def)

lemma note_matrix_counts [simp]:
  "true_positive (note_matrix fraud pos level s) = true_positive s + of_bool (fraud \<and> pos)"
  "false_positive (note_matrix fraud pos level s) = false_positive s + of_bool (\<not> fraud \<and> pos)"
  "true_negative (note_matrix fraud pos level s) = true_negative s + of_bool (\<not> fraud \<and> \<not> pos)"
  "false_negative (note_matrix fraud pos level s) = false_negative s + of_bool (fraud \<and> \<not> pos)"
  "evaluated_events (note_matrix fraud pos level s) = evaluated_events s"
  "excluded_replay_rejected (note_matrix fraud pos level s) = excluded_replay_rejected s"
  "missing_results (note_matrix fraud pos level s) = missing_results s"
  "missing_fraud_labels (note_matrix fraud pos level s) = missing_fraud_labels s"
  "missing_non_fraud_labels (note_matrix fraud pos level s) = missing_non_fraud_labels s"
  "review_candidate_events (note_matrix fraud pos level s) = review_candidate_events s"
  "blocked_candidate_events (note_matrix fraud pos level s) = blocked_candidate_events s"
  "with_risk_score (note_matrix fraud pos level s) = with_risk_score s"
  "without_risk_score (note_matrix fraud pos level s) = without_risk_score s"
  "with_rule_version (note_matrix fraud pos level s) = with_rule_version s"
  "without_rule_version (note_matrix fraud pos level s) = without_rule_version s"
  "total_labels (note_matrix fraud pos level s) = total_labels s"
  "total_results (note_matrix fraud pos level s) = total_results s"
  "matched_results (note_matrix fraud pos level s) = matched_results s"
  "unmatched_results (note_matrix fraud pos level s) = unmatched_results s"
  "total_fraud_labels (note_matrix fraud pos level s) = total_fraud_labels s"
  "total_non_fraud_labels (note_matrix fraud pos level s) = total_non_fraud_labels s"
  "rule_versions (note_matrix fraud pos level s) = rule_versions s"
  by (simp_all add: note_matrix_def Let_def)

lemma note_missing_counts [simp]:
  "true_positive (note_missing include eid l s) = true_positive s"
  "false_positive (note_missing include eid l s) = false_positive s"
  "true_negative (note_missing include eid l s) = true_negative s + of_bool (include \<and> \<not> lr_is_fraud l)"
  "false_negative (note_missing include eid l s) = false_negative s + of_bool (include \<and> lr_is_fraud l)"
  "evaluated_events (note_missing include eid l s) = evaluated_events s + of_bool include"
  "excluded_replay_rejected (note_missing include eid l s) = excluded_replay_rejected s"
  "missing_results (note_missing include eid l s) = Suc (missing_results s)"
  "missing_fraud_labels (note_missing include eid l s) = missing_fraud_labels s + of_bool (lr_is_fraud l)"
  "missing_non_fraud_labels (note_missing include eid l s) = missing_non_fraud_labels s + of_bool (\<not> lr_is_fraud l)"
  "review_candidate_events (note_missing include eid l s) = review_candidate_events s"
  "blocked_candidate_events (note_missing include eid l s) = blocked_candidate_events s"
  "with_risk_score (note_missing include eid l s) = with_risk_score s"
  "without_risk_score (note_missing include eid l s) = without_risk_score s"
  "with_rule_version (note_missing include eid l s) = with_rule_version s"
  "without_rule_version (note_missing include eid l s) = without_rule_version s"
  "total_labels (note_missing include eid l s) = total_labels s"
  "total_results (note_missing include eid l s) = total_results s"
  "matched_results (note_missing include eid l s) = matched_results s"
  "unmatched_results (note_missing include eid l s) = unmatched_results s"
  "total_fraud_labels (note_missing include eid l s) = total_fraud_labels s"
  "total_non_fraud_labels (note_missing include eid l s) = total_non_fraud_labels s"
  "rule_versions (note_missing include eid l s) = rule_versions s"
  by (simp_all add: note_missing_def Let_def)

lemma note_matched_counts [simp]:
  "true_positive (note_matched p eid l r s) = true_positive s + of_bool (lr_is_fraud l \<and> is_predicted_positive r p)"
  "false_positive (note_matched p eid l r s) = false_positive s + of_bool (\<not> lr_is_fraud l \<and> is_predicted_positive r p)"
  "true_negative (note_matched p eid l r s) = true_negative s + of_bool (\<not> lr_is_fraud l \<and> \<not> is_predicted_positive r p)"
  "false_negative (note_matched p eid l r s) = false_negative s + of_bool (lr_is_fraud l \<and> \<not> is_predicted_positive r p)"
  "evaluated_events (note_matched p eid l r s) = Suc (evaluated_events s)"
  "excluded_replay_rejected (note_matched p eid l r s) = excluded_replay_rejected s"
  "missing_results (note_matched p eid l r s) = missing_results s"
  "missing_fraud_labels (note_matched p eid l r s) = missing_fraud_labels s"
  "missing_non_fraud_labels (note_matched p eid l r s) = missing_non_fraud_labels s"
  "review_candidate_events (note_matched p eid l r s) = review_candidate_events s + of_bool (action_decision_for r p \<in> {''REVIEW'', ''BLOCK''})"
  "blocked_candidate_events (note_matched p eid l r s) = blocked_candidate_events s + of_bool (action_decision_for r p = ''BLOCK'')"
  "with_risk_score (note_matched p eid l r s) = with_risk_score s + of_bool (dr_risk_score r \<noteq> None)"
  "without_risk_score (note_matched p eid l r s) = without_risk_score s + of_bool (dr_risk_score r = None)"
  "with_rule_version (note_matched p eid l r s) = with_rule_version s + of_bool (dr_rule_version r \<noteq> None)"
  "without_rule_version (note_matched p eid l r s) = without_rule_version s + of_bool (dr_rule_version r = None)"
  "total_labels (note_matched p eid l r s) = total_labels s"
  "total_results (note_matched p eid l r s) = total_results s"
  "matched_results (note_matched p eid l r s) = matched_results s"
  "unmatched_results (note_matched p eid l r s) = unmatched_results s"
  "total_fraud_labels (note_matched p eid l r s) = total_fraud_labels s"
  "total_non_fraud_labels (note_matched p eid l r s) = total_non_fraud_labels s"
  "rule_versions (note_matched p eid l r s) = (case dr_rule_version r of None \<Rightarrow> rule_versions s | Some v \<Rightarrow> cinc v (rule_versions s))"
  by (simp_all add: note_matched_def Let_def split: option.split)

definition fraud_id :: "(string \<times> label_row) list \<Rightarrow> string \<Rightarrow> bool" where
  "fraud_id labels eid = lr_is_fraud (the (map_of labels eid))"

definition counted :: "bool \<Rightarrow> string list \<Rightarrow> (string \<times> detection_result) list \<Rightarrow> string \<Rightarrow> bool" where
  "counted include rejected results eid \<longleftrightarrow> decided rejected results (\<lambda>_. True) eid
     \<or> include \<and> lacks_result rejected results eid"

lemmas label_class_defs = decided_def deciding_def lacks_result_def counted_def fraud_id_def

lemma evaluate_label_matrix:
  "true_positive (evaluate_label labels results rejected p include eid s) = true_positive s +
     of_bool (fraud_id labels eid \<and> decided rejected results (\<lambda>r. is_predicted_positive r p) eid)"
  "false_positive (evaluate_label labels results rejected p include eid s) = false_positive s +
     of_bool (\<not> fraud_id labels eid \<and> decided rejected results (\<lambda>r. is_predicted_positive r p) eid)"
  "false_negative (evaluate_label labels results rejected p include eid s) = false_negative s +
     of_bool (fraud_id labels eid \<and> (decided rejected results (\<lambda>r. \<not> is_predicted_positive r p) eid
        \<or> include \<and> lacks_result rejected results eid))"
  "true_negative (evaluate_label labels results rejected p include eid s) = true_negative s +
     of_bool (\<not> fraud_id labels eid \<and> (decided rejected results (\<lambda>r. \<not> is_predicted_positive r p) eid
        \<or> include \<and> lacks_result rejected results eid))"
  "evaluated_events (evaluate_label labels results rejected p include eid s) = evaluated_events s +
     of_bool (counted include rejected results eid)"
  "excluded_replay_rejected (evaluate_label labels results rejected p include eid s) = excluded_replay_rejected s +
     of_bool (eid \<in> set rejected)"
  by (auto simp: evaluate_label_def Let_def label_class_defs split: option.split)

lemma evaluate_label_workload:
  "missing_results (evaluate_label labels results rejected p include eid s) = missing_results s +
     of_bool (lacks_result rejected results eid)"
  "missing_fraud_labels (evaluate_label labels results rejected p include eid s) = missing_fraud_labels s +
     of_bool (fraud_id labels eid \<and> lacks_result rejected results eid)"
  "missing_non_fraud_labels (evaluate_label labels results rejected p include eid s) = missing_non_fraud_labels s +
     of_bool (\<not> fraud_id labels eid \<and> lacks_result rejected results eid)"
  "review_candidate_events (evaluate_label labels results rejected p include eid s) = review_candidate_events s +
     of_bool (decided rejected results (\<lambda>r. action_decision_for r p \<in> {''REVIEW'', ''BLOCK''}) eid)"
  "blocked_candidate_events (evaluate_label labels results rejected p include eid s) = blocked_candidate_events s +
     of_bool (decided rejected results (\<lambda>r. action_decision_for r p = ''BLOCK'') eid)"
  "with_risk_score (evaluate_label labels results rejected p include eid s) = with_risk_score s +
     of_bool (decided rejected results (\<lambda>r. dr_risk_score r \<noteq> None) eid)"
  "without_risk_score (evaluate_label labels results rejected p include eid s) = without_risk_score s +
     of_bool (decided rejected results (\<lambda>r. dr_risk_score r = None) eid)"
  "with_rule_version (evaluate_label labels results rejected p include eid s) = with_rule_version s +
     of_bool (decided rejected results (\<lambda>r. dr_rule_version r \<noteq> None) eid)"
  "without_rule_version (evaluate_label labels results rejected p include eid s) = without_rule_version s +
     of_bool (decided rejected results (\<lambda>r. dr_rule_version r = None) eid)"
  by (auto simp: evaluate_label_def Let_def label_class_defs split: option.split)

lemma evaluate_label_totals:
  "total_labels (evaluate_label labels results rejected p include eid s) = total_labels s"
  "total_results (evaluate_label labels results rejected p include eid s) = total_results s"
  "matched_results (evaluate_label labels results rejected p include eid s) = matched_results s"
  "unmatched_results (evaluate_label labels results rejected p include eid s) = unmatched_results s"
  "total_fraud_labels (evaluate_label labels results rejected p include eid s) = total_fraud_labels s"
  "total_non_fraud_labels (evaluate_label labels results rejected p include eid s) = total_non_fraud_labels s"
  by (auto simp: evaluate_label_def Let_def split: option.split)

lemma fold_keeps: "(\<And>x s. f (g x s) = f s) \<Longrightarrow> f (fold g xs s) = f s"
  by (induction xs arbitrary: s) auto

section \<open>The totals of a run\<close>

text \<open>The counters of a run, as numbers of labels; \<open>count_ids P\<close> counts the label ids.\<close>

definition count_ids :: "(string \<times> label_row) list \<Rightarrow> (string \<Rightarrow> bool) \<Rightarrow> nat" where
  "count_ids labels P = length (filter P (map fst labels))"

lemma run_counts:
  assumes "\<And>eid s. f (evaluate_label labels results rejected p include eid s) = f s + of_bool (P eid)"
  shows "f (evaluate_rows labels results rejected p include) = f (initial_eval_stats labels results) + count_ids labels P"
  unfolding evaluate_rows_def count_ids_def by (simp add: fold_adds [where P = P] assms length_filter_sort)

lemmas initial_defs = initial_eval_stats_def zero_eval_stats_def

lemma run_counts0:
  assumes "\<And>eid s. f (evaluate_label labels results rejected p include eid s) = f s + of_bool (P eid)"
    and "f (initial_eval_stats labels results) = 0"
  shows "f (evaluate_rows labels results rejected p include) = count_ids labels P"
  using run_counts [of f, OF assms(1)] assms(2) by simp

lemma matrix_counts:
  "true_positive (evaluate_rows labels results rejected p include)
     = count_ids labels (\<lambda>e. fraud_id labels e \<and> decided rejected results (\<lambda>r. is_predicted_positive r p) e)"
  "false_positive (evaluate_rows labels results rejected p include)
     = count_ids labels (\<lambda>e. \<not> fraud_id labels e \<and> decided rejected results (\<lambda>r. is_predicted_positive r p) e)"
  "false_negative (evaluate_rows labels results rejected p include)
     = count_ids labels (\<lambda>e. fraud_id labels e \<and> (decided rejected results (\<lambda>r. \<not> is_predicted_positive r p) e
         \<or> include \<and> lacks_result rejected results e))"
  "true_negative (evaluate_rows labels results rejected p include)
     = count_ids labels (\<lambda>e. \<not> fraud_id labels e \<and> (decided rejected results (\<lambda>r. \<not> is_predicted_positive r p) e
         \<or> include \<and> lacks_result rejected results e))"
  "evaluated_events (evaluate_rows labels results rejected p include) = count_ids labels (counted include rejected results)"
  "excluded_replay_rejected (evaluate_rows labels results rejected p include) = count_ids labels (\<lambda>e. e \<in> set rejected)"
  by (rule run_counts0, rule evaluate_label_matrix, simp add: initial_defs)+

lemma workload_counts:
  "missing_results (evaluate_rows labels results rejected p include) = count_ids labels (lacks_result rejected results)"
  "missing_fraud_labels (evaluate_rows labels results rejected p include)
     = count_ids labels (\<lambda>e. fraud_id labels e \<and> lacks_result rejected results e)"
  "missing_non_fraud_labels (evaluate_rows labels results rejected p include)
     = count_ids labels (\<lambda>e. \<not> fraud_id labels e \<and> lacks_result rejected results e)"
  "review_candidate_events (evaluate_rows labels results rejected p include)
     = count_ids labels (decided rejected results (\<lambda>r. action_decision_for r p \<in> {''REVIEW'', ''BLOCK''}))"
  "blocked_candidate_events (evaluate_rows labels results rejected p include)
     = count_ids labels (decided rejected results (\<lambda>r. action_decision_for r p = ''BLOCK''))"
  "with_risk_score (evaluate_rows labels results rejected p include)
     = count_ids labels (decided rejected results (\<lambda>r. dr_risk_score r \<noteq> None))"
  "without_risk_score (evaluate_rows labels results rejected p include)
     = count_ids labels (decided rejected results (\<lambda>r. dr_risk_score r = None))"
  "with_rule_version (evaluate_rows labels results rejected p include)
     = count_ids labels (decided rejected results (\<lambda>r. dr_rule_version r \<noteq> None))"
  "without_rule_version (evaluate_rows labels results rejected p include)
     = count_ids labels (decided rejected results (\<lambda>r. dr_rule_version r = None))"
  by (rule run_counts0, rule evaluate_label_workload, simp add: initial_defs)+

lemma total_counts:
  assumes "distinct (map fst labels)"
  shows "total_labels (evaluate_rows labels results rejected p include) = count_ids labels (\<lambda>_. True)"
    "total_fraud_labels (evaluate_rows labels results rejected p include) = count_ids labels (fraud_id labels)"
    "total_non_fraud_labels (evaluate_rows labels results rejected p include) = count_ids labels (\<lambda>e. \<not> fraud_id labels e)"
    "matched_results (evaluate_rows labels results rejected p include) = count_ids labels (\<lambda>k. map_of results k \<noteq> None)"
proof -
  have id: "fraud_id labels k = lr_is_fraud l" if "(k, l) \<in> set labels" for k l
    using that assms by (simp add: fraud_id_def)
  have cnt: "length (filter (\<lambda>(_, l). Q (lr_is_fraud l)) labels) = count_ids labels (\<lambda>e. Q (fraud_id labels e))" for Q
    unfolding count_ids_def by (simp add: filter_map o_def) (rule arg_cong [where f = length], rule filter_cong, auto simp: id)
  show "total_labels (evaluate_rows labels results rejected p include) = count_ids labels (\<lambda>_. True)"
    "total_fraud_labels (evaluate_rows labels results rejected p include) = count_ids labels (fraud_id labels)"
    "total_non_fraud_labels (evaluate_rows labels results rejected p include) = count_ids labels (\<lambda>e. \<not> fraud_id labels e)"
    "matched_results (evaluate_rows labels results rejected p include) = count_ids labels (\<lambda>k. map_of results k \<noteq> None)"
    unfolding evaluate_rows_def
    using cnt [of "\<lambda>b. b"] cnt [of Not]
    by (simp_all add: fold_keeps [of total_labels, OF evaluate_label_totals(1)]
        fold_keeps [of total_fraud_labels, OF evaluate_label_totals(5)]
        fold_keeps [of total_non_fraud_labels, OF evaluate_label_totals(6)]
        fold_keeps [of matched_results, OF evaluate_label_totals(3)] initial_defs)
       (simp_all add: count_ids_def)
qed

text \<open>Counting over a partition.\<close>

lemma count_ids_cong: "(\<And>e. e \<in> fst ` set labels \<Longrightarrow> P e = Q e) \<Longrightarrow> count_ids labels P = count_ids labels Q"
  unfolding count_ids_def by (rule arg_cong [where f = length], rule filter_cong) auto

lemma count_ids_split: "count_ids labels P = count_ids labels (\<lambda>e. P e \<and> Q e) + count_ids labels (\<lambda>e. P e \<and> \<not> Q e)"
  unfolding count_ids_def by (induction labels) auto

lemma count_ids_add:
  "(\<And>e. \<not> (P e \<and> Q e)) \<Longrightarrow> count_ids labels P + count_ids labels Q = count_ids labels (\<lambda>e. P e \<or> Q e)"
  unfolding count_ids_def by (induction labels) auto

lemma count_ids_classes:
  assumes "\<And>e. of_bool (P e) = (\<Sum>Q\<leftarrow>Qs. (of_bool (Q e) :: nat))"
  shows "count_ids labels P = (\<Sum>Q\<leftarrow>Qs. count_ids labels Q)"
proof -
  have c: "count_ids labels P = (\<Sum>x\<leftarrow>labels. of_bool (P (fst x)))" for P
    unfolding count_ids_def by (induction labels) auto
  show ?thesis unfolding c assms by (induction Qs) (simp_all add: sum_list_addf)
qed

lemma count_ids_False [simp]: "count_ids labels (\<lambda>_. False) = 0"
  by (simp add: count_ids_def)

lemma count_ids_mono: "(\<And>e. P e \<Longrightarrow> Q e) \<Longrightarrow> count_ids labels P \<le> count_ids labels Q"
  unfolding count_ids_def by (induction labels) auto

lemma decided_cases:
  "counted include rejected results e \<longleftrightarrow> decided rejected results Q e \<or> decided rejected results (\<lambda>r. \<not> Q r) e
     \<or> include \<and> lacks_result rejected results e"
  by (auto simp: label_class_defs split: option.splits if_splits)

lemma decided_excl:
  "\<not> (decided rejected results Q e \<and> decided rejected results (\<lambda>r. \<not> Q r) e)"
  "\<not> (decided rejected results Q e \<and> lacks_result rejected results e)"
  "e \<in> set rejected \<Longrightarrow> \<not> decided rejected results Q e \<and> \<not> lacks_result rejected results e"
  by (auto simp: label_class_defs split: option.splits)

lemma decided_mono: "(\<And>r. Q r \<Longrightarrow> Q' r) \<Longrightarrow> decided rejected results Q e \<Longrightarrow> decided rejected results Q' e"
  by (auto simp: label_class_defs split: option.splits if_splits)

section \<open>Rule versions and samples\<close>

lemma evaluate_label_versions:
  "cget (rule_versions (evaluate_label labels results rejected p include eid s)) v = cget (rule_versions s) v +
     of_bool (decided rejected results (\<lambda>r. dr_rule_version r = Some v) eid)"
  by (auto simp: evaluate_label_def Let_def label_class_defs counter_simps split: option.split)

lemma version_counts:
  "cget (rule_versions (evaluate_rows labels results rejected p include)) v
     = count_ids labels (decided rejected results (\<lambda>r. dr_rule_version r = Some v))"
  by (rule run_counts0 [where f = "\<lambda>s. cget (rule_versions s) v"], rule evaluate_label_versions)
     (simp add: initial_defs cget_def)

lemma evaluate_label_samples:
  "eval_sample_ids (evaluate_label labels results rejected p include eid s) =
     (if counted include rejected results eid \<and> length (eval_sample_ids s) < EVAL_MAX_SAMPLES
      then eval_sample_ids s @ [eid] else eval_sample_ids s)"
  by (auto simp: evaluate_label_def note_excluded_label_def note_missing_def note_matched_def note_types_def
      note_coverage_def note_decision_def note_matrix_def add_eval_sample_def Let_def label_class_defs
      split: option.split)

lemma fold_samples:
  assumes "\<And>x s. f (g x s) = (if P x \<and> length (f s) < n then f s @ [x] else f s)" and "length (f s) \<le> n"
  shows "f (fold g xs s) = f s @ take (n - length (f s)) (filter P xs)"
  using assms(2)
proof (induction xs arbitrary: s)
  case (Cons x xs)
  have "length (f (g x s)) \<le> n" using Cons.prems by (simp add: assms(1))
  note IH = Cons.IH [OF this]
  have "n - length (f s) = Suc k \<Longrightarrow> n - Suc (length (f s)) = k" for k by simp
  with IH Cons.prems show ?case
    by (cases "n - length (f s)") (auto simp: assms(1))
qed simp

section \<open>Exceptions\<close>

definition eval_exn :: "exn \<Rightarrow> bool" where
  "eval_exn x \<longleftrightarrow> (\<exists>m. x = FileNotFoundError m) \<or> (\<exists>m. x = EvaluationError m) \<or> x = TypeError \<or> x = OverflowError"

lemma eval_exn_simps [simp]:
  "eval_exn (FileNotFoundError m)" "eval_exn (EvaluationError m)" "eval_exn TypeError" "eval_exn OverflowError"
  by (simp_all add: eval_exn_def)

lemma eval_items_exn: "Inl y \<in> set (eval_items loads path ls) \<Longrightarrow> eval_exn y"
  unfolding eval_items_def by (fastforce dest: jsonl_items_exn)

lemma eval_scan_exn: "pred_option eval_exn (eval_scan_forbidden v source forbidden)"
proof -
  have "eval_scan_forbidden v source forbidden = Some x \<Longrightarrow> eval_exn x" for x
    unfolding eval_scan_forbidden_def
    by (rule scan_json_Some(1) [where P = eval_exn]) (auto simp: eval_forbidden_key_def)
  then show ?thesis by (simp add: pred_option_def)
qed

lemma label_checks_exn: "pred_option eval_exn (label_checks path strict n row)"
  unfolding label_checks_def Let_def by (rule first_fail_pred) (simp add: eval_scan_exn)

lemma result_checks_exn: "pred_option eval_exn (result_checks path n row)"
  unfolding result_checks_def Let_def by (rule first_fail_pred) (simp add: eval_scan_exn)

lemma extract_exn:
  "extract_risk_score row = Inl x \<Longrightarrow> eval_exn x" "extract_rule_codes row = Inl x \<Longrightarrow> eval_exn x"
  "extract_rule_version row expected src = Inl x \<Longrightarrow> eval_exn x"
  by (auto simp: extract_risk_score_def extract_rule_codes_def extract_rule_version_def py_float_def float_of_int_def Let_def
      split: if_splits json.splits sum.splits exn.splits option.splits)

lemma add_label_exn: "add_label path strict d n row = Inl x \<Longrightarrow> eval_exn x"
  using label_checks_exn [of path strict n row]
  by (auto simp: add_label_def check_then_def Let_def split: option.splits if_splits)

lemma add_result_exn: "add_result path prefix expected d n row = Inl x \<Longrightarrow> eval_exn x"
  using result_checks_exn [of path n row]
  by (auto simp: add_result_def check_then_def bind_res_def Let_def extract_exn split: option.splits if_splits sum.splits)

lemma load_replay_report_exn: "load_replay_report env path = Inl x \<Longrightarrow> eval_exn x"
  using eval_scan_exn
  by (fastforce simp: load_replay_report_def check_then_def pred_option_def split: option.splits json.splits)

lemma payload_rejected_exn: "replay_payload_rejected_count report = Inl x \<Longrightarrow> eval_exn x"
  by (auto simp: replay_payload_rejected_count_def py_int_def Let_def
      split: if_splits json.splits sum.splits exn.splits option.splits pyfloat.splits)

lemma validate_eval_args_exn: "pred_option eval_exn (validate_eval_args env a)"
  unfolding validate_eval_args_def
  by (rule first_fail_pred)
     (auto simp: threshold_policy_for_def validate_rule_version_def as_evaluation_error_def raise_if_def
       split: option.splits sum.splits)

lemma evaluate_exn:
  assumes "evaluate env a = Inl x"
  shows "eval_exn x"
proof (cases "validate_eval_args env a")
  case (Some y)
  then show ?thesis using assms validate_eval_args_exn [of env a] by (simp add: evaluate_def)
next
  case None
  then have pol: "\<not> isl (threshold_policy_for (ea_threshold_version a))"
    by (auto simp: validate_eval_args_def first_fail_None_iff split: sum.splits)
  have "eval_exn y" if "load_inputs env a = Inl y" for y
    using that pol unfolding load_inputs_def load_labels_def load_results_def
    by (auto simp: bind_res_def Let_def split: sum.splits
        intro: load_replay_report_exn payload_rejected_exn
          for_items_exn [where P = eval_exn, OF _ eval_items_exn add_label_exn]
          for_items_exn [where P = eval_exn, OF _ eval_items_exn add_result_exn])
  with None assms show ?thesis
    by (auto simp: evaluate_def Let_def bind_res_def split: sum.splits if_splits)
qed

end
