(* ===== verification/EvaluateProperties.thy ===== *)
theory EvaluateProperties
  imports EvaluateCorrect
begin

text \<open>
  The properties of the evaluation: the confusion matrix as counts over the labels, the accounting
  identities, what the thresholds decide, the range of the metrics, what a loaded file is, and the
  ways the evaluation can fail.
\<close>

section \<open>Concrete inputs\<close>

definition demo_label :: "bool \<Rightarrow> string \<Rightarrow> label_row" where
  "demo_label b eid = \<lparr>lr_event_id = eid, lr_is_fraud = b, lr_source_type = Some ''TRANSFER''\<rparr>"

definition demo_labels :: "(string \<times> label_row) list" where
  "demo_labels = map (\<lambda>(eid, b). (eid, demo_label b eid))
     [(''e4'', True), (''e1'', True), (''e2'', False), (''e3'', False), (''e5'', True)]"

definition demo_result :: "string \<Rightarrow> string \<Rightarrow> pyfloat option \<Rightarrow> detection_result" where
  "demo_result eid level score = \<lparr>dr_event_id = eid, dr_normalized_event_id = eid, dr_risk_level = level,
     dr_risk_score = score, dr_rule_version = Some RULE_VERSION, dr_rule_codes = [''R1'']\<rparr>"

definition demo_results :: "(string \<times> detection_result) list" where
  "demo_results = [(''e1'', demo_result ''e1'' ''HIGH'' (Some (Fin 60))), (''e2'', demo_result ''e2'' ''MEDIUM'' None),
     (''e4'', demo_result ''e4'' ''LOW'' None), (''e9'', demo_result ''e9'' ''LOW'' None)]"

lemma demo_labels_distinct: "distinct (map fst demo_labels)"
  by (simp add: demo_labels_def)

section \<open>The matrix and the accounts\<close>

text \<open>C4: the confusion matrix is exact: each cell is the number of label ids of that class whose event was
  not rejected by the replay and whose result is or is not predicted positive; where missing results
  are included, a label without a result counts as predicted negative. The order of the files plays
  no role.\<close>

theorem confusion_matrix_exact:
  "true_positive (evaluate_rows labels results rejected p include)
     = count_ids labels (\<lambda>e. fraud_id labels e \<and> decided rejected results (\<lambda>r. is_predicted_positive r p) e)
   \<and> false_positive (evaluate_rows labels results rejected p include)
     = count_ids labels (\<lambda>e. \<not> fraud_id labels e \<and> decided rejected results (\<lambda>r. is_predicted_positive r p) e)
   \<and> false_negative (evaluate_rows labels results rejected p include)
     = count_ids labels (\<lambda>e. fraud_id labels e \<and> (decided rejected results (\<lambda>r. \<not> is_predicted_positive r p) e
         \<or> include \<and> lacks_result rejected results e))
   \<and> true_negative (evaluate_rows labels results rejected p include)
     = count_ids labels (\<lambda>e. \<not> fraud_id labels e \<and> (decided rejected results (\<lambda>r. \<not> is_predicted_positive r p) e
         \<or> include \<and> lacks_result rejected results e))"
  by (simp add: matrix_counts)

lemma matrix_accounts:
  fixes labels :: "(string \<times> label_row) list"
  shows "let s = evaluate_rows labels results rejected p include in
    evaluated_events s = true_positive s + false_positive s + true_negative s + false_negative s
    \<and> missing_results s = missing_fraud_labels s + missing_non_fraud_labels s
    \<and> with_risk_score s + without_risk_score s = evaluated_events s - (if include then missing_results s else 0)
    \<and> with_rule_version s + without_rule_version s = with_risk_score s + without_risk_score s
    \<and> blocked_candidate_events s \<le> review_candidate_events s \<and> review_candidate_events s \<le> evaluated_events s"
proof -
  let ?c = "count_ids labels" and ?d = "decided rejected results" and ?l = "lacks_result rejected results"
  have ev: "?c (counted include rejected results) = (\<Sum>Q\<leftarrow>[?d (\<lambda>_. True), \<lambda>e. include \<and> ?l e]. ?c Q)"
    by (rule count_ids_classes) (simp add: label_class_defs split: option.split)
  have cells: "?c (counted include rejected results)
      = (\<Sum>Q\<leftarrow>[\<lambda>e. fraud_id labels e \<and> ?d (\<lambda>r. is_predicted_positive r p) e,
        \<lambda>e. \<not> fraud_id labels e \<and> ?d (\<lambda>r. is_predicted_positive r p) e,
        \<lambda>e. \<not> fraud_id labels e \<and> (?d (\<lambda>r. \<not> is_predicted_positive r p) e \<or> include \<and> ?l e),
        \<lambda>e. fraud_id labels e \<and> (?d (\<lambda>r. \<not> is_predicted_positive r p) e \<or> include \<and> ?l e)]. ?c Q)"
    by (rule count_ids_classes) (auto simp: decided_def deciding_def lacks_result_def counted_def split: option.split)
  have two: "?c (?d (\<lambda>_. True)) = (\<Sum>Q\<leftarrow>[?d Q, ?d (\<lambda>r. \<not> Q r)]. ?c Q)" for Q
    by (rule count_ids_classes) (simp add: label_class_defs split: option.split)
  have le: "?c (?d (\<lambda>r. action_decision_for r p = ''BLOCK'')) \<le> ?c (?d (\<lambda>r. action_decision_for r p \<in> {''REVIEW'', ''BLOCK''}))"
    "?c (?d (\<lambda>r. action_decision_for r p \<in> {''REVIEW'', ''BLOCK''})) \<le> ?c (?d (\<lambda>_. True))"
    by (rule count_ids_mono, erule decided_mono [rotated], simp)+
  show ?thesis
    unfolding Let_def matrix_counts workload_counts
    using ev cells le two [of "\<lambda>r. dr_risk_score r \<noteq> None"] two [of "\<lambda>r. dr_rule_version r \<noteq> None"]
      count_ids_split [of labels "?l" "fraud_id labels"]
    by (auto simp: conj_commute)
qed

text \<open>C16: nothing is lost in a run over distinct labels: every label is evaluated, excluded as rejected, or
  missing its result (and then evaluated only if missing results are included); the four cells add up
  to the evaluated events; the coverage counts add up to the events that have a result; and the
  blocked candidates are review candidates.\<close>

theorem evaluation_accounts:
  assumes "distinct (map fst labels)"
  shows "let s = evaluate_rows labels results rejected p include in
    total_labels s = evaluated_events s + excluded_replay_rejected s + (if include then 0 else missing_results s)
    \<and> evaluated_events s = true_positive s + false_positive s + true_negative s + false_negative s
    \<and> total_labels s = total_fraud_labels s + total_non_fraud_labels s
    \<and> missing_results s = missing_fraud_labels s + missing_non_fraud_labels s
    \<and> with_risk_score s + without_risk_score s = evaluated_events s - (if include then missing_results s else 0)
    \<and> with_rule_version s + without_rule_version s = with_risk_score s + without_risk_score s
    \<and> blocked_candidate_events s \<le> review_candidate_events s \<and> review_candidate_events s \<le> evaluated_events s"
proof -
  let ?c = "count_ids labels" and ?d = "decided rejected results" and ?l = "lacks_result rejected results"
  have parts: "?c (\<lambda>_. True) = (\<Sum>Q\<leftarrow>[?d (\<lambda>_. True), ?l, \<lambda>e. e \<in> set rejected]. ?c Q)"
    by (rule count_ids_classes) (simp add: label_class_defs split: option.split)
  have ev: "?c (counted include rejected results) = (\<Sum>Q\<leftarrow>[?d (\<lambda>_. True), \<lambda>e. include \<and> ?l e]. ?c Q)"
    by (rule count_ids_classes) (simp add: label_class_defs split: option.split)
  show ?thesis
    using matrix_accounts [of labels results rejected p "include"] parts ev count_ids_split [of labels "\<lambda>_. True" "fraud_id labels"]
    unfolding Let_def total_counts [OF assms] matrix_counts(5,6) workload_counts(1) by auto
qed

lemma evaluation_accounts_witness:
  "let s = evaluate_rows demo_labels demo_results [''e3''] threshold_v1 True in
    total_labels s = evaluated_events s + excluded_replay_rejected s
    \<and> evaluated_events s = true_positive s + false_positive s + true_negative s + false_negative s"
  using evaluation_accounts [OF demo_labels_distinct, of demo_results "[''e3'']" threshold_v1 True]
  by (simp add: Let_def)

section \<open>Thresholds\<close>

text \<open>C23: the two decisions of a policy agree: for either published policy and any risk level of the
  contract, a result is predicted positive exactly when its action is to review or to block. So the
  candidates for review are the positive predictions.\<close>

theorem positive_iff_action:
  assumes "threshold_policy_for v = Inr p" and "dr_risk_level r \<in> set RISK_LEVELS"
  shows "is_predicted_positive r p \<longleftrightarrow> action_decision_for r p \<in> {''REVIEW'', ''BLOCK''}"
proof -
  have "fle (Fin 80) x \<Longrightarrow> fle (Fin 50) x" "fle (Fin 90) x \<Longrightarrow> fle (Fin 70) x" for x
    by (cases x; auto simp: fle_def)+
  moreover have "dr_risk_level r \<in> {''LOW'', ''MEDIUM'', ''HIGH'', ''CRITICAL''}"
    using assms(2) by (simp add: RISK_LEVELS_def)
  moreover have rank: "RISK_RANK ''LOW'' = 0" "RISK_RANK ''MEDIUM'' = 1" "RISK_RANK ''HIGH'' = 2" "RISK_RANK ''CRITICAL'' = 3"
    by (simp_all add: RISK_RANK_def RISK_LEVELS_def)
  ultimately show ?thesis
    using assms(1)
    by (elim threshold_policy_for_cases; cases "dr_risk_score r")
       (auto simp: is_predicted_positive_def action_decision_for_def threshold_v1_def threshold_strict_v1_def)
qed

lemma positive_iff_action_witness:
  "is_predicted_positive (demo_result ''e1'' ''HIGH'' None) threshold_strict_v1
     \<longleftrightarrow> action_decision_for (demo_result ''e1'' ''HIGH'' None) threshold_strict_v1 \<in> {''REVIEW'', ''BLOCK''}"
proof (rule positive_iff_action)
  show "threshold_policy_for ''threshold-strict-v1'' = Inr threshold_strict_v1"
    by (simp add: threshold_policy_for_def THRESHOLD_POLICIES_def)
  show "dr_risk_level (demo_result ''e1'' ''HIGH'' None) \<in> set RISK_LEVELS"
    by (simp add: demo_result_def RISK_LEVELS_def)
qed

text \<open>C24: the strict policy is stricter: on the same labels and results it never has more true positives,
  false positives, review candidates or blocked candidates than the default policy, and it evaluates
  the same events.\<close>

theorem strict_policy_is_stricter:
  assumes "\<forall>(k, r) \<in> set results. dr_risk_level r \<in> set RISK_LEVELS"
  shows "let s = evaluate_rows labels results rejected threshold_v1 include;
             t = evaluate_rows labels results rejected threshold_strict_v1 include in
    evaluated_events t = evaluated_events s \<and> true_positive t \<le> true_positive s \<and> false_positive t \<le> false_positive s
    \<and> review_candidate_events t \<le> review_candidate_events s \<and> blocked_candidate_events t \<le> blocked_candidate_events s"
proof -
  have level: "dr_risk_level r \<in> {''LOW'', ''MEDIUM'', ''HIGH'', ''CRITICAL''}" if "map_of results e = Some r" for e r
    using map_of_SomeD [OF that] assms by (auto simp: RISK_LEVELS_def)
  have rank: "RISK_RANK ''LOW'' = 0" "RISK_RANK ''MEDIUM'' = 1" "RISK_RANK ''HIGH'' = 2" "RISK_RANK ''CRITICAL'' = 3"
    by (simp_all add: RISK_RANK_def RISK_LEVELS_def)
  have score: "fle (Fin 70) x \<Longrightarrow> fle (Fin 50) x" "fle (Fin 90) x \<Longrightarrow> fle (Fin 80) x" "fle (Fin 90) x \<Longrightarrow> fle (Fin 50) x" for x
    by (cases x; auto simp: fle_def)+
  have pos: "is_predicted_positive r threshold_strict_v1 \<Longrightarrow> is_predicted_positive r threshold_v1"
    and block: "action_decision_for r threshold_strict_v1 = ''BLOCK'' \<Longrightarrow> action_decision_for r threshold_v1 = ''BLOCK''"
    and review: "action_decision_for r threshold_strict_v1 \<in> {''REVIEW'', ''BLOCK''}
       \<Longrightarrow> action_decision_for r threshold_v1 \<in> {''REVIEW'', ''BLOCK''}"
    if "dr_risk_level r \<in> {''LOW'', ''MEDIUM'', ''HIGH'', ''CRITICAL''}" for r
    using that rank score
    by (auto simp: is_predicted_positive_def action_decision_for_def threshold_v1_def threshold_strict_v1_def
        split: option.splits if_splits)
  have mono: "count_ids labels (\<lambda>e. A e \<and> decided rejected results Q e) \<le> count_ids labels (\<lambda>e. A e \<and> decided rejected results Q' e)"
    if "\<And>r. dr_risk_level r \<in> {''LOW'', ''MEDIUM'', ''HIGH'', ''CRITICAL''} \<Longrightarrow> Q r \<Longrightarrow> Q' r" for A Q Q'
    by (rule count_ids_mono) (use that level in \<open>auto simp: decided_def deciding_def split: option.splits if_splits\<close>)
  show ?thesis
    unfolding Let_def matrix_counts workload_counts
    using mono [where Q = "\<lambda>r. is_predicted_positive r threshold_strict_v1", OF pos]
      mono [where A = "\<lambda>_. True", OF block, simplified] mono [where A = "\<lambda>_. True", OF review, simplified]
    by auto
qed

lemma strict_policy_is_stricter_witness:
  "true_positive (evaluate_rows demo_labels demo_results [] threshold_strict_v1 True)
     \<le> true_positive (evaluate_rows demo_labels demo_results [] threshold_v1 True)"
  using strict_policy_is_stricter [of demo_results demo_labels "[]" True]
  by (simp add: demo_results_def demo_result_def RISK_LEVELS_def Let_def)

text \<open>An accepted risk score is a number from 0 to 100, or it is NaN: the range check does not refuse
  NaN, and under every policy a result with that score is allowed and predicted negative, whatever
  its risk level.\<close>

theorem risk_score_range:
  assumes "extract_risk_score row = Inr (Some x)"
  shows "(\<exists>r. x = Fin r \<and> 0 \<le> r \<and> r \<le> 100) \<or>
    x = NaN \<and> (\<forall>p d. dr_risk_score d = Some x \<longrightarrow> \<not> is_predicted_positive d p \<and> action_decision_for d p = ''ALLOW'')"
proof -
  have "\<not> flt x (Fin 0) \<and> \<not> flt (Fin 100) x"
    using assms by (auto simp: extract_risk_score_def split: if_splits sum.splits exn.splits)
  then show ?thesis
    by (cases x) (auto simp: is_predicted_positive_def action_decision_for_def fle_def)
qed

lemma risk_score_range_witness:
  "extract_risk_score [(''riskScore'', JStr ''nan'')] = Inr (Some NaN)
   \<and> action_decision_for (demo_result ''e1'' ''CRITICAL'' (Some NaN)) threshold_v1 = ''ALLOW''"
proof -
  have "extract_risk_score [(''riskScore'', JStr ''nan'')] = Inr (Some NaN)" by code_simp
  with risk_score_range [OF this] show ?thesis by (simp add: demo_result_def)
qed

section \<open>Metrics\<close>

lemma safe_ratio_unit:
  assumes "n \<le> d"
  shows "safe_ratio n d = None \<or> (\<exists>x r. safe_ratio n d = Some (Fin r) \<and> 0 \<le> r \<and> r \<le> 1 \<and> to_double x = Fin r \<and> 0 \<le> x)"
proof (cases "d = 0")
  case False
  then have "(0 :: rat) \<le> of_nat n / of_nat d" "(of_nat n / of_nat d :: rat) \<le> 1" using assms by simp_all
  then obtain r where "to_double (of_nat n / of_nat d) = Fin r" "0 \<le> r" "r \<le> 1" by (rule to_double_unit)
  then show ?thesis using False by (auto simp: safe_ratio_def)
qed (simp add: safe_ratio_def)

definition unit_json :: "json \<Rightarrow> bool" where
  "unit_json v \<longleftrightarrow> v = JNull \<or> (\<exists>r. v = JFloat (Fin r) \<and> 0 \<le> r \<and> r \<le> 1)"

lemma ratio_unit_json: "n \<le> d \<Longrightarrow> unit_json (ratio_json (safe_ratio n d))"
  using safe_ratio_unit [of n d] by (auto simp: unit_json_def ratio_json_def)

text \<open>The F1 score stays in the unit interval through all four roundings: doubling is exact, the product
  rounds to at most the rounded sum, and the quotient of the two to at most one.\<close>

lemma f1_unit_json:
  assumes "a \<le> b" "c \<le> d"
  shows "unit_json (ratio_json (f1_score (safe_ratio a b) (safe_ratio c d)))"
proof -
  have none: "safe_ratio a b = None \<or> safe_ratio c d = None \<Longrightarrow> ?thesis"
    by (auto simp: f1_score_def unit_json_def ratio_json_def split: option.split)
  have "unit_json (ratio_json (f1_score (Some (Fin p)) (Some (Fin r))))"
    if p: "0 \<le> p" "p \<le> 1" "to_double x = Fin p" "0 \<le> x" and r: "0 \<le> r" "r \<le> 1" for p r x
  proof -
    obtain s where s: "to_double (p + r) = Fin s" "0 \<le> s" "s \<le> of_int 2"
      by (rule to_double_le [of "p + r" 2]) (use p r in auto)
    have twice: "to_double (2 * p) = Fin (2 * p)" by (rule to_double_twice [OF p(3,4,2)])
    have "p * r \<le> p" "p * r \<le> r" using p r mult_left_le [of r p] mult_left_le_one_le [of r p] by simp_all
    then have le: "2 * p * r \<le> p + r" by simp
    obtain t where t: "to_double (2 * p * r) = Fin t" "0 \<le> t" "t \<le> of_int 2"
      by (rule to_double_le [of "2 * p * r" 2]) (use p r le in \<open>auto simp: mult_le_one\<close>)
    have ts: "t \<le> s" using to_double_fin_mono [OF t(1) s(1)] p r le by simp
    show ?thesis
    proof (cases "s = 0")
      case True
      then show ?thesis using s(1) by (simp add: f1_score_def unit_json_def ratio_json_def)
    next
      case False
      then have "0 \<le> t / s" "t / s \<le> 1" using s(2) t(2) ts by simp_all
      then obtain q where "to_double (t / s) = Fin q" "0 \<le> q" "q \<le> 1" by (rule to_double_unit)
      then show ?thesis using s(1) t(1) twice False by (simp add: f1_score_def unit_json_def ratio_json_def)
    qed
  qed
  then show ?thesis
    using safe_ratio_unit [OF assms(1)] safe_ratio_unit [OF assms(2)] none by fastforce
qed

lemma evaluate_Inr:
  assumes "evaluate env a = Inr (s, rep)"
  obtains i where "validate_eval_args env a = None" "load_inputs env a = Inr i"
    "s = evaluate_rows (ei_labels i) (ei_results i) (ei_rejected i) (ei_policy i) (ea_include_missing_results a)"
    "rep = build_eval_report a (ei_policy i) (if used_report (ei_report i) then ea_replay_report a else None)
       (ei_prefix i) s (ei_payload_rejected i) (ei_rejected i) (ei_report i)
       (build_warnings [] s (ei_payload_rejected i) (ei_rejected i) (ea_include_missing_results a) (ei_policy i))
       (ev_started env) (ev_finished env)"
    "ea_require_rule_version a \<longrightarrow> without_rule_version s = 0"
  using assms by (auto simp: evaluate_def Let_def split: if_splits)

text \<open>C30: every rate and metric that an evaluation computes is null or a float from 0 to 1, rounding included: the six
  metrics, the shares of review and blocked candidates, also in the summary of the operators' workload, where they are
  the same, and the coverage rates of the risk scores and of the rule versions.\<close>

theorem metrics_in_unit_interval:
  assumes "evaluate env a = Inr (s, rep)"
  shows "(\<forall>(k, v) \<in> set (the_obj (jget rep ''metrics'')). unit_json v)
    \<and> unit_json (jget rep ''reviewCandidateRate'') \<and> unit_json (jget rep ''blockedCandidateRate'')
    \<and> (\<forall>k \<in> {''reviewCandidateRate'', ''blockedCandidateRate''}.
         jget (the_obj (jget rep ''operatorWorkloadSummary'')) k = jget rep k)
    \<and> (\<forall>k \<in> {''riskScoreCoverage'', ''ruleVersionCoverage''}. unit_json (jget (the_obj (jget rep k)) ''coverageRate''))
    \<and> map fst (the_obj (jget rep ''metrics'')) = [''precision'', ''recall'', ''f1Score'', ''falsePositiveRate'', ''falseNegativeRate'', ''accuracy'']"
proof -
  obtain i :: eval_inputs where s: "s = evaluate_rows (ei_labels i) (ei_results i) (ei_rejected i) (ei_policy i)
      (ea_include_missing_results a)" and "rep = build_eval_report a (ei_policy i)
       (if used_report (ei_report i) then ea_replay_report a else None)
       (ei_prefix i) s (ei_payload_rejected i) (ei_rejected i) (ei_report i)
       (build_warnings [] s (ei_payload_rejected i) (ei_rejected i) (ea_include_missing_results a) (ei_policy i))
       (ev_started env) (ev_finished env)"
    by (rule evaluate_Inr [OF assms])
  then have rep: "\<exists>p rp pre n rej rpt w t0 t1. rep = build_eval_report a p rp pre s n rej rpt w t0 t1" by blast
  have le: "blocked_candidate_events s \<le> evaluated_events s" "review_candidate_events s \<le> evaluated_events s"
    "true_positive s + true_negative s \<le> evaluated_events s"
    using matrix_accounts [of "ei_labels i" "ei_results i" "ei_rejected i" "ei_policy i" "ea_include_missing_results a"]
    unfolding s Let_def by linarith+
  from rep obtain p rp pre n rej rpt w t0 t1 where r: "rep = build_eval_report a p rp pre s n rej rpt w t0 t1" by blast
  have "jget rep ''reviewCandidateRate'' = ratio_json (safe_ratio (review_candidate_events s) (evaluated_events s))"
    "jget rep ''blockedCandidateRate'' = ratio_json (safe_ratio (blocked_candidate_events s) (evaluated_events s))"
    unfolding r build_eval_report_def Let_def by (simp_all only: jget_literal)
  moreover have "jget (the_obj (jget rep ''riskScoreCoverage'')) ''coverageRate''
      = ratio_json (safe_ratio (with_risk_score s) (with_risk_score s + without_risk_score s))"
    "jget (the_obj (jget rep ''ruleVersionCoverage'')) ''coverageRate''
      = ratio_json (safe_ratio (with_rule_version s) (with_rule_version s + without_rule_version s))"
    "jget (the_obj (jget rep ''operatorWorkloadSummary'')) ''reviewCandidateRate''
      = ratio_json (safe_ratio (review_candidate_events s) (evaluated_events s))"
    "jget (the_obj (jget rep ''operatorWorkloadSummary'')) ''blockedCandidateRate''
      = ratio_json (safe_ratio (blocked_candidate_events s) (evaluated_events s))"
    unfolding r build_eval_report_def Let_def by (simp_all only: jget_literal the_obj.simps)
  moreover have "jget rep ''metrics'' = JObj
      [(''precision'', ratio_json (safe_ratio (true_positive s) (true_positive s + false_positive s))),
       (''recall'', ratio_json (safe_ratio (true_positive s) (true_positive s + false_negative s))),
       (''f1Score'', ratio_json (f1_score (safe_ratio (true_positive s) (true_positive s + false_positive s))
          (safe_ratio (true_positive s) (true_positive s + false_negative s)))),
       (''falsePositiveRate'', ratio_json (safe_ratio (false_positive s) (false_positive s + true_negative s))),
       (''falseNegativeRate'', ratio_json (safe_ratio (false_negative s) (false_negative s + true_positive s))),
       (''accuracy'', ratio_json (safe_ratio (true_positive s + true_negative s) (evaluated_events s)))]"
    unfolding r build_eval_report_def Let_def by (simp only: jget_literal)
  ultimately show ?thesis
    using le by (simp add: f1_unit_json ratio_unit_json)
qed

section \<open>A concrete evaluation\<close>

definition demo_eval_env :: eval_env where
  "demo_eval_env =
    \<lparr>ev_labels = Some [''a'', ''b''], ev_results = Some [''r''], ev_replay_report = None, ev_output_exists = False,
     ev_loads = (\<lambda>l. Some (JObj (
        if l = ''a'' then [(''eventId'', JStr ''e1''), (''isFraud'', JBool True), (''sourceType'', JStr ''TRANSFER'')]
        else if l = ''b'' then [(''eventId'', JStr ''e2''), (''isFraud'', JBool False), (''sourceType'', JStr ''CASH_OUT'')]
        else [(''eventId'', JStr ''e1''), (''riskLevel'', JStr ''HIGH''), (''riskScore'', JInt 85),
              (''ruleVersion'', JStr RULE_VERSION)]))),
     ev_started = 0, ev_finished = 1000000\<rparr>"

definition demo_eval_args :: eval_args where
  "demo_eval_args = default_eval_args\<lparr>ea_require_rule_version := True\<rparr>"

lemma demo_evaluation:
  "\<exists>s rep. evaluate demo_eval_env demo_eval_args = Inr (s, rep)"
proof -
  have v: "validate_eval_args demo_eval_env demo_eval_args = None" by code_simp
  have l: "\<not> isl (load_inputs demo_eval_env demo_eval_args)" by code_simp
  have c: "case load_inputs demo_eval_env demo_eval_args of Inl _ \<Rightarrow> True
    | Inr i \<Rightarrow> without_rule_version (evaluate_rows (ei_labels i) (ei_results i) (ei_rejected i) (ei_policy i) False) = 0"
    by code_simp
  have "ea_include_missing_results demo_eval_args = False" by (simp add: demo_eval_args_def default_eval_args_def)
  with v l c show ?thesis
    by (cases "load_inputs demo_eval_env demo_eval_args") (simp_all add: evaluate_def Let_def)
qed

lemma metrics_in_unit_interval_witness:
  "\<exists>s rep. evaluate demo_eval_env demo_eval_args = Inr (s, rep) \<and> unit_json (jget rep ''reviewCandidateRate'')"
proof -
  obtain s rep where e: "evaluate demo_eval_env demo_eval_args = Inr (s, rep)" using demo_evaluation by blast
  with metrics_in_unit_interval [OF e] show ?thesis by blast
qed

section \<open>What a loaded file is\<close>

text \<open>C19: a label file that loads is read exactly: its labels are those of its rows in order, one for each
  line that is not blank, under distinct event ids, with the fraud flag of the row; no line is
  malformed, and no row holds a raw identifier or a forbidden field at any depth.\<close>

theorem load_labels_exact:
  assumes "load_labels loads path ls strict = Inr labels"
  shows "\<exists>rows. eval_items loads path ls = map Inr rows
    \<and> labels = map (\<lambda>(n, row). (label_key row, label_of row)) rows \<and> distinct (map fst labels)
    \<and> (\<forall>(n, row) \<in> set rows. jget row ''isFraud'' = JBool (lr_is_fraud (label_of row)) \<and> label_key row \<noteq> []
        \<and> eval_scan_forbidden (JObj row) ''label file'' [] = None)"
proof -
  let ?rows = "rows_of (eval_items loads path ls)"
  note l = load_labels_Inr [OF assms]
  have "jget row ''isFraud'' = JBool (lr_is_fraud (label_of row)) \<and> label_key row \<noteq> []
      \<and> eval_scan_forbidden (JObj row) ''label file'' [] = None" if "(n, row) \<in> set ?rows" for n row
  proof -
    have "label_checks path strict n row = None" using l(4) that by auto
    then show ?thesis
      by (cases "jget row ''isFraud''")
         (auto simp: label_checks_def label_of_def label_key_def nonempty_str_def Let_def)
  qed
  with l show ?thesis by (intro exI [of _ ?rows]) auto
qed

lemma load_labels_exact_witness:
  "\<exists>labels. load_labels (ev_loads demo_eval_env) ''l'' [''a'', ''b''] True = Inr labels \<and> distinct (map fst labels)
   \<or> isl (load_labels (ev_loads demo_eval_env) ''l'' [''a'', ''b''] True) \<and>
     load_labels (ev_loads demo_eval_env) ''l'' [''a'', ''b''] False = Inr labels \<and> distinct (map fst labels)"
proof -
  have "\<not> isl (load_labels (ev_loads demo_eval_env) ''l'' [''a'', ''b''] False)" by code_simp
  then obtain labels where l: "load_labels (ev_loads demo_eval_env) ''l'' [''a'', ''b''] False = Inr labels"
    by (cases "load_labels (ev_loads demo_eval_env) ''l'' [''a'', ''b''] False") auto
  have "isl (load_labels (ev_loads demo_eval_env) ''l'' [''a'', ''b''] True)" by code_simp
  with load_labels_exact [OF l] l show ?thesis by blast
qed

text \<open>C18: a result file that loads never holds a label: its results are those of its rows in order under
  distinct normalised ids, every risk level is one of the four, every rule version that is given is
  the expected one, and no row holds a label field, a raw identifier or another forbidden field at any
  depth.\<close>

theorem load_results_exact:
  assumes "load_results loads path ls prefix expected = Inr results"
  shows "\<exists>rows. eval_items loads path ls = map Inr rows
    \<and> results = map (\<lambda>(n, row). (result_key prefix row, result_of prefix row)) rows \<and> distinct (map fst results)
    \<and> (\<forall>(n, row) \<in> set rows. clean result_forbidden (JObj row))
    \<and> (\<forall>(k, r) \<in> set results. dr_risk_level r \<in> set RISK_LEVELS
        \<and> (dr_rule_version r = None \<or> dr_rule_version r = Some expected))"
proof -
  let ?rows = "rows_of (eval_items loads path ls)"
  note l = load_results_Inr [OF assms]
  have good: "good_result path expected n row" if "(n, row) \<in> set ?rows" for n row using l(4) that by auto
  have c: "\<forall>(n, row) \<in> set ?rows. clean result_forbidden (JObj row)"
    using good by (auto simp: good_result_def result_checks_def Let_def result_scan.scan_passes simp del: clean_simps)
  have lev: "dr_risk_level (result_of prefix row) \<in> set RISK_LEVELS
      \<and> (dr_rule_version (result_of prefix row) = None \<or> dr_rule_version (result_of prefix row) = Some expected)"
    if "(n, row) \<in> set ?rows" for n row
    using good_result_level [OF good [OF that]] good [OF that] by (auto simp: result_of_def good_result_def)
  have d: "\<forall>(k, r) \<in> set results. dr_risk_level r \<in> set RISK_LEVELS
        \<and> (dr_rule_version r = None \<or> dr_rule_version r = Some expected)"
    unfolding l(2) using lev by fastforce
  show ?thesis by (intro exI [of _ ?rows] conjI l(1) l(2) l(3) c d)
qed

lemma load_results_exact_witness:
  "\<exists>results. load_results (ev_loads demo_eval_env) ''r'' [''r''] None RULE_VERSION = Inr results
     \<and> (\<forall>(k, r) \<in> set results. dr_risk_level r \<in> set RISK_LEVELS)"
proof -
  have "\<not> isl (load_results (ev_loads demo_eval_env) ''r'' [''r''] None RULE_VERSION)" by code_simp
  then obtain results where l: "load_results (ev_loads demo_eval_env) ''r'' [''r''] None RULE_VERSION = Inr results"
    by (cases "load_results (ev_loads demo_eval_env) ''r'' [''r''] None RULE_VERSION") auto
  with load_results_exact [OF l] show ?thesis by blast
qed

section \<open>Rule versions, samples, failures\<close>

text \<open>The rule version figures of a finished evaluation are sound: only the requested version was
  counted, as often as a result with a version was evaluated; and when a version is required of every
  result, none is missing and the readiness is never partial.\<close>

theorem rule_version_sound:
  assumes "evaluate env a = Inr (s, rep)"
  shows "(\<forall>v. cget (rule_versions s) v = (if v = ea_rule_version a then with_rule_version s else 0))
    \<and> (ea_require_rule_version a \<longrightarrow> without_rule_version s = 0
         \<and> rule_version_readiness s \<noteq> ''contract_level_with_partial_per_result_coverage'')"
proof -
  obtain i :: eval_inputs where li: "load_inputs env a = Inr i"
    and s: "s = evaluate_rows (ei_labels i) (ei_results i) (ei_rejected i) (ei_policy i) (ea_include_missing_results a)"
    and req: "ea_require_rule_version a \<longrightarrow> without_rule_version s = 0"
    by (rule evaluate_Inr [OF assms])
  from li obtain prefix where "load_results (ev_loads env) (ea_results a) (the (ev_results env)) prefix (ea_rule_version a)
      = Inr (ei_results i)" by (auto simp: load_inputs_def Let_def)
  note r = load_results_Inr [OF this]
  have ver: "dr_rule_version d = None \<or> dr_rule_version d = Some (ea_rule_version a)" if "map_of (ei_results i) e = Some d" for e d
    using map_of_SomeD [OF that] r(4) unfolding r(2) by (fastforce simp: result_of_def good_result_def)
  have "decided (ei_rejected i) (ei_results i) (\<lambda>r. dr_rule_version r = Some v)
      = (if v = ea_rule_version a then decided (ei_rejected i) (ei_results i) (\<lambda>r. dr_rule_version r \<noteq> None)
         else (\<lambda>_. False))" for v
    using ver by (force simp: decided_def deciding_def split: option.splits if_splits)
  then have "cget (rule_versions s) v = (if v = ea_rule_version a then with_rule_version s else 0)" for v
    unfolding s version_counts workload_counts by simp
  with req show ?thesis by (simp add: rule_version_readiness_def)
qed

lemma rule_version_sound_witness:
  "\<exists>s rep. evaluate demo_eval_env demo_eval_args = Inr (s, rep) \<and> without_rule_version s = 0"
proof -
  obtain s rep where e: "evaluate demo_eval_env demo_eval_args = Inr (s, rep)" using demo_evaluation by blast
  have "ea_require_rule_version demo_eval_args" by (simp add: demo_eval_args_def)
  with rule_version_sound [OF e] e show ?thesis by blast
qed

text \<open>The sample ids of a run are the first ten, in the order of the ids, of the events in the
  denominator.\<close>

theorem evaluation_samples:
  "eval_sample_ids (evaluate_rows labels results rejected p include)
     = take 10 (filter (counted include rejected results) (sort (map fst labels)))"
proof -
  have "eval_sample_ids (fold (evaluate_label labels results rejected p include) xs (initial_eval_stats labels results))
      = eval_sample_ids (initial_eval_stats labels results) @ take (EVAL_MAX_SAMPLES
          - length (eval_sample_ids (initial_eval_stats labels results))) (filter (counted include rejected results) xs)" for xs
    by (rule fold_samples, rule evaluate_label_samples) (simp add: initial_defs)
  then show ?thesis by (simp add: evaluate_rows_def initial_defs EVAL_MAX_SAMPLES_def)
qed

text \<open>C35: these are all the exceptions an evaluation can end with: a missing file or an evaluation error,
  which \<open>main\<close> turns into exit status 2, and two that it does not catch, which end the process with
  status 1: \<open>TypeError\<close> (a risk level that cannot be hashed) and \<open>OverflowError\<close> (an integer risk
  score beyond the floats, or an infinite count of rejected payloads).\<close>

theorem evaluation_failures:
  assumes "evaluate env a = Inl x"
  shows "(\<exists>m. x = FileNotFoundError m \<or> x = EvaluationError m) \<and> eval_exit_status (evaluate env a) = 2
    \<or> (x = TypeError \<or> x = OverflowError) \<and> eval_exit_status (evaluate env a) = 1"
  using evaluate_exn [OF assms] assms by (auto simp: eval_exn_def eval_exit_status_def)

lemma evaluation_failures_witness:
  "eval_exit_status (evaluate (demo_eval_env\<lparr>ev_replay_report := Some ''x'',
       ev_loads := (\<lambda>l. if l = ''x'' then Some (JObj [(''payloadRejected'', JFloat PInf)]) else ev_loads demo_eval_env l)\<rparr>)
     (demo_eval_args\<lparr>ea_replay_report := Some ''p''\<rparr>)) = 1"
proof -
  have v: "validate_eval_args (demo_eval_env\<lparr>ev_replay_report := Some ''x'',
       ev_loads := (\<lambda>l. if l = ''x'' then Some (JObj [(''payloadRejected'', JFloat PInf)]) else ev_loads demo_eval_env l)\<rparr>)
     (demo_eval_args\<lparr>ea_replay_report := Some ''p''\<rparr>) = None" by code_simp
  have l: "load_inputs (demo_eval_env\<lparr>ev_replay_report := Some ''x'',
       ev_loads := (\<lambda>l. if l = ''x'' then Some (JObj [(''payloadRejected'', JFloat PInf)]) else ev_loads demo_eval_env l)\<rparr>)
     (demo_eval_args\<lparr>ea_replay_report := Some ''p''\<rparr>) = Inl OverflowError" by code_simp
  have "evaluate (demo_eval_env\<lparr>ev_replay_report := Some ''x'',
       ev_loads := (\<lambda>l. if l = ''x'' then Some (JObj [(''payloadRejected'', JFloat PInf)]) else ev_loads demo_eval_env l)\<rparr>)
     (demo_eval_args\<lparr>ea_replay_report := Some ''p''\<rparr>) = Inl OverflowError"
    unfolding evaluate_def v l by simp
  from evaluation_failures [OF this] show ?thesis by auto
qed

end
