(* ===== verification/Partition.thy ===== *)
theory Partition
  imports PyValue "HOL-Library.Word" "HOL-Library.Product_Lexorder"
begin

text \<open>
  \<open>scripts/data/verify_v3_phase3_partition_assignment.py\<close>: the generator of the partition-affinity
  workloads, rebuilt to verify that no user gets more than its share. Shares become counts
  (\<open>build_share_counts\<close>), the counts a shuffled cycle of partitions (\<open>build_partition_cycle\<close>),
  each partition gets users whose key hashes to it (\<open>find_users_for_partition\<close> with Kafka's
  murmur2), and \<open>verify_manifest\<close> replays the assignment of the events and checks it.

  The integers are Python's, cut to 32 bits where the code masks them.
\<close>

unbundle bit_operations_syntax

section \<open>Hashing\<close>

definition PARTITION_CYCLE_LENGTH :: int where "PARTITION_CYCLE_LENGTH = 600"

definition int32 :: "int \<Rightarrow> int" where
  "int32 value = value AND 0xFFFFFFFF"

definition deterministic_value :: "int \<Rightarrow> int \<Rightarrow> int \<Rightarrow> int" where
  "deterministic_value seed vu iteration =
    (let v0 = (seed + int32 (vu * 0x9E3779B1) + int32 (iteration * 0x85EBCA6B)) AND 0xFFFFFFFF;
         v1 = int32 ((v0 XOR drop_bit 16 v0) * 0x7FEB352D);
         v2 = int32 ((v1 XOR drop_bit 15 v1) * 0x846CA68B)
     in (v2 XOR drop_bit 16 v2) AND 0xFFFFFFFF)"

text \<open>The loop over whole blocks of four bytes, and what it leaves.\<close>

definition murmur_block :: "int \<Rightarrow> int \<Rightarrow> int \<Rightarrow> int \<Rightarrow> int" where
  "murmur_block a b c d =
    (let k0 = a OR push_bit 8 b OR push_bit 16 c OR push_bit 24 d;
         k1 = int32 (k0 * 0x5BD1E995);
         k2 = k1 XOR drop_bit 24 k1
     in int32 (k2 * 0x5BD1E995))"

fun murmur_blocks :: "int list \<Rightarrow> int \<Rightarrow> int \<times> int list" where
  "murmur_blocks (a # b # c # d # rest) h = murmur_blocks rest (int32 (h * 0x5BD1E995) XOR murmur_block a b c d)"
| "murmur_blocks rest h = (h, rest)"

definition murmur_tail :: "int list \<Rightarrow> int \<Rightarrow> int" where
  "murmur_tail rest h =
    (let h3 = (if length rest = 3 then h XOR push_bit 16 (rest ! 2) else h);
         h2 = (if 2 \<le> length rest then h3 XOR push_bit 8 (rest ! 1) else h3)
     in if 1 \<le> length rest then int32 ((h2 XOR rest ! 0) * 0x5BD1E995) else h2)"

definition murmur_final :: "int \<Rightarrow> int" where
  "murmur_final h =
    (let h1 = h XOR drop_bit 13 h; h2 = int32 (h1 * 0x5BD1E995) in (h2 XOR drop_bit 15 h2) AND 0xFFFFFFFF)"

definition murmur2_bytes :: "int list \<Rightarrow> int" where
  "murmur2_bytes data =
    (let (h, rest) = murmur_blocks data ((0x9747B28C XOR int (length data)) AND 0xFFFFFFFF)
     in murmur_final (murmur_tail rest h))"

text \<open>\<open>value.encode("ascii")\<close> raises a \<open>UnicodeEncodeError\<close>, which is a \<open>ValueError\<close>, for a character
  beyond ASCII.\<close>

definition murmur2_ascii :: "string \<Rightarrow> int res" where
  "murmur2_ascii s =
    (if list_all is_ascii s then Inr (murmur2_bytes (map (\<lambda>c. int (code_point c)) s))
     else Inl (ValueError ''ordinal not in range(128)''))"

definition partition_for_key :: "string \<Rightarrow> int \<Rightarrow> int res" where
  "partition_for_key key partition_count =
    bind_res (murmur2_ascii key) (\<lambda>h.
      if partition_count = 0 then Inl ZeroDivisionError
      else Inr ((h AND 0x7FFFFFFF) mod partition_count))"

section \<open>Shares and the cycle\<close>

text \<open>\<open>share * tot\<close>, \<open>int(share * tot)\<close> and \<open>share * tot - int(share * tot)\<close>\<close>

definition scaled_share :: "int \<Rightarrow> pyfloat \<Rightarrow> pyfloat res" where
  "scaled_share tot share = bind_res (float_of_int tot) (\<lambda>t. Inr (fmul share t))"

definition floor_share :: "int \<Rightarrow> pyfloat \<Rightarrow> int res" where
  "floor_share tot share = bind_res (scaled_share tot share) (\<lambda>x. py_int (JFloat x))"

definition share_remainder :: "int \<Rightarrow> pyfloat \<Rightarrow> pyfloat res" where
  "share_remainder tot share =
    bind_res (scaled_share tot share) (\<lambda>x.
    bind_res (py_int (JFloat x)) (\<lambda>i.
    bind_res (float_of_int i) (\<lambda>f. Inr (fsub x f))))"

text \<open>The indices by descending remainder, equal ones in order.\<close>

definition remainder_order :: "pyfloat list \<Rightarrow> nat list" where
  "remainder_order rems = map fst (sort_key (\<lambda>(i, r). (- fin_val r, i)) (enumerate 0 rems))"

text \<open>The loop that hands out what is left, one each in that order, starting over at its end.\<close>

function hand_out :: "int \<Rightarrow> nat \<Rightarrow> nat list \<Rightarrow> int list \<Rightarrow> int list" where
  "hand_out remaining index order counts =
    (if remaining \<le> 0 then counts
     else let k = order ! (index mod length order) in
       hand_out (remaining - 1) (Suc index) order (counts[k := counts ! k + 1]))"
  by pat_completeness auto

termination
  by (relation "measure (\<lambda>(remaining, _). nat remaining)") auto

declare hand_out.simps [simp del]

definition build_share_counts :: "(int \<times> pyfloat) list \<Rightarrow> int \<Rightarrow> int list res" where
  "build_share_counts distribution tot =
    bind_res (mapM (\<lambda>(_, share). floor_share tot share) distribution) (\<lambda>counts.
    (let remaining = tot - sum_list counts in
     bind_res (mapM (\<lambda>(_, share). share_remainder tot share) distribution) (\<lambda>rems.
       if 0 < remaining \<and> rems = [] then Inl ZeroDivisionError
       else Inr (hand_out remaining 0 (remainder_order rems) counts))))"

definition swap :: "'a list \<Rightarrow> nat \<Rightarrow> nat \<Rightarrow> 'a list" where
  "swap xs i j = xs[i := xs ! j, j := xs ! i]"

definition swap_index :: "int \<Rightarrow> int list \<Rightarrow> nat \<Rightarrow> nat" where
  "swap_index seed counts index =
     nat (deterministic_value seed (int index) (counts ! (index mod length counts)) mod (int index + 1))"

definition build_partition_cycle :: "(int \<times> pyfloat) list \<Rightarrow> int \<Rightarrow> int \<Rightarrow> int list res" where
  "build_partition_cycle distribution tot seed =
    bind_res (build_share_counts distribution tot) (\<lambda>counts.
    (let sequence = concat (map2 (\<lambda>(partition, _) n. replicate (nat n) partition) distribution counts) in
     Inr (foldl (\<lambda>xs index. swap xs index (swap_index seed counts index)) sequence (rev [1..<length sequence]))))"

section \<open>Users\<close>

definition user_id :: "json \<Rightarrow> int \<Rightarrow> int \<Rightarrow> string" where
  "user_id workload_id target candidate =
     ''v3-phase3-'' @ py_str workload_id @ ''-p'' @ str_of_int target @ ''-user-'' @ str_of_int candidate"

function find_users_from :: "json \<Rightarrow> int \<Rightarrow> int \<Rightarrow> int \<Rightarrow> int \<Rightarrow> string list \<Rightarrow> string list res" where
  "find_users_from workload_id target n partition_count candidate users =
    (if n \<le> int (length users) then Inr users
     else
       (let user = user_id workload_id target candidate in
        bind_res (partition_for_key user partition_count) (\<lambda>p.
        (let users' = (if p = target then users @ [user] else users) in
         if n * partition_count * 30 + 1000 < candidate + 1
         then Inl (VerificationError (''could not build enough users for partition '' @ str_of_int target))
         else find_users_from workload_id target n partition_count (candidate + 1) users'))))"
  by pat_completeness auto

termination
  by (relation "measure (\<lambda>(_, _, n, pc, candidate, _). nat (n * pc * 30 + 1001 - candidate))") auto

declare find_users_from.simps [simp del]

definition find_users_for_partition :: "json \<Rightarrow> int \<Rightarrow> int \<Rightarrow> int \<Rightarrow> string list res" where
  "find_users_for_partition workload_id target n partition_count =
     find_users_from workload_id target n partition_count 0 []"

section \<open>The verification of a manifest\<close>

record assignment =
  events_by_user :: "string counter"
  users_by_partition :: "(int \<times> string list) list"
  partition_events :: "int counter"
  partition_occurrences :: "int counter"

definition empty_assignment :: assignment where
  "empty_assignment = \<lparr>events_by_user = [], users_by_partition = [], partition_events = [], partition_occurrences = []\<rparr>"

definition users_of :: "assignment \<Rightarrow> int \<Rightarrow> string list" where
  "users_of s p = (case map_of (users_by_partition s) p of None \<Rightarrow> [] | Some us \<Rightarrow> us)"

definition assign_event :: "int list \<Rightarrow> (int \<times> string list) list \<Rightarrow> assignment \<Rightarrow> nat \<Rightarrow> assignment res" where
  "assign_event cycle pools s iteration =
    (if cycle = [] then Inl ZeroDivisionError
     else
       (let partition = cycle ! (iteration mod length cycle);
            pool = (case map_of pools partition of None \<Rightarrow> [] | Some us \<Rightarrow> us);
            occurrence = cget (partition_occurrences s) partition in
        if pool = [] then Inl ZeroDivisionError
        else
          (let user = pool ! (occurrence mod length pool) in
           Inr (s\<lparr>partition_occurrences := cinc partition (partition_occurrences s),
                  events_by_user := cinc user (events_by_user s),
                  users_by_partition := jset (users_by_partition s) partition (List.insert user (users_of s partition)),
                  partition_events := cinc partition (partition_events s)\<rparr>))))"

text \<open>\<open>n / v\<close> for an integer \<open>n\<close> and a JSON value \<open>v\<close>\<close>

definition int_over :: "int \<Rightarrow> json \<Rightarrow> pyfloat res" where
  "int_over n v = (case v of
     JInt i \<Rightarrow> true_div n i
   | JBool b \<Rightarrow> true_div n (of_bool b)
   | JFloat x \<Rightarrow> bind_res (float_of_int n) (\<lambda>f. fdiv f x)
   | _ \<Rightarrow> Inl TypeError)"

text \<open>The distribution, sorted by partition and share. Shares that are not finite raise in
  \<open>build_share_counts\<close> wherever they stand.\<close>

definition read_distribution :: "jobj \<Rightarrow> (int \<times> pyfloat) list res" where
  "read_distribution manifest =
    bind_res (jitem manifest ''targetPartitionDistribution'') (\<lambda>v.
      case v of
        JObj d \<Rightarrow>
          bind_res (mapM (\<lambda>(k, share). bind_res (py_int (JStr k)) (\<lambda>p. bind_res (py_float share) (\<lambda>x. Inr (p, x)))) d)
            (\<lambda>items. Inr (sort_key (\<lambda>(p, x). (p, fin_val x)) items))
      | _ \<Rightarrow> Inl AttributeError)"

definition int_item :: "jobj \<Rightarrow> string \<Rightarrow> int res" where
  "int_item manifest k = bind_res (jitem manifest k) py_int"

definition add_pool ::
  "jobj \<Rightarrow> int \<Rightarrow> (int \<times> string list) list \<Rightarrow> (int \<times> pyfloat) \<times> int \<Rightarrow> (int \<times> string list) list res" where
  "add_pool manifest partition_count pools x =
    (case x of ((q, _), n) \<Rightarrow>
       bind_res (jitem manifest ''workloadId'') (\<lambda>w.
       bind_res (find_users_for_partition w q n partition_count) (\<lambda>us.
         Inr (jset pools q us))))"

definition build_pools :: "jobj \<Rightarrow> (int \<times> pyfloat) list \<Rightarrow> int list \<Rightarrow> (int \<times> string list) list res" where
  "build_pools manifest distribution counts =
    foldM (add_pool manifest (int (length distribution))) [] (zip distribution counts)"

definition check_assignment :: "string \<Rightarrow> jobj \<Rightarrow> (int \<times> pyfloat) list \<Rightarrow> int list \<Rightarrow> assignment \<Rightarrow> exn option" where
  "check_assignment name manifest distribution counts s =
    (let users = events_by_user s; ns = sort (map snd users); err = (\<lambda>m. VerificationError (name @ '': '' @ m)) in
     case jitem manifest ''userCardinality'' of
       Inl x \<Rightarrow> Some x
     | Inr cardinality \<Rightarrow>
        if \<not> eq_int cardinality (int (length users))
        then Some (err (''generated unique users drifted: '' @ str_of_nat (length users)))
        else if ns = [] then Some IndexError
        else if hd ns \<noteq> last ns
        then Some (err (''events/user is not balanced: min='' @ str_of_nat (hd ns) @ '' max='' @ str_of_nat (last ns)))
        else
          (case bind_res (bind_res (jitem manifest ''eventLimit'') (int_over (int (last ns)))) (\<lambda>highest.
                bind_res (int_over 1 cardinality) (\<lambda>expected. Inr (highest, expected))) of
             Inl x \<Rightarrow> Some x
           | Inr (highest, expected) \<Rightarrow>
               first_fail
                [raise_if (flt (to_double (1 / 1000000)) (fabs (fsub highest expected)))
                   (err (''top user share drifted: '' @ float_repr highest)),
                 first_fail (map (\<lambda>((partition, _), n).
                     raise_if (int (length (users_of s partition)) \<noteq> n)
                       (err (''partition '' @ str_of_int partition @ '' unique users drifted'')))
                   (zip distribution counts))]))"

definition verify_manifest :: "string \<Rightarrow> jobj \<Rightarrow> assignment res" where
  "verify_manifest name manifest =
    bind_res (read_distribution manifest) (\<lambda>distribution.
    bind_res (int_item manifest ''randomSeed'') (\<lambda>seed.
    bind_res (build_partition_cycle distribution PARTITION_CYCLE_LENGTH seed) (\<lambda>cycle.
    bind_res (int_item manifest ''userCardinality'') (\<lambda>cardinality.
    bind_res (build_share_counts distribution cardinality) (\<lambda>counts.
    bind_res (build_pools manifest distribution counts) (\<lambda>pools.
    bind_res (int_item manifest ''eventLimit'') (\<lambda>limit.
    bind_res (foldM (assign_event cycle pools) empty_assignment [0..<nat limit]) (\<lambda>s.
      check_then (check_assignment name manifest distribution counts s) (Inr s)))))))))"

text \<open>\<open>main\<close> over the manifests: \<open>None\<close> is a file that cannot be read or is not JSON; what it does
  not catch ends the process.\<close>

fun partition_main :: "(string \<times> json option) list \<Rightarrow> int res" where
  "partition_main [] = Inr 0"
| "partition_main ((name, None) # rest) = Inr 1"
| "partition_main ((name, Some v) # rest) =
     (case v of
        JObj manifest \<Rightarrow>
          (case verify_manifest name manifest of
             Inr _ \<Rightarrow> partition_main rest
           | Inl x \<Rightarrow> (case x of VerificationError _ \<Rightarrow> Inr 1 | _ \<Rightarrow> Inl x))
      | _ \<Rightarrow> Inl TypeError)"

end
