(* ===== verification/PartitionProperties.thy ===== *)
theory PartitionProperties
  imports Partition
begin

text \<open>
  What is proved of the partition assignment: the hash is the murmur2 of 32-bit words that Kafka
  uses, the counts of the shares add up, the cycle is a permutation, the search for users finds the
  first that hash to the partition, and a manifest that verifies spreads its events evenly.
\<close>

unbundle bit_operations_syntax

section \<open>Murmur2 on machine words\<close>

text \<open>The hash as Kafka's client states it, on bytes and 32-bit words with wrap-around.\<close>

type_synonym byte = "8 word"
type_synonym word32 = "32 word"

definition kafka_block :: "byte \<Rightarrow> byte \<Rightarrow> byte \<Rightarrow> byte \<Rightarrow> word32" where
  "kafka_block a b c d =
    (let k0 = ucast a OR push_bit 8 (ucast b) OR push_bit 16 (ucast c) OR push_bit 24 (ucast d) :: word32;
         k1 = k0 * 0x5BD1E995
     in (k1 XOR drop_bit 24 k1) * 0x5BD1E995)"

fun kafka_murmur2_from :: "word32 \<Rightarrow> byte list \<Rightarrow> word32" where
  "kafka_murmur2_from h (a # b # c # d # rest) = kafka_murmur2_from (h * 0x5BD1E995 XOR kafka_block a b c d) rest"
| "kafka_murmur2_from h [a, b, c] =
     (((h XOR push_bit 16 (ucast c)) XOR push_bit 8 (ucast b)) XOR ucast a) * 0x5BD1E995"
| "kafka_murmur2_from h [a, b] = ((h XOR push_bit 8 (ucast b)) XOR ucast a) * 0x5BD1E995"
| "kafka_murmur2_from h [a] = (h XOR ucast a) * 0x5BD1E995"
| "kafka_murmur2_from h [] = h"

definition kafka_murmur2 :: "byte list \<Rightarrow> word32" where
  "kafka_murmur2 data =
    (let h = kafka_murmur2_from (0x9747B28C XOR of_nat (length data)) data;
         h1 = (h XOR drop_bit 13 h) * 0x5BD1E995
     in h1 XOR drop_bit 15 h1)"

lemma int32_eq: "int32 v = uint (word_of_int v :: word32)"
  by (simp add: int32_def uint_word_of_int_eq take_bit_eq_mask mask_eq_exp_minus_1)

lemma and_mask32: "v AND 0xFFFFFFFF = uint (word_of_int v :: word32)"
  using int32_eq by (simp add: int32_def)

lemma int32_mult: "int32 (uint (w :: word32) * m) = uint (w * word_of_int m)"
  by (simp add: int32_eq)

lemma uint_drop: "drop_bit n (uint (w :: word32)) = uint (drop_bit n w)"
proof -
  have "take_bit 32 (uint w) = uint w"
    using unsigned_less [of w, where ?'a = int] by (intro take_bit_int_eq_self) simp_all
  then show ?thesis by (simp add: unsigned_drop_bit_eq)
qed

lemma uint_byte_shift:
  assumes "n \<le> 24"
  shows "push_bit n (uint (b :: byte)) = uint (push_bit n (ucast b) :: word32)"
proof -
  have b: "0 \<le> uint b" "uint b < 2 ^ 8" using unsigned_less [of b, where ?'a = int] by simp_all
  have "push_bit n (uint b) < 2 ^ (n + 8)" using b by (simp add: push_bit_eq_mult power_add)
  also have "(2 :: int) ^ (n + 8) \<le> 2 ^ 32" using assms by (intro power_increasing) simp_all
  finally have lt: "push_bit n (uint b) < 2 ^ 32" .
  have "uint (push_bit n (ucast b) :: word32) = take_bit 32 (push_bit n (take_bit 32 (uint b)))"
    by (simp add: unsigned_push_bit_eq unsigned_ucast_eq)
  also have "take_bit 32 (uint b) = uint b" using b by (intro take_bit_int_eq_self) simp_all
  also have "take_bit 32 (push_bit n (uint b)) = push_bit n (uint b)"
    using lt b by (intro take_bit_int_eq_self) simp_all
  finally show ?thesis by simp
qed

lemma uint_byte: "uint (b :: byte) = uint (ucast b :: word32)"
  using uint_byte_shift [of 0 b] by simp

lemma xor_byte:
  "uint (w :: word32) XOR uint (b :: byte) = uint (w XOR ucast b)"
  "n \<le> 24 \<Longrightarrow> uint w XOR push_bit n (uint b) = uint (w XOR push_bit n (ucast b))"
  by (simp_all only: uint_byte unsigned_xor_eq) (simp only: uint_byte_shift unsigned_xor_eq flip: uint_byte)

lemma murmur_block_word: "murmur_block (uint a) (uint b) (uint c) (uint d) = uint (kafka_block a b c d)"
proof -
  have "uint a OR push_bit 8 (uint b) OR push_bit 16 (uint c) OR push_bit 24 (uint d)
      = uint (ucast a OR push_bit 8 (ucast b) OR push_bit 16 (ucast c) OR push_bit 24 (ucast d) :: word32)"
    by (simp add: unsigned_or_eq uint_byte_shift flip: uint_byte)
  then show ?thesis
    by (simp add: murmur_block_def kafka_block_def Let_def int32_mult uint_drop flip: unsigned_xor_eq)
qed

lemma murmur_from_word:
  "(case murmur_blocks (map uint bs) (uint h) of (h', rest) \<Rightarrow> murmur_tail rest h') = uint (kafka_murmur2_from h bs)"
proof (induction h bs rule: kafka_murmur2_from.induct)
  case (1 h a b c d rest)
  then show ?case by (simp add: murmur_block_word int32_mult flip: unsigned_xor_eq)
qed (simp_all add: murmur_tail_def Let_def xor_byte int32_mult)

lemma murmur2_bytes_word: "murmur2_bytes (map uint (bs :: byte list)) = uint (kafka_murmur2 bs)"
proof -
  have "(0x9747B28C XOR int (length bs)) AND 0xFFFFFFFF = uint (0x9747B28C XOR of_nat (length bs) :: word32)"
    unfolding and_mask32 by (simp add: of_int_xor_eq)
  then show ?thesis
    using murmur_from_word [of bs "0x9747B28C XOR of_nat (length bs)"]
    by (simp add: murmur2_bytes_def kafka_murmur2_def murmur_final_def Let_def split_beta
        uint_drop int32_mult and_mask32 flip: unsigned_xor_eq)
qed

lemma ascii_bytes: "list_all is_ascii s \<Longrightarrow> map (\<lambda>c. int (code_point c)) s = map uint (map (\<lambda>c. of_nat (code_point c) :: byte) s)"
  by (induction s) (simp_all add: is_ascii_def uint_nat unat_of_nat)

text \<open>C20: the hash is Kafka's: on an ASCII key the masked Python arithmetic gives the murmur2 of Kafka's client on
  32-bit words with wrap-around, so it lies below \<open>2 ^ 32\<close>, and the partition of a key is one of the
  partitions; a key beyond ASCII raises.\<close>

theorem murmur2_is_kafka:
  "murmur2_ascii key = (if list_all is_ascii key then Inr (uint (kafka_murmur2 (map (\<lambda>c. of_nat (code_point c)) key)))
      else Inl (ValueError ''ordinal not in range(128)''))
    \<and> (\<forall>h. murmur2_ascii key \<noteq> Inr h \<or> 0 \<le> h \<and> h < 2 ^ 32)
    \<and> (\<forall>n p. partition_for_key key n \<noteq> Inr p \<or> n \<le> 0 \<or> 0 \<le> p \<and> p < n)"
proof (intro conjI)
  show eq: "murmur2_ascii key = (if list_all is_ascii key then Inr (uint (kafka_murmur2 (map (\<lambda>c. of_nat (code_point c)) key)))
      else Inl (ValueError ''ordinal not in range(128)''))"
    by (simp add: murmur2_ascii_def ascii_bytes murmur2_bytes_word del: map_map)
  show "\<forall>h. murmur2_ascii key \<noteq> Inr h \<or> 0 \<le> h \<and> h < 2 ^ 32"
    unfolding eq using unsigned_less [where ?'a = int and ?'b = 32] by auto
  show "\<forall>n p. partition_for_key key n \<noteq> Inr p \<or> n \<le> 0 \<or> 0 \<le> p \<and> p < n"
    by (auto simp: partition_for_key_def split: if_splits)
qed

lemma murmur2_is_ascii_total: "list_all is_ascii key \<Longrightarrow> murmur2_ascii key = Inr (murmur2_bytes (map (\<lambda>c. int (code_point c)) key))"
  by (simp add: murmur2_ascii_def)

text \<open>A test vector of Kafka's client.\<close>

lemma kafka_vector: "murmur2_ascii ''21'' = Inr (2 ^ 32 - 973932308)"
  by code_simp

section \<open>Shares\<close>

text \<open>The loop adds one to a count per round, so it adds what is left to the sum; in at most one round per
  entry no count grows by more than one.\<close>

lemma hand_out_stop: "remaining \<le> 0 \<Longrightarrow> hand_out remaining index order counts = counts"
  by (subst hand_out.simps) simp

lemma hand_out_step:
  "0 < remaining \<Longrightarrow> hand_out remaining index order counts =
    hand_out (remaining - 1) (Suc index) order
      (counts[order ! (index mod length order) := counts ! (order ! (index mod length order)) + 1])"
  by (subst hand_out.simps) (simp add: Let_def)

lemma sum_list_bump: "k < length (counts :: int list) \<Longrightarrow> sum_list (counts[k := counts ! k + 1]) = sum_list counts + 1"
proof (induction counts arbitrary: k)
  case (Cons c counts)
  then show ?case by (cases k) simp_all
qed simp

lemma hand_out_sum:
  assumes "order \<noteq> []" "\<forall>k \<in> set order. k < length counts"
  shows "length (hand_out remaining index order counts) = length counts
    \<and> sum_list (hand_out remaining index order counts) = sum_list counts + max 0 remaining"
  using assms
proof (induction remaining index order counts rule: hand_out.induct)
  case (1 remaining index order counts)
  show ?case
  proof (cases "remaining \<le> 0")
    case True
    then show ?thesis by (simp add: hand_out_stop)
  next
    case False
    have k: "order ! (index mod length order) < length counts" using "1.prems" by simp
    show ?thesis
      using "1.IH" [OF False refl] "1.prems" k False
      by (simp add: hand_out_step sum_list_bump)
  qed
qed

lemma hand_out_count:
  assumes "order \<noteq> []" "\<forall>k \<in> set order. k < length counts" "i < length counts"
  shows "hand_out (int n) index order counts ! i =
    counts ! i + int (length (filter (\<lambda>j. order ! (j mod length order) = i) [index..<index + n]))"
  using assms
proof (induction n arbitrary: index counts)
  case 0
  then show ?case by (simp add: hand_out_stop)
next
  case (Suc n)
  have k: "order ! (index mod length order) < length counts" using Suc.prems by simp
  have "[index..<index + Suc n] = index # [Suc index..<Suc index + n]" by (simp add: upt_rec)
  then show ?case
    using Suc.IH [of "counts[order ! (index mod length order) := counts ! (order ! (index mod length order)) + 1]" "Suc index"]
      Suc.prems k
    by (auto simp: hand_out_step nth_list_update)
qed

lemma once_per_round:
  assumes "distinct order" "n \<le> length order"
  shows "length (filter (\<lambda>j. order ! (j mod length order) = i) [0..<n]) \<le> 1"
proof -
  have "filter (\<lambda>j. order ! (j mod length order) = i) [0..<n] = filter (\<lambda>j. order ! j = i) [0..<n]"
    using assms(2) by (intro filter_cong) simp_all
  moreover have "card {j. j < n \<and> order ! j = i} \<le> Suc 0"
    unfolding card_le_Suc0_iff_eq [of "{j. j < n \<and> order ! j = i}", simplified]
    using assms by (auto simp: nth_eq_iff_index_eq)
  moreover have "distinct (filter (\<lambda>j. order ! j = i) [0..<n])" by simp
  then have "length (filter (\<lambda>j. order ! j = i) [0..<n]) = card {j. j < n \<and> order ! j = i}"
    by (simp add: distinct_card [symmetric] Collect_conj_eq inf_commute)
  ultimately show ?thesis by simp
qed

lemma remainder_order_perm:
  "set (remainder_order rems) = {0..<length rems}" "distinct (remainder_order rems)" "length (remainder_order rems) = length rems"
proof -
  have m: "mset (remainder_order rems) = mset [0..<length rems]"
    unfolding remainder_order_def mset_map mset_sort by (metis add_0 map_fst_enumerate mset_map)
  then show "set (remainder_order rems) = {0..<length rems}" by (metis set_upt set_mset_mset)
  show "distinct (remainder_order rems)" using m by (metis distinct_upt mset_eq_imp_distinct_iff)
  show "length (remainder_order rems) = length rems" using m by (metis length_upt size_mset diff_zero)
qed

lemma mapM_nth: "mapM f xs = Inr ys \<Longrightarrow> i < length xs \<Longrightarrow> f (xs ! i) = Inr (ys ! i)"
proof (induction xs arbitrary: ys i)
  case (Cons x xs)
  then show ?case by (cases i) auto
qed simp

text \<open>The counts of the shares are those of the shares rounded down, plus what is left of the total handed out
  one by one: they add up to the total whenever the rounded counts do not exceed it, none is below its rounded
  share, and if no more than one per share is left, none exceeds its rounded share by more than one.\<close>

theorem share_counts_total:
  assumes "build_share_counts distribution n = Inr counts"
  shows "\<exists>floors. mapM (\<lambda>(_, share). floor_share n share) distribution = Inr floors
    \<and> length counts = length distribution
    \<and> sum_list counts = max n (sum_list floors)
    \<and> (\<forall>i < length counts. floors ! i \<le> counts ! i
         \<and> (int (length distribution) < n - sum_list floors \<or> counts ! i \<le> floors ! i + 1))"
proof -
  obtain floors rems where f: "mapM (\<lambda>(_, share). floor_share n share) distribution = Inr floors"
    "mapM (\<lambda>(_, share). share_remainder n share) distribution = Inr rems"
    "0 < n - sum_list floors \<longrightarrow> rems \<noteq> []"
    "counts = hand_out (n - sum_list floors) 0 (remainder_order rems) floors"
    using assms unfolding build_share_counts_def by (auto simp: Let_def split: if_splits)
  have len: "length floors = length distribution" "length rems = length distribution"
    using f(1,2) by (simp_all add: mapM_length)
  let ?o = "remainder_order rems" and ?r = "n - sum_list floors"
  note perm = remainder_order_perm [of rems]
  show ?thesis
  proof (cases "?r \<le> 0")
    case True
    then show ?thesis using f len by (simp add: hand_out_stop)
  next
    case False
    have ne: "?o \<noteq> []" "\<forall>k \<in> set ?o. k < length floors" using perm f(3) False len by auto
    have "counts ! i = floors ! i + int (length (filter (\<lambda>j. ?o ! (j mod length ?o) = i) [0..<nat ?r]))"
      if "i < length floors" for i
      using hand_out_count [OF ne that, of "nat ?r" 0] False by (simp add: f(4))
    moreover have "int (length distribution) < ?r \<or> length (filter (\<lambda>j. ?o ! (j mod length ?o) = i) [0..<nat ?r]) \<le> 1" for i
      using once_per_round [OF perm(2), of "nat ?r" i] len perm(3) by (simp add: not_less) linarith
    ultimately show ?thesis
      using f hand_out_sum [OF ne, of ?r 0] False len by fastforce
  qed
qed

text \<open>Seven events over two halves, by exact arithmetic on floats.\<close>

lemma halves:
  "build_share_counts [(0, Fin (1/2)), (1, Fin (1/2))] 7 = Inr [4, 3]"
  "mapM (\<lambda>(_, share). floor_share 7 share) [(0 :: int, Fin (1/2)), (1, Fin (1/2))] = Inr [3, 3]"
proof -
  have "rnd_pos (of_int 7 * 2 powi (-1)) = of_int 7 * 2 powi (-1)" by (rule rnd_pos_exact) simp_all
  then have d7: "to_double (7 / 2) = Fin (7/2)" by (simp add: to_double_def)
  have "rnd_pos (of_int 1 * 2 powi (-1)) = of_int 1 * 2 powi (-1)" by (rule rnd_pos_exact) simp_all
  then have d1: "to_double (1/2) = Fin (1/2)" by (simp add: to_double_def)
  have "to_double 7 = Fin 7" "to_double 3 = Fin 3"
    using to_double_nat [of 7] to_double_nat [of 3] by simp_all
  moreover have "remainder_order [Fin (1/2), Fin (1/2)] = [0, 1]" by (simp add: remainder_order_def)
  moreover have "\<lfloor>7 / 2 :: rat\<rfloor> = 3" by (simp add: floor_eq_iff)
  ultimately show "build_share_counts [(0, Fin (1/2)), (1, Fin (1/2))] 7 = Inr [4, 3]"
    "mapM (\<lambda>(_, share). floor_share 7 share) [(0 :: int, Fin (1/2)), (1, Fin (1/2))] = Inr [3, 3]"
    using d1 d7 by (simp_all add: build_share_counts_def floor_share_def share_remainder_def scaled_share_def
        float_of_int_def py_int_def trunc_rat_def fsub_def hand_out_step hand_out_stop)
qed

theorem share_counts_total_witness:
  "build_share_counts [(0, Fin (1/2)), (1, Fin (1/2))] 7 = Inr [4, 3] \<and> sum_list [4, 3 :: int] = max 7 (sum_list [3, 3])"
  using share_counts_total [OF halves(1)] halves by auto

section \<open>The cycle\<close>

lemma mset_swap: "i < length xs \<Longrightarrow> j < length xs \<Longrightarrow> mset (swap xs i j) = mset xs"
  by (simp add: swap_def mset_swap)

lemma swap_index_le: "swap_index seed counts index \<le> index"
  using pos_mod_bound [of "int index + 1" "deterministic_value seed (int index) (counts ! (index mod length counts))"]
  by (simp add: swap_index_def nat_le_iff)

lemma shuffle_mset:
  assumes "\<forall>index \<in> set idx. index < length xs" "\<And>index. f index \<le> index"
  shows "mset (foldl (\<lambda>xs index. swap xs index (f index)) xs idx) = mset xs"
  using assms
proof (induction idx arbitrary: xs)
  case (Cons i idx)
  have "f i < length xs" using Cons.prems(1) assms(2) [of i] by (metis list.set_intros(1) order.strict_trans1)
  then have "mset (swap xs i (f i)) = mset xs" using Cons.prems(1) by (simp add: mset_swap)
  moreover have "length (swap xs i (f i)) = length xs" by (simp add: swap_def)
  ultimately show ?case using Cons.IH [of "swap xs i (f i)"] Cons.prems by simp
qed simp

lemma count_list_replicate: "count_list (replicate n x) y = (if x = y then n else 0)"
  by (induction n) auto

definition unshuffled :: "(int \<times> pyfloat) list \<Rightarrow> int list \<Rightarrow> int list" where
  "unshuffled distribution counts = concat (map2 (\<lambda>(partition, _) n. replicate (nat n) partition) distribution counts)"

lemma share_counts_length: "build_share_counts distribution n = Inr counts \<Longrightarrow> length counts = length distribution"
proof -
  have "length (hand_out remaining index order cs) = length cs" for remaining index order cs
    by (induction remaining index order cs rule: hand_out.induct) (subst hand_out.simps, simp add: Let_def)
  then show "build_share_counts distribution n = Inr counts \<Longrightarrow> length counts = length distribution"
    by (auto simp: build_share_counts_def Let_def dest: mapM_length split: if_splits)
qed

lemma cycle_mset:
  assumes "build_partition_cycle distribution n seed = Inr cycle"
  obtains counts where "build_share_counts distribution n = Inr counts" "mset cycle = mset (unshuffled distribution counts)"
    "length counts = length distribution"
proof -
  obtain counts where c: "build_share_counts distribution n = Inr counts"
    "cycle = foldl (\<lambda>xs index. swap xs index (swap_index seed counts index)) (unshuffled distribution counts)
       (rev [1..<length (unshuffled distribution counts)])"
    using assms unfolding build_partition_cycle_def unshuffled_def by (auto simp: Let_def)
  have "mset cycle = mset (unshuffled distribution counts)"
    unfolding c(2) by (rule shuffle_mset) (simp_all add: swap_index_le)
  then show ?thesis using that c(1) share_counts_length by blast
qed

text \<open>C40: the cycle is a shuffle of the counts: it holds each partition as often as its shares' counts say, and so
  has as many entries as the events of a round.\<close>

theorem partition_cycle_permutation:
  assumes "build_partition_cycle distribution n seed = Inr cycle"
  shows "\<exists>counts. build_share_counts distribution n = Inr counts
    \<and> mset cycle = mset (concat (map2 (\<lambda>(partition, _) c. replicate (nat c) partition) distribution counts))
    \<and> length cycle = sum_list (map nat counts)
    \<and> (\<forall>p. count_list cycle p = sum_list (map (\<lambda>((q, _), c). if q = p then nat c else 0) (zip distribution counts)))"
proof -
  obtain counts where c: "build_share_counts distribution n = Inr counts"
    and m: "mset cycle = mset (unshuffled distribution counts)" and len: "length counts = length distribution"
    using assms by (rule cycle_mset)
  let ?xs = "concat (map2 (\<lambda>(partition, _) c. replicate (nat c) partition) distribution counts)"
  note m = m [unfolded unshuffled_def]
  have "length ?xs = sum_list (map nat counts)" using len
    by (induction distribution counts rule: list_induct2') auto
  moreover have "count_list ?xs p = sum_list (map (\<lambda>((q, _), c). if q = p then nat c else 0) (zip distribution counts))" for p
    using len by (induction distribution counts rule: list_induct2') (auto simp: count_list_replicate)
  moreover have "count_list cycle p = count_list ?xs p" for p
    using m by (metis count_mset)
  ultimately show ?thesis using c m mset_eq_length [OF m] by (intro exI [of _ counts] conjI) simp_all
qed

theorem partition_cycle_permutation_witness:
  "\<exists>cycle. build_partition_cycle [(0, Fin (1/2)), (1, Fin (1/2))] 7 42 = Inr cycle
    \<and> length cycle = 7 \<and> count_list cycle 0 = 4 \<and> count_list cycle 1 = 3"
proof -
  obtain cycle where c: "build_partition_cycle [(0, Fin (1/2)), (1, Fin (1/2))] 7 42 = Inr cycle"
    by (simp add: build_partition_cycle_def halves Let_def)
  from partition_cycle_permutation [OF c] c show ?thesis by (simp add: halves)
qed

section \<open>The search for users\<close>

text \<open>The candidates below a bound whose key hashes to the target.\<close>

definition hits :: "json \<Rightarrow> int \<Rightarrow> int \<Rightarrow> int \<Rightarrow> int \<Rightarrow> string list" where
  "hits workload_id target partition_count lo hi =
     filter (\<lambda>u. partition_for_key u partition_count = Inr target) (map (user_id workload_id target) [lo..hi - 1])"

lemma hits_step:
  "lo < hi \<Longrightarrow> hits w t pc lo hi =
    (if partition_for_key (user_id w t lo) pc = Inr t then [user_id w t lo] else []) @ hits w t pc (lo + 1) hi"
  by (simp add: hits_def upto_rec1)

lemma hits_none: "hi \<le> lo \<Longrightarrow> hits w t pc lo hi = []"
  by (simp add: hits_def)

text \<open>The search takes the candidates below \<open>n * partition_count * 30 + 1000\<close> one by one; at the bound itself it
  gives up, whether or not that candidate would have been the last one needed.\<close>

lemma find_users_from_spec:
  assumes "\<And>c. \<exists>p. partition_for_key (user_id w t c) pc = Inr p" "candidate \<le> n * pc * 30 + 1000"
  shows "find_users_from w t n pc candidate users =
    (let found = users @ hits w t pc candidate (n * pc * 30 + 1000) in
     if n \<le> int (length users) then Inr users
     else if n \<le> int (length found) then Inr (take (nat n) found)
     else Inl (VerificationError (''could not build enough users for partition '' @ str_of_int t)))"
  using assms
proof (induction w t n pc candidate users rule: find_users_from.induct)
  case (1 w t n pc candidate users)
  let ?u = "user_id w t candidate" and ?b = "n * pc * 30 + 1000"
  show ?case
  proof (cases "n \<le> int (length users)")
    case True
    then show ?thesis by (subst find_users_from.simps) (simp add: Let_def)
  next
    case more: False
    obtain p where p: "partition_for_key ?u pc = Inr p" using "1.prems"(1) by blast
    let ?users = "if p = t then users @ [?u] else users"
    have step: "find_users_from w t n pc candidate users =
        (if ?b < candidate + 1
         then Inl (VerificationError (''could not build enough users for partition '' @ str_of_int t))
         else find_users_from w t n pc (candidate + 1) ?users)"
      using more p by (subst find_users_from.simps) (simp add: Let_def)
    show ?thesis
    proof (cases "candidate < ?b")
      case True
      have "find_users_from w t n pc (candidate + 1) ?users =
          (let found = ?users @ hits w t pc (candidate + 1) ?b in
           if n \<le> int (length ?users) then Inr ?users
           else if n \<le> int (length found) then Inr (take (nat n) found)
           else Inl (VerificationError (''could not build enough users for partition '' @ str_of_int t)))"
        by (rule "1.IH" [OF more refl p refl]) (use True "1.prems" in simp_all)
      moreover have "?users @ hits w t pc (candidate + 1) ?b = users @ hits w t pc candidate ?b"
        using True p by (simp add: hits_step)
      moreover have "n \<le> int (length ?users) \<Longrightarrow> nat n = length ?users"
        using more by (auto split: if_splits)
      ultimately show ?thesis using step True more p by (auto simp: Let_def hits_step)
    next
      case False
      then have "candidate = ?b" using "1.prems"(2) by simp
      then show ?thesis using step more by (simp add: Let_def hits_none)
    qed
  qed
qed

lemma ascii_digits: "list_all is_digit s \<Longrightarrow> list_all is_ascii s"
  by (auto simp: list_all_iff is_digit_def is_ascii_def)

lemma ascii_str_of_int: "list_all is_ascii (str_of_int i)"
  using ascii_digits [OF str_of_nat_digits] by (simp add: str_of_int_def is_ascii_def)

lemma partition_for_user:
  assumes "list_all is_ascii (py_str w)" "pc \<noteq> 0"
  shows "\<exists>p. partition_for_key (user_id w t c) pc = Inr p"
proof -
  have "list_all is_ascii (user_id w t c)"
    using assms(1) ascii_str_of_int by (simp add: user_id_def is_ascii_def)
  then show ?thesis using assms(2) by (simp add: partition_for_key_def murmur2_is_ascii_total)
qed

lemma user_id_inj: "0 \<le> c \<Longrightarrow> 0 \<le> c' \<Longrightarrow> user_id w t c = user_id w t c' \<longleftrightarrow> c = c'"
  by (auto simp: user_id_def str_of_int_def str_of_nat_inj)

lemma distinct_hits: "0 \<le> lo \<Longrightarrow> distinct (hits w t pc lo hi)"
  unfolding hits_def by (intro distinct_filter) (auto simp: distinct_map inj_on_def user_id_inj)

text \<open>C21: the search for users is the search for the first keys of its partition: with an ASCII workload id and at least
  one partition it ends, and it returns the first n of the ids numbered from 0 whose hash falls into the target partition, if
  there are n of them among the first \<open>n * partition_count * 30 + 1000\<close>, and raises the verification error if not.
  The users it returns are distinct.\<close>

theorem find_users_finds_first:
  assumes "list_all is_ascii (py_str workload_id)" and "0 < partition_count"
  shows "find_users_for_partition workload_id target n partition_count =
      (let found = filter (\<lambda>u. partition_for_key u partition_count = Inr target)
             (map (user_id workload_id target) [0..n * partition_count * 30 + 1000 - 1]) in
       if n \<le> int (length found) then Inr (take (nat n) found)
       else Inl (VerificationError (''could not build enough users for partition '' @ str_of_int target)))
    \<and> (\<forall>us. find_users_for_partition workload_id target n partition_count \<noteq> Inr us \<or>
         distinct us \<and> (n < 0 \<or> int (length us) = n))"
proof -
  have p: "\<And>c. \<exists>p. partition_for_key (user_id workload_id target c) partition_count = Inr p"
    using partition_for_user assms by simp
  let ?found = "hits workload_id target partition_count 0 (n * partition_count * 30 + 1000)"
  have eq: "find_users_for_partition workload_id target n partition_count =
      (if n \<le> int (length ?found) then Inr (take (nat n) ?found)
       else Inl (VerificationError (''could not build enough users for partition '' @ str_of_int target)))"
  proof (cases "n \<le> 0")
    case True
    then show ?thesis by (simp add: find_users_for_partition_def find_users_from.simps)
  next
    case False
    then have "0 \<le> n * partition_count * 30 + 1000" using assms(2) by simp
    from find_users_from_spec [OF p this, of "[]"] False show ?thesis
      by (simp add: find_users_for_partition_def Let_def)
  qed
  moreover have "distinct (take (nat n) ?found)" using distinct_hits [of 0] by simp
  ultimately show ?thesis by (auto simp: Let_def hits_def)
qed

theorem murmur2_is_kafka_witness:
  "murmur2_ascii ''21'' = Inr (uint (kafka_murmur2 [0x32, 0x31])) \<and> partition_for_key ''21'' 6 \<noteq> Inr 6"
  using murmur2_is_kafka [of "''21''"] by (auto simp: is_ascii_def dest: spec [of _ 6])

theorem find_users_finds_first_witness:
  "find_users_for_partition (JStr ''x'') 1 1 6 = Inr [''v3-phase3-x-p1-user-0''] \<and> distinct [''v3-phase3-x-p1-user-0'']"
proof -
  have "find_users_for_partition (JStr ''x'') 1 1 6 = Inr [''v3-phase3-x-p1-user-0'']" by code_simp
  moreover have "list_all is_ascii (py_str (JStr ''x''))" by code_simp
  ultimately show ?thesis using find_users_finds_first [of "JStr ''x''" 6 1 1] by auto
qed

section \<open>A manifest that verifies\<close>

lemma find_users_from_hash:
  assumes "find_users_from w t n pc candidate users = Inr us" "\<forall>u \<in> set users. partition_for_key u pc = Inr t"
  shows "\<forall>u \<in> set us. partition_for_key u pc = Inr t"
  using assms
proof (induction w t n pc candidate users rule: find_users_from.induct)
  case (1 w t n pc candidate users)
  show ?case
  proof (cases "n \<le> int (length users)")
    case True
    then have "us = users" using "1.prems"(1) by (subst (asm) find_users_from.simps) (simp add: Let_def)
    then show ?thesis using "1.prems"(2) by simp
  next
    case False
    obtain p where p: "partition_for_key (user_id w t candidate) pc = Inr p"
      "\<not> n * pc * 30 + 1000 < candidate + 1"
      "find_users_from w t n pc (candidate + 1) (if p = t then users @ [user_id w t candidate] else users) = Inr us"
      using "1.prems"(1) False by (subst (asm) find_users_from.simps) (auto simp: Let_def split: if_splits)
    show ?thesis
      by (rule "1.IH" [OF False refl p(1) refl p(2) p(3)]) (use "1.prems"(2) p(1) in auto)
  qed
qed

lemma add_pool_hash:
  assumes "add_pool manifest pc pools x = Inr pools'" "\<forall>(p, us) \<in> set pools. \<forall>u \<in> set us. partition_for_key u pc = Inr p"
  shows "\<forall>(p, us) \<in> set pools'. \<forall>u \<in> set us. partition_for_key u pc = Inr p"
proof -
  obtain q n w us where x: "find_users_for_partition w q n pc = Inr us" "pools' = jset pools q us"
    using assms(1) unfolding add_pool_def by (auto split: prod.splits)
  have "\<forall>u \<in> set us. partition_for_key u pc = Inr q"
    using x(1) unfolding find_users_for_partition_def by (rule find_users_from_hash) simp
  with assms(2) show ?thesis using set_jset [of pools q us] unfolding x(2) by fast
qed

lemma build_pools_hash:
  assumes "build_pools manifest distribution counts = Inr pools" "(p, us) \<in> set pools" "u \<in> set us"
  shows "partition_for_key u (int (length distribution)) = Inr p"
proof -
  have "\<forall>(p, us) \<in> set pools. \<forall>u \<in> set us. partition_for_key u (int (length distribution)) = Inr p"
    using assms(1) unfolding build_pools_def by (rule foldM_invariant) (simp, blast dest: add_pool_hash)
  with assms(2,3) show ?thesis by fast
qed

text \<open>What the assignment of the events keeps.\<close>

definition assignment_ok :: "(int \<times> string list) list \<Rightarrow> nat \<Rightarrow> assignment \<Rightarrow> bool" where
  "assignment_ok pools n s \<longleftrightarrow>
     ctotal (events_by_user s) = n \<and> ctotal (partition_events s) = n
     \<and> distinct (map fst (events_by_user s)) \<and> distinct (map fst (users_by_partition s))
     \<and> (\<forall>(p, us) \<in> set (users_by_partition s). distinct us \<and> us \<noteq> []
          \<and> (\<forall>u \<in> set us. \<exists>pool. (p, pool) \<in> set pools \<and> u \<in> set pool))
     \<and> set (map fst (events_by_user s)) = (\<Union>(p, us) \<in> set (users_by_partition s). set us)"

lemma set_jset_distinct: "distinct (map fst d) \<Longrightarrow> set (jset d k v) = insert (k, v) {x \<in> set d. fst x \<noteq> k}"
  by (induction d k v rule: jset.induct) (auto simp: rev_image_eqI)

lemma users_of_mem: "(p, us) \<in> set (users_by_partition s) \<Longrightarrow> distinct (map fst (users_by_partition s)) \<Longrightarrow> us = users_of s p"
  by (simp add: users_of_def)

lemma assign_event_ok:
  assumes "assign_event cycle pools s i = Inr s'" "assignment_ok pools n s"
  shows "assignment_ok pools (Suc n) s'"
proof -
  obtain q pool u where e: "(q, pool) \<in> set pools" "u \<in> set pool"
    "events_by_user s' = cinc u (events_by_user s)" "partition_events s' = cinc q (partition_events s)"
    "users_by_partition s' = jset (users_by_partition s) q (List.insert u (users_of s q))"
    using assms(1) unfolding assign_event_def
    by (auto simp: Let_def split: if_splits option.splits dest!: map_of_SomeD intro!: that nth_mem mod_less_divisor)
  let ?d = "users_by_partition s"
  have ok: "distinct (map fst ?d)" "\<forall>(p, us) \<in> set ?d. distinct us \<and> us \<noteq> []
      \<and> (\<forall>u \<in> set us. \<exists>pool. (p, pool) \<in> set pools \<and> u \<in> set pool)"
    "set (map fst (events_by_user s)) = (\<Union>(p, us) \<in> set ?d. set us)"
    using assms(2) by (simp_all add: assignment_ok_def)
  have old: "users_of s q = [] \<or> (q, users_of s q) \<in> set ?d"
    by (auto simp: users_of_def split: option.splits dest: map_of_SomeD)
  have others: "p \<noteq> q \<or> us = users_of s q" if "(p, us) \<in> set ?d" for p us
    using users_of_mem [OF that ok(1)] by auto
  have "\<forall>(p, us) \<in> set (users_by_partition s'). distinct us \<and> us \<noteq> []
      \<and> (\<forall>u \<in> set us. \<exists>pool. (p, pool) \<in> set pools \<and> u \<in> set pool)"
    using ok(2) old e(1,2) by (auto simp: e(5) set_jset_distinct [OF ok(1)] List.insert_def)
  moreover have "(\<Union>(p, us) \<in> set (users_by_partition s'). set us) = insert u (\<Union>(p, us) \<in> set ?d. set us)"
  proof -
    let ?rest = "\<Union>(p, us) \<in> {x \<in> set ?d. fst x \<noteq> q}. set us"
    have "(\<Union>(p, us) \<in> set ?d. set us) = set (users_of s q) \<union> ?rest" (is "?all = _")
    proof
      show "?all \<subseteq> set (users_of s q) \<union> ?rest" using others by force
      have "set (users_of s q) \<subseteq> ?all" using old by (metis SUP_upper case_prod_conv empty_set empty_subsetI)
      then show "set (users_of s q) \<union> ?rest \<subseteq> ?all" by auto
    qed
    then show ?thesis by (simp add: e(5) set_jset_distinct [OF ok(1)])
  qed
  ultimately show ?thesis
    using assms(2) ok(1) by (simp add: assignment_ok_def e(3-5) counter_simps distinct_cinc distinct_jset keys_cinc del: set_map)
qed

lemma foldM_upt_invariant:
  assumes "foldM f s [0..<n] = Inr s'" "P 0 s" "\<And>i s s'. P i s \<Longrightarrow> f s i = Inr s' \<Longrightarrow> P (Suc i) s'"
  shows "P n s'"
  using assms
proof (induction n arbitrary: s')
  case (Suc n)
  then obtain s1 where "foldM f s [0..<n] = Inr s1" "f s1 n = Inr s'"
    by (auto simp: foldM_append split: sum.splits)
  with Suc.IH [of s1] Suc.prems(2,3) show ?case by blast
qed simp

text \<open>What the final checks establish.\<close>

lemma sorted_const: "sorted ns \<Longrightarrow> ns \<noteq> [] \<Longrightarrow> hd ns = last ns \<Longrightarrow> n \<in> set ns \<Longrightarrow> n = last ns"
proof -
  assume a: "sorted ns" "ns \<noteq> []" "hd ns = last ns" "n \<in> set ns"
  then obtain i where "i < length ns" "ns ! i = n" by (auto simp: in_set_conv_nth)
  with a sorted_nth_mono [of ns 0 i] sorted_nth_mono [of ns i "length ns - 1"] show "n = last ns"
    by (simp add: hd_conv_nth last_conv_nth)
qed

lemma check_assignment_None:
  assumes "check_assignment name manifest distribution counts s = None"
  obtains each where "eq_int (jget manifest ''userCardinality'') (int (length (events_by_user s)))"
    "\<forall>(u, c) \<in> set (events_by_user s). c = each" "events_by_user s \<noteq> []"
    "\<forall>((p, _), n) \<in> set (zip distribution counts). int (length (users_of s p)) = n"
proof -
  let ?ns = "sort (map snd (events_by_user s))"
  obtain cardinality where c: "map_of manifest ''userCardinality'' = Some cardinality"
    "eq_int cardinality (int (length (events_by_user s)))" "?ns \<noteq> []" "hd ?ns = last ?ns"
    "\<forall>((p, _), n) \<in> set (zip distribution counts). int (length (users_of s p)) = n"
    using assms unfolding check_assignment_def
    by (auto simp: Let_def jitem_def first_fail_None_iff case_prod_unfold split: option.splits sum.splits if_splits)
  have "c = last ?ns" if "(u, c) \<in> set (events_by_user s)" for u c
    by (rule sorted_const) (use c(3,4) that in \<open>auto simp: rev_image_eqI\<close>)
  moreover have "events_by_user s \<noteq> []" using c(3) by auto
  ultimately show ?thesis using that [of "last ?ns"] c by (auto simp: jget_or_def)
qed

lemma ctotal_const: "\<forall>(u, c) \<in> set d. c = each \<Longrightarrow> ctotal d = length d * each"
  by (induction d) (auto simp: ctotal_def)

text \<open>C22: a manifest that verifies spreads its events evenly: the events are as many as the limit says, the users as
  many as the cardinality says, every user got the same number of events, each partition's users all hash to that
  partition and are as many as its share says, and every user who got an event is among them.\<close>

theorem verified_manifest_is_even:
  assumes "verify_manifest name manifest = Inr s"
  shows "\<exists>distribution counts limit cardinality each. read_distribution manifest = Inr distribution
    \<and> int_item manifest ''eventLimit'' = Inr limit \<and> int_item manifest ''userCardinality'' = Inr cardinality
    \<and> build_share_counts distribution cardinality = Inr counts
    \<and> eq_int (jget manifest ''userCardinality'') (int (length (events_by_user s)))
    \<and> ctotal (partition_events s) = nat limit \<and> ctotal (events_by_user s) = nat limit
    \<and> (\<forall>(u, c) \<in> set (events_by_user s). c = each) \<and> length (events_by_user s) * each = nat limit
    \<and> distinct (map fst (events_by_user s))
    \<and> (\<forall>((p, _), n) \<in> set (zip distribution counts). int (length (users_of s p)) = n)
    \<and> (\<forall>(p, us) \<in> set (users_by_partition s). distinct us
         \<and> (\<forall>u \<in> set us. partition_for_key u (int (length distribution)) = Inr p))
    \<and> set (map fst (events_by_user s)) = (\<Union>(p, us) \<in> set (users_by_partition s). set us)"
proof -
  obtain distribution seed cycle cardinality counts pools limit where v:
    "read_distribution manifest = Inr distribution" "int_item manifest ''userCardinality'' = Inr cardinality"
    "build_share_counts distribution cardinality = Inr counts" "build_pools manifest distribution counts = Inr pools"
    "int_item manifest ''eventLimit'' = Inr limit"
    "foldM (assign_event cycle pools) empty_assignment [0..<nat limit] = Inr s"
    "check_assignment name manifest distribution counts s = None"
    using assms unfolding verify_manifest_def by auto
  have "assignment_ok pools (nat limit) s"
    using v(6) by (rule foldM_upt_invariant)
      (simp add: assignment_ok_def empty_assignment_def ctotal_def, rule assign_event_ok)
  then have ok: "ctotal (events_by_user s) = nat limit" "ctotal (partition_events s) = nat limit"
    "distinct (map fst (events_by_user s))"
    "\<forall>(p, us) \<in> set (users_by_partition s). distinct us \<and> (\<forall>u \<in> set us. \<exists>pool. (p, pool) \<in> set pools \<and> u \<in> set pool)"
    "set (map fst (events_by_user s)) = (\<Union>(p, us) \<in> set (users_by_partition s). set us)"
    by (auto simp: assignment_ok_def simp del: set_map)
  obtain each where c: "eq_int (jget manifest ''userCardinality'') (int (length (events_by_user s)))"
    "\<forall>(u, c) \<in> set (events_by_user s). c = each"
    "\<forall>((p, _), n) \<in> set (zip distribution counts). int (length (users_of s p)) = n"
    using v(7) by (rule check_assignment_None)
  have hash: "\<forall>(p, us) \<in> set (users_by_partition s). distinct us
      \<and> (\<forall>u \<in> set us. partition_for_key u (int (length distribution)) = Inr p)"
    using ok(4) build_pools_hash [OF v(4)] by fast
  show ?thesis
    using v(1-3,5) ok(1-3,5) c hash ctotal_const [OF c(2)]
    by (intro exI [of _ distribution] exI [of _ counts] exI [of _ limit] exI [of _ cardinality] exI [of _ each] conjI)
      simp_all
qed

text \<open>One partition, one user, two events.\<close>

definition demo_manifest :: jobj where
  "demo_manifest = [(''workloadId'', JStr ''x''), (''targetPartitionDistribution'', JObj [(''0'', JInt 1)]),
     (''randomSeed'', JInt 1), (''userCardinality'', JInt 1), (''eventLimit'', JInt 2)]"

lemma demo_manifest_verifies: "\<exists>s. verify_manifest ''demo'' demo_manifest = Inr s"
proof -
  have d: "to_double 600 = Fin 600" "to_double 1 = Fin 1"
    using to_double_nat [of 600] to_double_nat [of 1] by simp_all
  have counts: "build_share_counts [(0, Fin 1)] 600 = Inr [600]" "build_share_counts [(0, Fin 1)] 1 = Inr [1]"
    by (simp_all add: build_share_counts_def floor_share_def share_remainder_def scaled_share_def
        float_of_int_def py_int_def trunc_rat_def fsub_def hand_out_stop d)
  obtain cycle where c: "build_partition_cycle [(0, Fin 1)] PARTITION_CYCLE_LENGTH 1 = Inr cycle"
    by (simp add: build_partition_cycle_def counts Let_def PARTITION_CYCLE_LENGTH_def)
  then have m: "mset cycle = mset (replicate 600 0)"
    by (rule cycle_mset) (simp add: counts PARTITION_CYCLE_LENGTH_def unshuffled_def)
  have "set cycle = {0}" "length cycle = 600"
    using mset_eq_setD [OF m] mset_eq_length [OF m] by simp_all
  then have cyc: "cycle \<noteq> []" "cycle ! 0 = 0" "cycle ! (Suc 0 mod length cycle) = 0"
    using nth_mem [of 0 cycle] nth_mem [of 1 cycle] by auto
  have pools: "build_pools demo_manifest [(0, Fin 1)] [1] = Inr [(0, [''v3-phase3-x-p0-user-0''])]" by code_simp
  have read: "read_distribution demo_manifest = Inr [(0, Fin 1)]" by code_simp
  let ?s = "\<lparr>events_by_user = [(''v3-phase3-x-p0-user-0'', 2)], users_by_partition = [(0, [''v3-phase3-x-p0-user-0''])],
    partition_events = [(0, 2)], partition_occurrences = [(0, 2)]\<rparr>"
  have run: "foldM (assign_event cycle [(0, [''v3-phase3-x-p0-user-0''])]) empty_assignment [0..<2] = Inr ?s"
    using cyc by (simp add: upt_rec assign_event_def empty_assignment_def users_of_def cget_def cinc_def Let_def)
  obtain r where "to_double (1 / 1000000) = Fin r" "0 \<le> r"
    by (rule to_double_unit [of "1 / 1000000"]) simp_all
  then have "check_assignment ''demo'' demo_manifest [(0, Fin 1)] [1] ?s = None"
    by (simp add: check_assignment_def demo_manifest_def jitem_def eq_int_def int_over_def true_div_def d fsub_def
        users_of_def Let_def)
  moreover have "int_item demo_manifest ''randomSeed'' = Inr 1" "int_item demo_manifest ''userCardinality'' = Inr 1"
    "int_item demo_manifest ''eventLimit'' = Inr 2"
    by (simp_all add: int_item_def jitem_def demo_manifest_def py_int_def)
  ultimately show ?thesis
    using run by (simp add: verify_manifest_def read c counts pools)
qed

theorem verified_manifest_is_even_witness:
  "\<exists>s each. verify_manifest ''demo'' demo_manifest = Inr s \<and> length (events_by_user s) * each = 2"
proof -
  obtain s where s: "verify_manifest ''demo'' demo_manifest = Inr s" using demo_manifest_verifies by blast
  have "int_item demo_manifest ''eventLimit'' = Inr 2"
    by (simp add: int_item_def jitem_def demo_manifest_def py_int_def)
  with verified_manifest_is_even [OF s] s show ?thesis by auto
qed

end
