(* ===== verification/ValidateOutputs.thy ===== *)
theory ValidateOutputs
  imports Scanning DateTime
begin

text \<open>
  \<open>scripts/data/validate_paysim_outputs.py\<close>: the processed outputs (events, labels, rejects, report) are checked
  against the contract and against each other before they are replayed or sampled.

  \<open>validate_env\<close> is what the outside gives: the lines of the four files (\<open>None\<close>: no such file),
  \<open>json.loads\<close>, and \<open>vo_fromiso\<close>, which is \<open>datetime.fromisoformat\<close>: \<open>None\<close> where it raises
  \<open>ValueError\<close>, else the offset from UTC in seconds of the parsed time (\<open>Some None\<close>: it has none).
\<close>

section \<open>Constants and data\<close>

definition DEFAULT_MAX_REJECT_RATIO :: string where "DEFAULT_MAX_REJECT_RATIO = ''0.01''"

definition EXPECTED_HASH_ALGORITHM :: string where "EXPECTED_HASH_ALGORITHM = ''HMAC-SHA256''"

definition EXPECTED_HASH_PREFIX_LENGTH :: int where "EXPECTED_HASH_PREFIX_LENGTH = 16"

definition EXPECTED_DATASET :: string where "EXPECTED_DATASET = ''ealaxi/paysim1''"

definition EXPECTED_RAW_FILE :: string where "EXPECTED_RAW_FILE = ''PS_20174392719_1491204439457_log.csv''"

definition OUTPUT_TYPES :: "string list" where
  "OUTPUT_TYPES = [''TRANSFER'', ''CASH_OUT'', ''PAYMENT'', ''CASH_IN'', ''DEBIT'']"

definition VALID_REJECT_REASONS :: "string list" where
  "VALID_REJECT_REASONS = [''MISSING_REQUIRED_COLUMN'', ''INVALID_STEP'', ''INVALID_TYPE'', ''INVALID_AMOUNT'',
     ''INVALID_BALANCE'', ''INVALID_LABEL'', ''UNSUPPORTED_ROW'']"

definition EVENT_REQUIRED_FIELDS :: "string list" where
  "EVENT_REQUIRED_FIELDS = [''eventId'', ''userId'', ''accountId'', ''destinationAccountId'', ''eventType'', ''amount'',
     ''currency'', ''eventTime'', ''traceId'', ''schemaVersion'', ''source'', ''balanceFeatures'']"

definition BALANCE_REQUIRED_FIELDS :: "string list" where
  "BALANCE_REQUIRED_FIELDS = [''sourceStep'', ''oldBalanceOrig'', ''newBalanceOrig'', ''oldBalanceDest'', ''newBalanceDest'']"

definition LABEL_REQUIRED_FIELDS :: "string list" where
  "LABEL_REQUIRED_FIELDS = [''eventId'', ''isFraud'', ''sourceFlaggedFraud'', ''sourceStep'', ''sourceType'']"

definition REJECTED_REQUIRED_FIELDS :: "string list" where
  "REJECTED_REQUIRED_FIELDS = [''rowNumber'', ''reason'', ''rawType'', ''message'']"

definition REPORT_REQUIRED_FIELDS :: "string list" where
  "REPORT_REQUIRED_FIELDS = [''scriptVersion'', ''datasetSlug'', ''rawFileName'', ''inputPath'', ''inputSha256'', ''baseTime'',
     ''startedAt'', ''finishedAt'', ''totalRows'', ''acceptedRows'', ''rejectedRows'', ''fraudRows'', ''flaggedFraudRows'',
     ''eventTypeCounts'', ''outputFiles'', ''hashAlgorithm'', ''hashIdPrefixLength'', ''hashSaltSource'']"

definition LABEL_LEAKAGE_FIELDS :: "string list" where
  "LABEL_LEAKAGE_FIELDS = [''isFraud'', ''isFlaggedFraud'', ''sourceFlaggedFraud'']"

definition RAW_IDENTIFIER_FIELDS :: "string list" where
  "RAW_IDENTIFIER_FIELDS = [''nameOrig'', ''nameDest'']"

definition OUTPUT_HASH_IDS :: "(string \<times> char) list" where
  "OUTPUT_HASH_IDS = [(''userId'', CHR ''U''), (''accountId'', CHR ''A''), (''destinationAccountId'', CHR ''D'')]"

definition SALT_VALUE_FIELDS :: "string list" where
  "SALT_VALUE_FIELDS = [''hashSaltValue'', ''saltValue'', ''salt'', ''rawSalt'']"

record validation_summary =
  vs_events :: nat
  vs_labels :: nat
  vs_rejected :: nat
  vs_fraud :: nat
  vs_flagged :: nat
  vs_reject_ratio :: decimal
  vs_event_types :: "string counter"

definition summary_as_dict :: "validation_summary \<Rightarrow> json" where
  "summary_as_dict v = JObj
    [(''events'', JInt (int (vs_events v))),
     (''labels'', JInt (int (vs_labels v))),
     (''rejected'', JInt (int (vs_rejected v))),
     (''fraud'', JInt (int (vs_fraud v))),
     (''flagged'', JInt (int (vs_flagged v))),
     (''rejectRatio'', JStr (decimal_string (vs_reject_ratio v))),
     (''eventTypeCounts'', counter_json (vs_event_types v))]"

text \<open>A path has the text it is given as and its last component.\<close>

record validate_args =
  va_events :: string
  va_labels :: string
  va_rejected :: string
  va_report :: string
  va_events_name :: string
  va_labels_name :: string
  va_rejected_name :: string
  va_max_reject_ratio :: string
  va_require_non_default_salt :: bool

definition default_validate_args :: validate_args where
  "default_validate_args =
    \<lparr>va_events = ''data/processed/paysim-events.jsonl'', va_labels = ''data/processed/paysim-labels.jsonl'',
     va_rejected = ''data/processed/paysim-rejected.jsonl'', va_report = ''data/processed/paysim-validation-report.json'',
     va_events_name = ''paysim-events.jsonl'', va_labels_name = ''paysim-labels.jsonl'',
     va_rejected_name = ''paysim-rejected.jsonl'', va_max_reject_ratio = DEFAULT_MAX_REJECT_RATIO,
     va_require_non_default_salt = False\<rparr>"

record validate_env =
  vo_events :: "string list option"
  vo_labels :: "string list option"
  vo_rejected :: "string list option"
  vo_report :: "string option"
  vo_loads :: "string \<Rightarrow> json option"
  vo_fromiso :: "string \<Rightarrow> int option option"

section \<open>Helpers\<close>

definition require_inputs :: "(string \<times> bool) list \<Rightarrow> exn option" where
  "require_inputs paths =
    (let missing = map fst (filter (\<lambda>(_, exists). \<not> exists) paths) in
     raise_if (missing \<noteq> []) (FileNotFoundError (join '', '' missing)))"

definition output_items :: "(string \<Rightarrow> json option) \<Rightarrow> string \<Rightarrow> string list \<Rightarrow> item list" where
  "output_items loads name ls = jsonl_items
     (\<lambda>n. ValidationError (name @ '':'' @ str_of_nat n @ '': invalid JSON''))
     (\<lambda>n. ValidationError (name @ '':'' @ str_of_nat n @ '': JSON row must be an object'')) loads 1 ls"

definition decimal_value :: "json \<Rightarrow> string \<Rightarrow> decimal res" where
  "decimal_value v path =
    (case v of
       JStr s \<Rightarrow>
         (case decimal_of_str s of
            None \<Rightarrow> Inl (ValidationError (path @ '' must be a valid decimal''))
          | Some d \<Rightarrow> if dec_finite d then Inr d else Inl (ValidationError (path @ '' must be a finite decimal'')))
     | _ \<Rightarrow> Inl (ValidationError (path @ '' must be a decimal string'')))"

definition fails :: "'a res \<Rightarrow> exn option" where
  "fails r = (case r of Inl x \<Rightarrow> Some x | Inr _ \<Rightarrow> None)"

text \<open>\<open>value.replace("Z", "+00:00")\<close>\<close>

definition validate_utc_iso :: "(string \<Rightarrow> int option option) \<Rightarrow> json \<Rightarrow> string \<Rightarrow> exn option" where
  "validate_utc_iso fromiso v path = first_fail
    [raise_if (\<not> is_str v \<or> \<not> ends_with (the_str v) ''Z'')
       (ValidationError (path @ '' must be ISO-8601 UTC ending with Z'')),
     raise_if (fromiso (replace_z (the_str v)) = None)
       (ValidationError (path @ '' must be a valid ISO-8601 timestamp'')),
     raise_if (fromiso (replace_z (the_str v)) \<noteq> Some (Some 0)) (ValidationError (path @ '' must be UTC''))]"

definition contains_text :: "string \<Rightarrow> string \<Rightarrow> bool" where
  "contains_text t s \<longleftrightarrow> list_ex (\<lambda>i. starts_with (drop i s) t) [0..<Suc (length s)]"

definition salt_key :: "string \<Rightarrow> bool" where
  "salt_key k \<longleftrightarrow> k \<in> set SALT_VALUE_FIELDS \<or> contains_text ''salt'' (lower k) \<and> k \<noteq> ''hashSaltSource''"

definition output_forbidden_key :: "bool \<Rightarrow> bool \<Rightarrow> jobj \<Rightarrow> string \<Rightarrow> string \<Rightarrow> exn option" where
  "output_forbidden_key forbid_label forbid_salt d path k =
    (if k \<in> set RAW_IDENTIFIER_FIELDS then Some (ValidationError (path @ '' must not contain raw identifier fields''))
     else if forbid_label \<and> k \<in> set LABEL_LEAKAGE_FIELDS
     then Some (ValidationError (path @ '' must not contain label fields''))
     else if forbid_salt \<and> salt_key k then Some (ValidationError (path @ '' must not contain salt values''))
     else None)"

definition output_scan :: "bool \<Rightarrow> bool \<Rightarrow> string \<Rightarrow> json \<Rightarrow> exn option" where
  "output_scan forbid_label forbid_salt path v =
     scan_json (output_forbidden_key forbid_label forbid_salt)
       (\<lambda>p. ValidationError (p @ '' must not contain raw PaySim identifiers'')) path v"

definition lacking :: "string list \<Rightarrow> jobj \<Rightarrow> string list" where
  "lacking required d = sort (filter (\<lambda>k. \<not> has_key d k) required)"

text \<open>\<open>v not in S\<close>, with the \<open>TypeError\<close> of an unhashable value.\<close>

definition not_in :: "json \<Rightarrow> string list \<Rightarrow> exn \<Rightarrow> exn option" where
  "not_in v S x = (if \<not> hashable v then Some TypeError else raise_if (\<not> in_strings v S) x)"

text \<open>\<open>not isinstance(v, int) or v < 0\<close>\<close>

definition not_natural :: "json \<Rightarrow> bool" where
  "not_natural v \<longleftrightarrow> \<not> is_int v \<or> the_int v < 0"

section \<open>Events\<close>

record event_scan =
  es_event_ids :: "string list"
  es_trace_ids :: "string list"
  es_types :: "string counter"
  es_count :: nat

definition empty_event_scan :: event_scan where
  "empty_event_scan = \<lparr>es_event_ids = [], es_trace_ids = [], es_types = [], es_count = 0\<rparr>"

definition balance_checks :: "string \<Rightarrow> json \<Rightarrow> exn option" where
  "balance_checks row v =
    (let b = the_obj v; missing = lacking BALANCE_REQUIRED_FIELDS b in first_fail
      ([raise_if (\<not> is_obj v) (ValidationError (row @ ''.balanceFeatures must be an object'')),
        raise_if (missing \<noteq> []) (ValidationError (row @ '': missing balance fields: '' @ join '', '' missing)),
        raise_if (not_natural (jget b ''sourceStep''))
          (ValidationError (row @ ''.balanceFeatures.sourceStep must be a non-negative integer''))] @
       map (\<lambda>k. fails (decimal_value (jget b k) (row @ ''.balanceFeatures.'' @ k)))
         (filter (\<lambda>k. k \<noteq> ''sourceStep'') BALANCE_REQUIRED_FIELDS)))"

definition amount_checks :: "string \<Rightarrow> json \<Rightarrow> exn option" where
  "amount_checks row v =
    (case decimal_value v (row @ ''.amount'') of
       Inl x \<Rightarrow> Some x
     | Inr d \<Rightarrow> raise_if (dec_val d < 0) (ValidationError (row @ ''.amount must be >= 0'')))"

definition event_checks :: "(string \<Rightarrow> int option option) \<Rightarrow> string \<Rightarrow> event_scan \<Rightarrow> jobj \<Rightarrow> exn option" where
  "event_checks fromiso row s e =
    (let err = (\<lambda>m. ValidationError (row @ m)); missing = lacking EVENT_REQUIRED_FIELDS e in first_fail
      ([raise_if (missing \<noteq> []) (err ('': missing event fields: '' @ join '', '' missing)),
        output_scan True False row (JObj e),
        raise_if (\<not> nonempty_str (jget e ''eventId'')) (err '': eventId must be a non-empty string''),
        raise_if (the_str (jget e ''eventId'') \<in> set (es_event_ids s)) (err '': duplicate eventId''),
        raise_if (\<not> nonempty_str (jget e ''traceId'')) (err '': traceId must be a non-empty string''),
        raise_if (the_str (jget e ''traceId'') \<in> set (es_trace_ids s)) (err '': duplicate traceId'')] @
       map (\<lambda>(k, c). raise_if (\<not> is_str (jget e k) \<or> \<not> hash_id_match c (the_str (jget e k)))
              (err ('': '' @ k @ '' must match ^'' @ [c] @ ''-[0-9a-f]{16}$''))) OUTPUT_HASH_IDS @
       [not_in (jget e ''eventType'') OUTPUT_TYPES (err '': invalid eventType''),
        amount_checks row (jget e ''amount''),
        raise_if (jget e ''currency'' \<noteq> JStr ''KRW'') (err '': currency must be KRW''),
        raise_if (jget e ''source'' \<noteq> JStr ''PAYSIM'') (err '': source must be PAYSIM''),
        raise_if (jget e ''schemaVersion'' \<noteq> JStr ''v2-paysim'') (err '': schemaVersion must be v2-paysim''),
        raise_if (has_key e ''receivedAt'') (err '': receivedAt must not be present''),
        validate_utc_iso fromiso (jget e ''eventTime'') (row @ ''.eventTime''),
        balance_checks row (jget e ''balanceFeatures'')]))"

definition note_event :: "jobj \<Rightarrow> event_scan \<Rightarrow> event_scan" where
  "note_event e s = \<lparr>es_event_ids = es_event_ids s @ [the_str (jget e ''eventId'')],
     es_trace_ids = es_trace_ids s @ [the_str (jget e ''traceId'')],
     es_types = cinc (the_str (jget e ''eventType'')) (es_types s), es_count = Suc (es_count s)\<rparr>"

definition row_name :: "string \<Rightarrow> nat \<Rightarrow> string" where
  "row_name name n = name @ '':'' @ str_of_nat n"

definition check_event :: "(string \<Rightarrow> int option option) \<Rightarrow> string \<Rightarrow> event_scan \<Rightarrow> nat \<Rightarrow> jobj \<Rightarrow> event_scan res" where
  "check_event fromiso name s n e =
     check_then (event_checks fromiso (row_name name n) s e) (Inr (note_event e s))"

definition validate_events :: "(string \<Rightarrow> int option option) \<Rightarrow> string \<Rightarrow> item list \<Rightarrow> event_scan res" where
  "validate_events fromiso name rows = for_items (check_event fromiso name) empty_event_scan rows"

section \<open>Labels and rejects\<close>

record label_scan =
  ls_ids :: "string list"
  ls_count :: nat
  ls_fraud :: nat
  ls_flagged :: nat

definition empty_label_scan :: label_scan where
  "empty_label_scan = \<lparr>ls_ids = [], ls_count = 0, ls_fraud = 0, ls_flagged = 0\<rparr>"

text \<open>A label id is looked up in a set before its type is known: a list or an object cannot be hashed; any other
  value that is not a string is no event id.\<close>

definition output_label_checks :: "string \<Rightarrow> string list \<Rightarrow> label_scan \<Rightarrow> jobj \<Rightarrow> exn option" where
  "output_label_checks row event_ids s l =
    (let err = (\<lambda>m. ValidationError (row @ m)); missing = lacking LABEL_REQUIRED_FIELDS l; eid = jget l ''eventId'' in first_fail
      [raise_if (missing \<noteq> []) (err ('': missing label fields: '' @ join '', '' missing)),
       output_scan False False row (JObj l),
       raise_if (\<not> hashable eid) TypeError,
       raise_if (in_strings eid (ls_ids s)) (err '': duplicate label eventId''),
       raise_if (\<not> in_strings eid event_ids) (err '': label eventId does not exist in events''),
       raise_if (\<not> is_bool (jget l ''isFraud'')) (err '': isFraud must be boolean''),
       raise_if (\<not> is_bool (jget l ''sourceFlaggedFraud'')) (err '': sourceFlaggedFraud must be boolean''),
       raise_if (not_natural (jget l ''sourceStep'')) (err '': sourceStep must be a non-negative integer''),
       not_in (jget l ''sourceType'') OUTPUT_TYPES (err '': sourceType is invalid'')])"

definition note_label :: "jobj \<Rightarrow> label_scan \<Rightarrow> label_scan" where
  "note_label l s = \<lparr>ls_ids = ls_ids s @ [the_str (jget l ''eventId'')], ls_count = Suc (ls_count s),
     ls_fraud = ls_fraud s + of_bool (the_bool (jget l ''isFraud'')),
     ls_flagged = ls_flagged s + of_bool (the_bool (jget l ''sourceFlaggedFraud''))\<rparr>"

definition check_label :: "string \<Rightarrow> string list \<Rightarrow> label_scan \<Rightarrow> nat \<Rightarrow> jobj \<Rightarrow> label_scan res" where
  "check_label name event_ids s n l =
     check_then (output_label_checks (row_name name n) event_ids s l) (Inr (note_label l s))"

definition validate_labels :: "string \<Rightarrow> string list \<Rightarrow> item list \<Rightarrow> label_scan res" where
  "validate_labels name event_ids rows =
    bind_res (for_items (check_label name event_ids) empty_label_scan rows) (\<lambda>s.
      if list_ex (\<lambda>k. k \<notin> set (ls_ids s)) event_ids
      then Inl (ValidationError ''labels are missing eventIds from events'') else Inr s)"

definition rejected_checks :: "string \<Rightarrow> jobj \<Rightarrow> exn option" where
  "rejected_checks row r =
    (let missing = lacking REJECTED_REQUIRED_FIELDS r in first_fail
      [raise_if (missing \<noteq> []) (ValidationError (row @ '': missing rejected fields: '' @ join '', '' missing)),
       output_scan False False row (JObj r),
       not_in (jget r ''reason'') VALID_REJECT_REASONS (ValidationError (row @ '': rejected reason is not allowed''))])"

definition check_rejected :: "string \<Rightarrow> nat \<Rightarrow> nat \<Rightarrow> jobj \<Rightarrow> nat res" where
  "check_rejected name s n r = check_then (rejected_checks (row_name name n) r) (Inr (Suc s))"

definition validate_rejected :: "string \<Rightarrow> item list \<Rightarrow> nat res" where
  "validate_rejected name rows = for_items (check_rejected name) 0 rows"

section \<open>The report\<close>

definition int_field_check :: "jobj \<Rightarrow> string \<Rightarrow> exn option" where
  "int_field_check report k =
     raise_if (\<not> is_int (jget report k)) (ValidationError (''report.'' @ k @ '' must be an integer''))"

text \<open>\<open>Decimal(a) / Decimal(b)\<close> with 28 digits: an exact quotient has no trailing zero digits after the point.\<close>

fun strip_zeros :: "nat \<Rightarrow> nat \<Rightarrow> nat \<times> nat" where
  "strip_zeros c 0 = (c, 0)"
| "strip_zeros c (Suc k) = (if c mod 10 = 0 then strip_zeros (c div 10) k else (c, Suc k))"

definition decimal_div :: "nat \<Rightarrow> nat \<Rightarrow> decimal" where
  "decimal_div a b =
    (if a = 0 then DFin False 0 0
     else
       (let q = of_nat a / of_nat b :: rat; (m, e) = sig_round q 28 in
        if of_nat m * 10 powi e = q \<and> e \<le> 0
        then (let (c, k) = strip_zeros m (nat (- e)) in DFin False c (- int k))
        else DFin False m e))"

text \<open>\<open>x > y\<close> for a finite \<open>x\<close> and a \<open>y\<close> that is no NaN\<close>

definition dec_greater :: "decimal \<Rightarrow> decimal \<Rightarrow> bool" where
  "dec_greater x y = (case y of DInf neg \<Rightarrow> neg | _ \<Rightarrow> dec_val y < dec_val x)"

definition type_count_checks :: "string counter \<Rightarrow> jobj \<Rightarrow> exn option list" where
  "type_count_checks types counts = concat (map (\<lambda>(t, v).
     [raise_if (t \<notin> set OUTPUT_TYPES) (ValidationError ''report.eventTypeCounts contains invalid event type''),
      raise_if (\<not> is_int v) (ValidationError ''report.eventTypeCounts values must be integers''),
      raise_if (int (cget types t) \<noteq> the_int v) (ValidationError ''report.eventTypeCounts must match events'')]) counts)"

definition report_field_checks :: "bool \<Rightarrow> jobj \<Rightarrow> exn option list" where
  "report_field_checks require_non_default_salt report =
    (let missing = lacking REPORT_REQUIRED_FIELDS report; sha = jget report ''inputSha256''; salt = jget report ''hashSaltSource'' in
     [raise_if (missing \<noteq> []) (ValidationError (''report missing fields: '' @ join '', '' missing)),
      output_scan False True ''report'' (JObj report),
      raise_if (jget report ''datasetSlug'' \<noteq> JStr EXPECTED_DATASET) (ValidationError ''report.datasetSlug is invalid''),
      raise_if (jget report ''rawFileName'' \<noteq> JStr EXPECTED_RAW_FILE) (ValidationError ''report.rawFileName is invalid''),
      raise_if (\<not> is_str sha \<or> \<not> sha256_match (the_str sha))
        (ValidationError ''report.inputSha256 must be 64 hex characters''),
      raise_if (jget report ''hashAlgorithm'' \<noteq> JStr EXPECTED_HASH_ALGORITHM)
        (ValidationError ''report.hashAlgorithm must be HMAC-SHA256''),
      raise_if (\<not> eq_int (jget report ''hashIdPrefixLength'') EXPECTED_HASH_PREFIX_LENGTH)
        (ValidationError ''report.hashIdPrefixLength must be 16''),
      raise_if (\<not> nonempty_str salt) (ValidationError ''report.hashSaltSource must be present''),
      raise_if (require_non_default_salt \<and> salt = JStr ''default-local'')
        (ValidationError ''--require-non-default-salt requires non-default hashSaltSource'')])"

definition report_count_checks :: "event_scan \<Rightarrow> label_scan \<Rightarrow> nat \<Rightarrow> jobj \<Rightarrow> exn option list" where
  "report_count_checks es ls rejected_count report =
    (let n = (\<lambda>k. the_int (jget report k)); counts = jget report ''eventTypeCounts'' in
     map (int_field_check report) [''acceptedRows'', ''rejectedRows'', ''totalRows'', ''fraudRows'', ''flaggedFraudRows''] @
     [raise_if (n ''totalRows'' = 0) (ValidationError ''report.totalRows must be greater than 0''),
      raise_if (n ''acceptedRows'' \<noteq> int (es_count es)) (ValidationError ''report.acceptedRows must match event line count''),
      raise_if (n ''acceptedRows'' \<noteq> int (ls_count ls)) (ValidationError ''report.acceptedRows must match label line count''),
      raise_if (n ''rejectedRows'' \<noteq> int rejected_count) (ValidationError ''report.rejectedRows must match rejected line count''),
      raise_if (n ''totalRows'' \<noteq> n ''acceptedRows'' + n ''rejectedRows'')
        (ValidationError ''report.totalRows must equal acceptedRows + rejectedRows''),
      raise_if (n ''fraudRows'' \<noteq> int (ls_fraud ls)) (ValidationError ''report.fraudRows must match labels''),
      raise_if (n ''flaggedFraudRows'' \<noteq> int (ls_flagged ls)) (ValidationError ''report.flaggedFraudRows must match labels''),
      raise_if (\<not> is_obj counts) (ValidationError ''report.eventTypeCounts must be an object''),
      raise_if (set (map fst (the_obj counts)) \<noteq> set OUTPUT_TYPES)
        (ValidationError ''report.eventTypeCounts must contain all valid event types'')] @
     type_count_checks (es_types es) (the_obj counts) @
     [raise_if (sum_list (map (\<lambda>(t, v). the_int v) (the_obj counts)) \<noteq> n ''acceptedRows'')
        (ValidationError ''report.eventTypeCounts sum must match acceptedRows'')])"

definition validate_report ::
  "validate_env \<Rightarrow> event_scan \<Rightarrow> label_scan \<Rightarrow> nat \<Rightarrow> decimal \<Rightarrow> bool \<Rightarrow> validation_summary res" where
  "validate_report env es ls rejected_count max_ratio require_non_default_salt =
    (case vo_loads env (the (vo_report env)) of
       None \<Rightarrow> Inl (ValidationError ''report must be valid JSON'')
     | Some (JObj report) \<Rightarrow>
         check_then (first_fail (report_field_checks require_non_default_salt report @
             report_count_checks es ls rejected_count report))
           (let ratio = decimal_div (nat (the_int (jget report ''rejectedRows''))) (nat (the_int (jget report ''totalRows''))) in
            if dec_greater ratio max_ratio then Inl (ValidationError ''reject ratio exceeds max reject ratio'')
            else Inr \<lparr>vs_events = es_count es, vs_labels = ls_count ls, vs_rejected = rejected_count,
                      vs_fraud = ls_fraud ls, vs_flagged = ls_flagged ls, vs_reject_ratio = ratio,
                      vs_event_types = es_types es\<rparr>)
     | Some _ \<Rightarrow> Inl (ValidationError ''report must be an object''))"

section \<open>The run\<close>

text \<open>\<open>Decimal(text)\<close> and its comparison with 0: comparing a NaN raises \<open>InvalidOperation\<close>, which is not a
  \<open>ValueError\<close>.\<close>

definition parse_max_ratio :: "string \<Rightarrow> decimal res" where
  "parse_max_ratio t =
    (case decimal_of_str t of
       None \<Rightarrow> Inl (ValueError ''--max-reject-ratio must be decimal'')
     | Some d \<Rightarrow>
         (case d of
            DNaN \<Rightarrow> Inl InvalidOperation
          | DInf neg \<Rightarrow> if neg then Inl (ValueError ''--max-reject-ratio must be >= 0'') else Inr d
          | _ \<Rightarrow> if dec_val d < 0 then Inl (ValueError ''--max-reject-ratio must be >= 0'') else Inr d))"

definition validate :: "validate_env \<Rightarrow> validate_args \<Rightarrow> validation_summary res" where
  "validate env a =
    bind_res (parse_max_ratio (va_max_reject_ratio a)) (\<lambda>max_ratio.
    check_then (require_inputs
        [(va_events a, vo_events env \<noteq> None), (va_labels a, vo_labels env \<noteq> None),
         (va_rejected a, vo_rejected env \<noteq> None), (va_report a, vo_report env \<noteq> None)])
    (bind_res (validate_events (vo_fromiso env) (va_events_name a)
        (output_items (vo_loads env) (va_events_name a) (the (vo_events env)))) (\<lambda>es.
     bind_res (validate_labels (va_labels_name a) (es_event_ids es)
        (output_items (vo_loads env) (va_labels_name a) (the (vo_labels env)))) (\<lambda>ls.
     bind_res (validate_rejected (va_rejected_name a)
        (output_items (vo_loads env) (va_rejected_name a) (the (vo_rejected env)))) (\<lambda>n.
       validate_report env es ls n max_ratio (va_require_non_default_salt a))))))"

definition validate_exit_status :: "validation_summary res \<Rightarrow> int" where
  "validate_exit_status r = (case r of
     Inr _ \<Rightarrow> 0
   | Inl (FileNotFoundError _) \<Rightarrow> 2
   | Inl (ValueError _) \<Rightarrow> 2
   | Inl _ \<Rightarrow> 1)"

end
