(* ===== verification/Prepare.thy ===== *)
theory Prepare
  imports PyValue TypeMapping DateTime Sha256
begin

text \<open>
  \<open>scripts/data/prepare_paysim_dataset.py\<close>: the PaySim CSV becomes normalised runtime events, a label
  sidecar, reject records and a report, with the customer names replaced by a keyed hash.

  \<open>prepare_env\<close> is what the outside gives: the bytes of the input, the records \<open>csv.reader\<close> makes of
  them and the exception it raises after them, if it does (\<open>csv.Error\<close>, \<open>UnicodeDecodeError\<close>),
  \<open>datetime.fromisoformat\<close>, which output files exist, the process environment, and the
  two readings of the clock. \<open>fromisoformat\<close> is \<open>None\<close> where it raises \<open>ValueError\<close>, else the time on the
  clock and its offset from UTC, if it has one, in microseconds. \<open>csv.DictReader\<close> is \<open>dict_rows\<close>: a record that is
  too short gives its missing columns the value \<open>None\<close>, and empty records are skipped.
\<close>

section \<open>Constants and data\<close>

definition DEFAULT_LOCAL_SALT :: string where
  "DEFAULT_LOCAL_SALT = ''local-dev-paysim-salt''"

definition HASH_PREFIX_LENGTH :: nat where "HASH_PREFIX_LENGTH = 16"

definition VALID_TYPES :: "string list" where
  "VALID_TYPES = [''PAYMENT'', ''TRANSFER'', ''CASH_OUT'', ''CASH_IN'', ''DEBIT'']"

definition REQUIRED_COLUMNS :: "string list" where
  "REQUIRED_COLUMNS = [''step'', ''type'', ''amount'', ''nameOrig'', ''oldbalanceOrg'', ''newbalanceOrig'',
     ''nameDest'', ''oldbalanceDest'', ''newbalanceDest'', ''isFraud'', ''isFlaggedFraud'']"

record prepare_args =
  pa_input :: string
  pa_input_name :: string
  pa_output_dir :: string
  pa_base_time :: string
  pa_dataset_slug :: string
  pa_limit :: "int option"
  pa_reject_policy :: string
  pa_hash_salt :: "string option"
  pa_hash_salt_env :: string
  pa_require_non_default_salt :: bool
  pa_force :: bool

definition default_prepare_args :: prepare_args where
  "default_prepare_args =
    \<lparr>pa_input = ''data/raw/PS_20174392719_1491204439457_log.csv'',
     pa_input_name = ''PS_20174392719_1491204439457_log.csv'',
     pa_output_dir = ''data/processed'',
     pa_base_time = ''2026-01-01T00:00:00Z'',
     pa_dataset_slug = ''ealaxi/paysim1'',
     pa_limit = None,
     pa_reject_policy = ''row-level'',
     pa_hash_salt = None,
     pa_hash_salt_env = ''PAYSIM_HASH_SALT'',
     pa_require_non_default_salt = False,
     pa_force = False\<rparr>"

record output_files =
  of_events :: string
  of_labels :: string
  of_rejected :: string
  of_report :: string

type_synonym csv_row = "(string \<times> string option) list"

record prepare_env =
  pe_bytes :: "byte list option"
  pe_records :: "string list list"
  pe_csv_fault :: "exn option"
  pe_fromiso :: "string \<Rightarrow> (int \<times> int option) option"
  pe_exists :: "string \<Rightarrow> bool"
  pe_getenv :: "string \<Rightarrow> string option"
  pe_started :: int
  pe_finished :: int

record prepare_state =
  total_rows :: nat
  accepted_rows :: nat
  rejected_rows :: nat
  fraud_rows :: nat
  flagged_fraud_rows :: nat
  native_counts :: "string counter"
  normalized_counts :: "string counter"
  support_counts :: "string counter"
  excluded_counts :: "string counter"
  out_events :: "jobj list"
  out_labels :: "jobj list"
  out_rejected :: "jobj list"

definition init_prepare_state :: prepare_state where
  "init_prepare_state =
    \<lparr>total_rows = 0, accepted_rows = 0, rejected_rows = 0, fraud_rows = 0, flagged_fraud_rows = 0,
     native_counts = map (\<lambda>t. (t, 0)) (sort VALID_TYPES), normalized_counts = [], support_counts = [],
     excluded_counts = [], out_events = [], out_labels = [], out_rejected = []\<rparr>"

text \<open>A time without an offset is one in UTC; a time whose instant is not on the calendar cannot be converted.\<close>

definition parse_base_time :: "(string \<Rightarrow> (int \<times> int option) option) \<Rightarrow> string \<Rightarrow> int res" where
  "parse_base_time fromiso value =
    (case fromiso (replace_z value) of
       None \<Rightarrow> Inl (SystemExit (''ERROR: invalid --base-time: '' @ value))
     | Some (local, None) \<Rightarrow> Inr local
     | Some (local, Some offset) \<Rightarrow>
         if local - offset < 0 \<or> max_instant < local - offset then Inl OverflowError else Inr (local - offset))"

section \<open>Fields of a row\<close>

text \<open>\<open>row[k]\<close> raises \<open>KeyError\<close> for an unknown column; a column may hold \<open>None\<close>.\<close>

definition row_get :: "csv_row \<Rightarrow> string \<Rightarrow> string option option" where
  "row_get row k = map_of row k"

definition decimal_from :: "csv_row \<Rightarrow> string \<Rightarrow> string \<Rightarrow> decimal res" where
  "decimal_from row field reason =
    (case row_get row field of
       None \<Rightarrow> Inl (RowRejected reason (field @ '' must be a decimal''))
     | Some None \<Rightarrow> Inl TypeError
     | Some (Some s) \<Rightarrow>
         (case decimal_of_str s of
            None \<Rightarrow> Inl (RowRejected reason (field @ '' must be a decimal''))
          | Some d \<Rightarrow> if \<not> dec_finite d then Inl (RowRejected reason (field @ '' must be a finite decimal''))
              else Inr d))"

definition parse_step :: "csv_row \<Rightarrow> int res" where
  "parse_step row =
    (case row_get row ''step'' of
       None \<Rightarrow> Inl (RowRejected ''INVALID_STEP'' ''step must be an integer'')
     | Some None \<Rightarrow> Inl TypeError
     | Some (Some s) \<Rightarrow>
         (case int_of_str s of
            None \<Rightarrow> Inl (RowRejected ''INVALID_STEP'' ''step must be an integer'')
          | Some i \<Rightarrow> if i < 0 then Inl (RowRejected ''INVALID_STEP'' ''step must be >= 0'') else Inr i))"

definition parse_label :: "csv_row \<Rightarrow> string \<Rightarrow> bool res" where
  "parse_label row field =
    (if row_get row field = Some (Some ''0'') then Inr False
     else if row_get row field = Some (Some ''1'') then Inr True
     else Inl (RowRejected ''INVALID_LABEL'' (field @ '' must be 0 or 1'')))"

definition pseudonym_digest :: "string \<Rightarrow> string \<Rightarrow> string" where
  "pseudonym_digest raw salt = take HASH_PREFIX_LENGTH (hexdigest (hmac_sha256 (utf8 salt) (utf8 raw)))"

definition hashed_id :: "string \<Rightarrow> string \<Rightarrow> string \<Rightarrow> string" where
  "hashed_id prefix raw salt = prefix @ ''-'' @ pseudonym_digest raw salt"

definition resolve_salt :: "prepare_args \<Rightarrow> (string \<Rightarrow> string option) \<Rightarrow> (string \<times> string) res" where
  "resolve_salt a getenv =
    (if pa_hash_salt a \<noteq> None \<and> pa_hash_salt a \<noteq> Some [] then Inr (the (pa_hash_salt a), ''cli'')
     else if getenv (pa_hash_salt_env a) \<noteq> None \<and> getenv (pa_hash_salt_env a) \<noteq> Some []
     then Inr (the (getenv (pa_hash_salt_env a)), ''env:'' @ pa_hash_salt_env a)
     else if pa_require_non_default_salt a
     then Inl (SystemExit ''ERROR: --require-non-default-salt requires --hash-salt or a hash salt environment variable'')
     else Inr (DEFAULT_LOCAL_SALT, ''default-local''))"

definition output_paths :: "string \<Rightarrow> output_files" where
  "output_paths dir =
    \<lparr>of_events = dir @ ''/paysim-events.jsonl'',
     of_labels = dir @ ''/paysim-labels.jsonl'',
     of_rejected = dir @ ''/paysim-rejected.jsonl'',
     of_report = dir @ ''/paysim-validation-report.json''\<rparr>"

definition ensure_outputs :: "(string \<Rightarrow> bool) \<Rightarrow> output_files \<Rightarrow> bool \<Rightarrow> exn option" where
  "ensure_outputs exists paths force =
    (let existing = filter exists [of_events paths, of_labels paths, of_rejected paths, of_report paths] in
     raise_if (existing \<noteq> [] \<and> \<not> force)
       (SystemExit (''ERROR: output file already exists. Use --force to overwrite: '' @ join '', '' existing)))"

definition validate_header :: "string list list \<Rightarrow> exn option" where
  "validate_header records =
    (case records of
       [] \<Rightarrow> Some (SystemExit ''ERROR: CSV header parse failed.'')
     | names # _ \<Rightarrow>
         (let missing = sort (filter (\<lambda>c. c \<notin> set names) REQUIRED_COLUMNS) in
          raise_if (missing \<noteq> []) (SystemExit (''ERROR: missing required columns: '' @ join '', '' missing))))"

text \<open>The names of the columns are read first, and the reader may fail at them.\<close>

definition read_header :: "string list list \<Rightarrow> exn option \<Rightarrow> exn option" where
  "read_header records fault =
    (if records = [] \<and> fault \<noteq> None then fault else validate_header records)"

text \<open>\<open>csv.DictReader\<close>: \<open>dict(zip(fieldnames, record))\<close>, later columns of one name winning, \<open>None\<close>
  for the columns a record lacks.\<close>

definition dict_row :: "string list \<Rightarrow> string list \<Rightarrow> csv_row" where
  "dict_row names record =
     foldl (\<lambda>d (k, v). jset d k v) []
       (zip names (map Some record) @ map (\<lambda>k. (k, None)) (drop (length record) names))"

definition dict_rows :: "string list list \<Rightarrow> csv_row list" where
  "dict_rows records = (case records of [] \<Rightarrow> []
     | names # rs \<Rightarrow> map (dict_row names) (filter (\<lambda>r. r \<noteq> []) rs))"

section \<open>One row\<close>

definition event_object ::
  "nat \<Rightarrow> string \<Rightarrow> string \<Rightarrow> string \<Rightarrow> string \<Rightarrow> string \<Rightarrow> int \<Rightarrow> int \<Rightarrow> decimal \<Rightarrow> decimal list \<Rightarrow> jobj" where
  "event_object row_number t normalized level origin_hash dest_id event_time step amount balances =
    [(''eventId'', JStr (''paysim-'' @ pad 9 row_number)),
     (''userId'', JStr (''U-'' @ origin_hash)),
     (''accountId'', JStr (''A-'' @ origin_hash)),
     (''destinationAccountId'', JStr dest_id),
     (''eventType'', JStr normalized),
     (''nativeEventType'', JStr t),
     (''normalizedEventType'', JStr normalized),
     (''typeSupportLevel'', JStr level),
     (''typeMappingPolicyVersion'', JStr MAPPING_POLICY_VERSION),
     (''amount'', JStr (decimal_string amount)),
     (''currency'', JStr ''KRW''),
     (''eventTime'', JStr (iso_z event_time)),
     (''traceId'', JStr (''trace-paysim-'' @ pad 9 row_number)),
     (''schemaVersion'', JStr ''v2-paysim''),
     (''source'', JStr ''PAYSIM''),
     (''balanceFeatures'', JObj ((''sourceStep'', JInt step) #
        zip [''oldBalanceOrig'', ''newBalanceOrig'', ''oldBalanceDest'', ''newBalanceDest'']
          (map (\<lambda>d. JStr (decimal_string d)) balances)))]"

definition label_object :: "nat \<Rightarrow> string \<Rightarrow> string \<Rightarrow> string \<Rightarrow> int \<Rightarrow> bool \<Rightarrow> bool \<Rightarrow> jobj" where
  "label_object row_number t normalized level step is_fraud flagged =
    [(''eventId'', JStr (''paysim-'' @ pad 9 row_number)),
     (''isFraud'', JBool is_fraud),
     (''sourceFlaggedFraud'', JBool flagged),
     (''sourceStep'', JInt step),
     (''sourceType'', JStr t),
     (''normalizedType'', JStr normalized),
     (''typeSupportLevel'', JStr level),
     (''typeMappingPolicyVersion'', JStr MAPPING_POLICY_VERSION)]"

text \<open>\<open>row.get(k, "").strip()\<close>: \<open>None\<close> has no \<open>strip\<close>.\<close>

definition name_of :: "csv_row \<Rightarrow> string \<Rightarrow> string option" where
  "name_of row k = (case row_get row k of None \<Rightarrow> Some [] | Some v \<Rightarrow> v)"

definition check_names :: "csv_row \<Rightarrow> (string \<times> string) res" where
  "check_names row =
    (let rejected = Inl (RowRejected ''UNSUPPORTED_ROW'' ''nameOrig and nameDest must not be blank'') in
     case name_of row ''nameOrig'' of
       None \<Rightarrow> Inl AttributeError
     | Some o_name \<Rightarrow>
         if strip o_name = [] then rejected
         else (case name_of row ''nameDest'' of
             None \<Rightarrow> Inl AttributeError
           | Some d_name \<Rightarrow> if strip d_name = [] then rejected else Inr (o_name, d_name)))"

definition check_type :: "csv_row \<Rightarrow> (string \<times> string) res" where
  "check_type row =
    (case (case row_get row ''type'' of None \<Rightarrow> Some [] | Some v \<Rightarrow> v) of
       None \<Rightarrow> Inl (RowRejected ''INVALID_TYPE'' ''type is not supported'')
     | Some t \<Rightarrow>
         if t \<notin> set VALID_TYPES then Inl (RowRejected ''INVALID_TYPE'' ''type is not supported'')
         else (case normalized_type (mapping_for t) of
             None \<Rightarrow> Inl (RowRejected
               (if excluded_reason (mapping_for t) \<noteq> None \<and> excluded_reason (mapping_for t) \<noteq> Some []
                then the (excluded_reason (mapping_for t)) else ''UNSUPPORTED_NATIVE_TYPE:'' @ t)
               ''native type is not supported by replay mapping policy'')
           | Some normalized \<Rightarrow> Inr (t, normalized)))"

definition normalize_row :: "csv_row \<Rightarrow> nat \<Rightarrow> int \<Rightarrow> string \<Rightarrow> (jobj \<times> jobj) res" where
  "normalize_row row row_number base_time salt =
    bind_res (parse_step row) (\<lambda>step.
    bind_res (check_type row) (\<lambda>(t, normalized).
    bind_res (decimal_from row ''amount'' ''INVALID_AMOUNT'') (\<lambda>amount.
    (if dec_val amount < 0 then Inl (RowRejected ''INVALID_AMOUNT'' ''amount must be >= 0'')
     else
      bind_res (mapM (\<lambda>k. decimal_from row k ''INVALID_BALANCE'')
          [''oldbalanceOrg'', ''newbalanceOrig'', ''oldbalanceDest'', ''newbalanceDest'']) (\<lambda>balances.
      bind_res (check_names row) (\<lambda>(o_name, d_name).
      bind_res (parse_label row ''isFraud'') (\<lambda>is_fraud.
      bind_res (parse_label row ''isFlaggedFraud'') (\<lambda>flagged.
      bind_res (add_hours base_time step) (\<lambda>event_time.
        (let level = support_level (mapping_for t) in
         Inr (event_object row_number t normalized level (pseudonym_digest o_name salt)
                (hashed_id ''D'' d_name salt) event_time step amount balances,
              label_object row_number t normalized level step is_fraud flagged)))))))))))"

section \<open>The loop and the report\<close>

definition rejected_record :: "nat \<Rightarrow> string \<Rightarrow> string \<Rightarrow> csv_row \<Rightarrow> jobj" where
  "rejected_record row_number reason message row =
    [(''rowNumber'', JInt (int row_number)),
     (''reason'', JStr reason),
     (''rawType'', (case row_get row ''type'' of Some (Some t) \<Rightarrow> JStr t | _ \<Rightarrow> JNull)),
     (''message'', JStr message)]"

definition count_excluded :: "string \<Rightarrow> prepare_state \<Rightarrow> prepare_state" where
  "count_excluded reason s =
    (if starts_with reason ''UNSUPPORTED_NATIVE_TYPE:''
     then s\<lparr>excluded_counts := cinc (after_first CHR '':'' reason) (excluded_counts s)\<rparr> else s)"

definition reject_row :: "nat \<Rightarrow> string \<Rightarrow> string \<Rightarrow> csv_row \<Rightarrow> prepare_state \<Rightarrow> prepare_state" where
  "reject_row row_number reason message row s =
    (let s1 = count_excluded reason (s\<lparr>total_rows := Suc (total_rows s), rejected_rows := Suc (rejected_rows s)\<rparr>)
     in s1\<lparr>out_rejected := out_rejected s1 @ [rejected_record row_number reason message row]\<rparr>)"

definition accept_row :: "jobj \<Rightarrow> jobj \<Rightarrow> prepare_state \<Rightarrow> prepare_state" where
  "accept_row event label s = s\<lparr>
     total_rows := Suc (total_rows s),
     accepted_rows := Suc (accepted_rows s),
     fraud_rows := fraud_rows s + (if the_bool (jget label ''isFraud'') then 1 else 0),
     flagged_fraud_rows := flagged_fraud_rows s + (if the_bool (jget label ''sourceFlaggedFraud'') then 1 else 0),
     native_counts := cinc (the_str (jget event ''nativeEventType'')) (native_counts s),
     normalized_counts := cinc (the_str (jget event ''normalizedEventType'')) (normalized_counts s),
     support_counts := cinc (the_str (jget event ''typeSupportLevel'')) (support_counts s),
     out_events := out_events s @ [event],
     out_labels := out_labels s @ [label]\<rparr>"

definition process_row :: "string \<Rightarrow> int \<Rightarrow> string \<Rightarrow> nat \<Rightarrow> csv_row \<Rightarrow> prepare_state \<Rightarrow> prepare_state res" where
  "process_row policy base_time salt row_number row s =
    (case normalize_row row row_number base_time salt of
       Inr (event, label) \<Rightarrow> Inr (accept_row event label s)
     | Inl x \<Rightarrow>
         (case x of
            RowRejected reason message \<Rightarrow>
              if policy = ''fail-fast''
              then Inl (SystemExit (''ERROR: row '' @ str_of_nat row_number @ '': '' @ reason @ '': '' @ message))
              else Inr (reject_row row_number reason message row s)
          | _ \<Rightarrow> Inl x))"

text \<open>The next record is read before the limit is tested; \<open>fault\<close> is what the reader raises after the last one.\<close>

fun process_rows ::
  "exn option \<Rightarrow> int option \<Rightarrow> string \<Rightarrow> int \<Rightarrow> string \<Rightarrow> nat \<Rightarrow> csv_row list \<Rightarrow> prepare_state \<Rightarrow> prepare_state res" where
  "process_rows fault limit policy base_time salt n [] s = (case fault of None \<Rightarrow> Inr s | Some x \<Rightarrow> Inl x)"
| "process_rows fault limit policy base_time salt n (row # rows) s =
     (if (case limit of None \<Rightarrow> False | Some k \<Rightarrow> k \<le> int (total_rows s)) then Inr s
      else bind_res (process_row policy base_time salt n row s)
             (process_rows fault limit policy base_time salt (Suc n) rows))"

definition prepare_report ::
  "prepare_args \<Rightarrow> string \<Rightarrow> int \<Rightarrow> string \<Rightarrow> output_files \<Rightarrow> int \<Rightarrow> int \<Rightarrow> prepare_state \<Rightarrow> jobj" where
  "prepare_report a input_sha256 base_time salt_source paths started finished s =
    [(''scriptVersion'', JStr ''v2-phase-8''),
     (''datasetSlug'', JStr (pa_dataset_slug a)),
     (''rawFileName'', JStr (pa_input_name a)),
     (''inputPath'', JStr (pa_input a)),
     (''inputSha256'', JStr input_sha256),
     (''baseTime'', JStr (iso_z base_time)),
     (''startedAt'', JStr (iso_z started)),
     (''finishedAt'', JStr (iso_z finished)),
     (''totalRows'', JInt (int (total_rows s))),
     (''acceptedRows'', JInt (int (accepted_rows s))),
     (''rejectedRows'', JInt (int (rejected_rows s))),
     (''fraudRows'', JInt (int (fraud_rows s))),
     (''flaggedFraudRows'', JInt (int (flagged_fraud_rows s))),
     (''eventTypeCounts'', counter_json (native_counts s)),
     (''mappingPolicyVersion'', JStr MAPPING_POLICY_VERSION),
     (''typeMappingPolicyVersion'', JStr MAPPING_POLICY_VERSION),
     (''typeMappingPolicy'', mapping_policy_table),
     (''nativeTypeDistribution'', counter_json (native_counts s)),
     (''normalizedTypeDistribution'', counter_json (sorted_items (normalized_counts s))),
     (''typeSupportLevelDistribution'', counter_json (sorted_items (support_counts s))),
     (''excludedByType'', counter_json (sorted_items (excluded_counts s))),
     (''hashAlgorithm'', JStr ''HMAC-SHA256''),
     (''hashIdPrefixLength'', JInt (int HASH_PREFIX_LENGTH)),
     (''hashSaltSource'', JStr salt_source),
     (''outputFiles'', JObj
       [(''events'', JStr (of_events paths)),
        (''labels'', JStr (of_labels paths)),
        (''rejected'', JStr (of_rejected paths))])]"

definition process :: "prepare_env \<Rightarrow> prepare_args \<Rightarrow> (prepare_state \<times> jobj) res" where
  "process env a =
    check_then (first_fail
      [raise_if (pe_bytes env = None) (SystemExit (''ERROR: input file not found: '' @ pa_input a)),
       raise_if (case pa_limit a of None \<Rightarrow> False | Some n \<Rightarrow> n < 0) (SystemExit ''ERROR: --limit must be >= 0'')])
    (bind_res (parse_base_time (pe_fromiso env) (pa_base_time a)) (\<lambda>base_time.
     bind_res (resolve_salt a (pe_getenv env)) (\<lambda>(salt, salt_source).
     (let paths = output_paths (pa_output_dir a) in
      check_then (ensure_outputs (pe_exists env) paths (pa_force a))
      (check_then (read_header (pe_records env) (pe_csv_fault env))
       (bind_res (process_rows (pe_csv_fault env) (pa_limit a) (pa_reject_policy a) base_time salt 1
            (dict_rows (pe_records env)) init_prepare_state) (\<lambda>s.
          Inr (s, prepare_report a (hexdigest (sha256 (the (pe_bytes env)))) base_time salt_source paths
            (pe_started env) (pe_finished env) s))))))))"

end
