(* ===== verification/PrepareCorrect.thy ===== *)
theory PrepareCorrect
  imports Prepare Scanning
begin

text \<open>
  What is proved of the preparation: writing a decimal and reading it back keeps its value, what an
  accepted row's event and label are, and the outputs of a run as a function of the rows it took.
\<close>

section \<open>Decimals in text\<close>

text \<open>A decimal whose exponent is within the limits of \<open>decimal\<close>, as every parsed one is.\<close>

definition dec_ok :: "decimal \<Rightarrow> bool" where
  "dec_ok d \<longleftrightarrow> (case d of DFin neg c e \<Rightarrow> min_etiny \<le> e \<and> e + int (length (str_of_nat c)) - 1 \<le> max_emax | _ \<Rightarrow> True)"

lemma decimal_of_str_ok: "decimal_of_str s = Some d \<Longrightarrow> dec_ok d"
  by (auto simp: decimal_of_str_def dec_ok_def Let_def split: prod.splits if_splits option.splits)

definition plain :: "string \<Rightarrow> bool" where
  "plain s \<longleftrightarrow> list_all (\<lambda>c. is_digit c \<or> c = CHR ''.'') s"

lemma plain_char: "is_digit c \<or> c = CHR ''.'' \<Longrightarrow> \<not> is_space c \<and> c \<noteq> CHR ''_''"
  by (auto simp: is_digit_def is_space_def Let_def)

lemma strip_noop: "list_all (\<lambda>c. \<not> is_space c) s \<Longrightarrow> strip s = s"
proof -
  assume a: "list_all (\<lambda>c. \<not> is_space c) s"
  have *: "dropWhile is_space t = t" if "\<forall>c \<in> set t. \<not> is_space c" for t using that by (cases t) auto
  from a have "dropWhile is_space s = s" "dropWhile is_space (rev s) = rev s"
    unfolding list_all_iff by (auto intro!: *)
  then show ?thesis by (simp add: strip_def)
qed

lemma digit_not_sign: "is_digit c \<Longrightarrow> c \<noteq> CHR ''-'' \<and> c \<noteq> CHR ''+'' \<and> c \<noteq> CHR ''.''"
  by (auto simp: is_digit_def)

lemma digit_lower: "is_digit c \<Longrightarrow> lower_char c = c"
  by (auto simp: is_digit_def lower_char_def Let_def)

lemma digit_not_word_start:
  "is_digit c \<Longrightarrow> c # s \<notin> {''inf'', ''infinity''} \<and> \<not> starts_with (c # s) ''nan'' \<and> \<not> starts_with (c # s) ''snan''"
  by (auto simp: is_digit_def starts_with_def)

lemma literal_plain:
  assumes "list_all is_digit ip" "list_all is_digit fp" "ip \<noteq> []"
  shows "decimal_literal (ip @ CHR ''.'' # fp) = Some (ip @ fp, - int (length fp))"
    and "decimal_literal ip = Some (ip, 0)"
proof -
  have dot: "\<not> is_digit CHR ''.''" by (simp add: is_digit_def)
  have all: "takeWhile is_digit t = t" "dropWhile is_digit t = []" if "list_all is_digit t" for t
    using that by (induction t) auto
  have "takeWhile is_digit (ip @ CHR ''.'' # fp) = ip" "dropWhile is_digit (ip @ CHR ''.'' # fp) = CHR ''.'' # fp"
    using assms(1) dot by (induction ip) auto
  with assms show "decimal_literal (ip @ CHR ''.'' # fp) = Some (ip @ fp, - int (length fp))"
    "decimal_literal ip = Some (ip, 0)"
    by (simp_all add: decimal_literal_def exponent_of_def Let_def all)
qed

text \<open>Reading a text of digits, with or without a point and a minus sign.\<close>

lemma sign_noop:
  assumes "list_all (\<lambda>c. is_digit c \<or> c = CHR ''.'') t" "t = a # r" "is_digit a"
  shows "split_sign (drop_underscores (strip ((if neg then ''-'' else []) @ t))) = (neg, t)"
proof -
  let ?u = "(if neg then ''-'' else []) @ t"
  have t: "\<forall>c \<in> set t. \<not> is_space c \<and> c \<noteq> CHR ''_''"
    using assms(1) plain_char unfolding list_all_iff by blast
  have "\<not> is_space CHR ''-''" "CHR ''-'' \<noteq> CHR ''_''" by (simp_all add: is_space_def)
  with t have "list_all (\<lambda>c. \<not> is_space c) ?u" "filter (\<lambda>c. c \<noteq> CHR ''_'') ?u = ?u"
    unfolding list_all_iff by (auto simp: filter_id_conv)
  then have "drop_underscores (strip ?u) = ?u" by (simp only: strip_noop drop_underscores_def)
  then show ?thesis using assms(2,3) digit_not_sign [of a] by (simp add: split_sign_def)
qed

lemma decimal_of_plain:
  assumes "list_all is_digit ip" "list_all is_digit fp" "ip \<noteq> []"
    and t: "t = ip \<and> fp = [] \<or> t = ip @ CHR ''.'' # fp"
    and "c = nat_of_digits (ip @ fp)" "dec_ok (DFin neg c (- int (length fp)))"
  shows "decimal_of_str ((if neg then ''-'' else []) @ t) = Some (DFin neg c (- int (length fp)))"
proof -
  have chars: "list_all (\<lambda>c. is_digit c \<or> c = CHR ''.'') t"
    using assms(1,2) t unfolding list_all_iff by auto
  obtain a r where hd: "t = a # r" "is_digit a" using assms(1,3) t by (cases ip) auto
  have lit: "decimal_literal t = Some (ip @ fp, - int (length fp))"
    using t literal_plain [OF assms(1-3)] by auto
  have low: "lower t = a # lower r" using hd digit_lower by (simp add: lower_def)
  have lim: "\<not> (- int (length fp) < min_etiny \<or> max_emax < - int (length fp) + int (length (str_of_nat c)) - 1)"
    using assms(6) by (simp add: dec_ok_def not_less)
  show ?thesis
    unfolding decimal_of_str_def sign_noop [OF chars hd] prod.case Let_def low lit option.case
    using digit_not_word_start [OF hd(2), of "lower r"] lim assms(5) by simp
qed

lemma nat_of_digits_append: "nat_of_digits (xs @ ys) = nat_of_digits xs * 10 ^ length ys + nat_of_digits ys"
proof (induction ys rule: rev_induct)
  case (snoc y ys)
  then show ?case using nat_of_digits_snoc [of "xs @ ys" y] nat_of_digits_snoc [of ys y] by simp
qed (simp add: nat_of_digits_def)

lemma nat_of_digits_zeros: "nat_of_digits (replicate k CHR ''0'') = 0"
  by (induction k) (simp_all add: nat_of_digits_def digit_val_def flip: replicate_append_same)

lemma str_of_nat_length_mult: "c \<noteq> 0 \<Longrightarrow> length (str_of_nat (c * 10 ^ k)) = length (str_of_nat c) + k"
proof (induction k)
  case (Suc k)
  have "str_of_nat (10 * (c * 10 ^ k)) = str_of_nat (c * 10 ^ k) @ [digit_char 0]"
    using Suc.prems by (subst str_of_nat.simps) auto
  then show ?case using Suc by (simp add: mult.left_commute)
qed simp

text \<open>Writing a decimal and reading it back gives a decimal of the same value.\<close>

lemma decimal_string_roundtrip:
  assumes "dec_ok (DFin neg c e)"
  shows "\<exists>c' e'. decimal_of_str (decimal_string (DFin neg c e)) = Some (DFin neg c' e')
    \<and> dec_val (DFin neg c' e') = dec_val (DFin neg c e)"
proof (cases "0 \<le> e")
  case True
  define k where "k = nat e"
  have e: "e = int k" using True by (simp add: k_def)
  let ?ip = "if c = 0 then ''0'' else str_of_nat c @ replicate k CHR ''0''"
  have ip: "list_all is_digit ?ip" "?ip \<noteq> []"
    using str_of_nat_digits [of c] by (auto simp: list_all_iff is_digit_def)
  have val: "nat_of_digits ?ip = (if c = 0 then 0 else c * 10 ^ k)"
    by (simp add: nat_of_digits_append nat_of_digits_zeros) (simp add: nat_of_digits_def digit_val_def)
  have ok: "dec_ok (DFin neg (if c = 0 then 0 else c * 10 ^ k) 0)"
    using assms e by (cases "c = 0")
      (simp_all add: dec_ok_def str_of_nat_length_mult min_etiny_def max_emax_def str_of_nat.simps [of 0])
  have "decimal_string (DFin neg c e) = (if neg then ''-'' else []) @ ?ip"
    using e by (simp add: decimal_string_def)
  then have "decimal_of_str (decimal_string (DFin neg c e)) = Some (DFin neg (if c = 0 then 0 else c * 10 ^ k) 0)"
    using decimal_of_plain [of ?ip "[]" ?ip "if c = 0 then 0 else c * 10 ^ k" neg] ip val ok by simp
  then show ?thesis by (auto simp: e)
next
  case False
  define k where "k = nat (- e)"
  have e: "e = - int k" "0 < k" using False by (simp_all add: k_def)
  let ?ds = "str_of_nat c"
  define qs where "qs = replicate (Suc k - length ?ds) CHR ''0'' @ ?ds"
  have qs: "list_all is_digit qs" "Suc k \<le> length qs" "nat_of_digits qs = c"
    using str_of_nat_digits [of c]
    by (auto simp: qs_def list_all_iff is_digit_def nat_of_digits_append nat_of_digits_zeros)
  define ip fp where "ip = take (length qs - k) qs" and "fp = drop (length qs - k) qs"
  have sp: "list_all is_digit ip" "list_all is_digit fp" "ip \<noteq> []" "length fp = k" "ip @ fp = qs"
    using qs by (auto simp: ip_def fp_def list_all_iff dest: in_set_takeD in_set_dropD)
  have "decimal_string (DFin neg c e) = (if neg then ''-'' else []) @ ip @ CHR ''.'' # fp"
    using False by (simp add: decimal_string_def ip_def fp_def qs_def k_def Let_def)
  then have "decimal_of_str (decimal_string (DFin neg c e)) = Some (DFin neg c e)"
    using decimal_of_plain [OF sp(1-3), of "ip @ CHR ''.'' # fp" c neg] sp qs assms e by simp
  then show ?thesis by blast
qed

section \<open>What an accepted row becomes\<close>

lemma normalize_row_InrE:
  assumes "normalize_row row n t0 salt = Inr (e, l)"
  obtains step t nt amount bals orig dest fraud flagged time where
    "parse_step row = Inr step" "check_type row = Inr (t, nt)"
    "decimal_from row ''amount'' ''INVALID_AMOUNT'' = Inr amount" "0 \<le> dec_val amount"
    "mapM (\<lambda>k. decimal_from row k ''INVALID_BALANCE'')
       [''oldbalanceOrg'', ''newbalanceOrig'', ''oldbalanceDest'', ''newbalanceDest''] = Inr bals"
    "check_names row = Inr (orig, dest)"
    "parse_label row ''isFraud'' = Inr fraud" "parse_label row ''isFlaggedFraud'' = Inr flagged"
    "add_hours t0 step = Inr time"
    "e = event_object n t nt (support_level (mapping_for t)) (pseudonym_digest orig salt)
       (hashed_id ''D'' dest salt) time step amount bals"
    "l = label_object n t nt (support_level (mapping_for t)) step fraud flagged"
proof -
  have if_Inr: "(if b then Inl x else m) = Inr y \<longleftrightarrow> \<not> b \<and> m = Inr y" for b and x :: exn and m and y :: "jobj \<times> jobj"
    by simp
  show thesis
    using assms
    unfolding normalize_row_def Let_def split_beta bind_res_Inr_iff if_Inr not_less sum.inject prod.inject
  proof (elim exE conjE)
    fix step ty amount bals names fraud flagged time
    assume "parse_step row = Inr step" "check_type row = Inr ty"
      "decimal_from row ''amount'' ''INVALID_AMOUNT'' = Inr amount" "0 \<le> dec_val amount"
      "mapM (\<lambda>k. decimal_from row k ''INVALID_BALANCE'')
         [''oldbalanceOrg'', ''newbalanceOrig'', ''oldbalanceDest'', ''newbalanceDest''] = Inr bals"
      "check_names row = Inr names"
      "parse_label row ''isFraud'' = Inr fraud" "parse_label row ''isFlaggedFraud'' = Inr flagged"
      "add_hours t0 step = Inr time"
      "event_object n (fst ty) (snd ty) (support_level (mapping_for (fst ty)))
         (pseudonym_digest (fst names) salt) (hashed_id ''D'' (snd names) salt) time step amount bals = e"
      "label_object n (fst ty) (snd ty) (support_level (mapping_for (fst ty))) step fraud flagged = l"
    then show thesis
      by (intro that [of step "fst ty" "snd ty" amount bals "fst names" "snd names" fraud flagged time])
        (simp_all only: prod.collapse)
  qed
qed

lemma check_type_Inr:
  "check_type row = Inr (t, nt) \<longleftrightarrow>
    row_get row ''type'' = Some (Some t) \<and> t \<in> set VALID_TYPES \<and> normalized_type (mapping_for t) = Some nt"
proof (cases "row_get row ''type''")
  case None
  have "[] \<notin> set VALID_TYPES" by (simp add: VALID_TYPES_def)
  with None show ?thesis by (simp add: check_type_def)
next
  case (Some v)
  then show ?thesis
    by (cases v) (auto simp add: check_type_def split: option.split)
qed

lemma decimal_from_Inr:
  "decimal_from row f r = Inr d \<longleftrightarrow> (\<exists>s. row_get row f = Some (Some s) \<and> decimal_of_str s = Some d \<and> dec_finite d)"
  by (auto simp: decimal_from_def split: option.splits if_splits)

lemma parse_step_Inr:
  "parse_step row = Inr i \<longleftrightarrow> (\<exists>s. row_get row ''step'' = Some (Some s) \<and> int_of_str s = Some i \<and> 0 \<le> i)"
  by (auto simp: parse_step_def split: option.splits)

lemma finite_balances: "mapM (\<lambda>k. decimal_from row k r) ks = Inr bals \<Longrightarrow> list_all dec_finite bals"
  by (induction ks arbitrary: bals) (auto simp: decimal_from_Inr)

text \<open>The fields of an event and of a label that other parts read.\<close>

lemma event_object_get:
  "jget (event_object n t nt lv oh dd time step am bals) ''eventId'' = JStr (''paysim-'' @ pad 9 n)"
  "jget (event_object n t nt lv oh dd time step am bals) ''nativeEventType'' = JStr t"
  "jget (event_object n t nt lv oh dd time step am bals) ''normalizedEventType'' = JStr nt"
  "jget (event_object n t nt lv oh dd time step am bals) ''typeSupportLevel'' = JStr lv"
  by (simp_all add: event_object_def jget_or_Cons)

lemma label_object_get:
  "jget (label_object n t nt lv step fr fl) ''eventId'' = JStr (''paysim-'' @ pad 9 n)"
  "jget (label_object n t nt lv step fr fl) ''isFraud'' = JBool fr"
  "jget (label_object n t nt lv step fr fl) ''sourceFlaggedFraud'' = JBool fl"
  "jget (label_object n t nt lv step fr fl) ''sourceType'' = JStr t"
  "jget (label_object n t nt lv step fr fl) ''normalizedType'' = JStr nt"
  by (simp_all add: label_object_def jget_or_Cons)

section \<open>Pseudonyms\<close>

lemma pseudonym_shape:
  "length (pseudonym_digest raw salt) = 16" "list_all is_lower_hex (pseudonym_digest raw salt)"
proof -
  show "length (pseudonym_digest raw salt) = 16"
    by (simp add: pseudonym_digest_def HASH_PREFIX_LENGTH_def hexdigest_length hmac_length)
  show "list_all is_lower_hex (pseudonym_digest raw salt)"
    using hexdigest_hex unfolding pseudonym_digest_def list_all_iff by (blast dest: in_set_takeD)
qed

text \<open>A lower-case hexadecimal text, a number, a time: none of them holds a C or an M.\<close>

lemma hex_no_CM: "is_lower_hex c \<Longrightarrow> c \<noteq> CHR ''C'' \<and> c \<noteq> CHR ''M''"
  by (auto simp: is_lower_hex_def is_digit_def)

lemma digit_no_CM: "is_digit c \<Longrightarrow> c \<noteq> CHR ''C'' \<and> c \<noteq> CHR ''M''"
  by (auto simp: is_digit_def)

definition no_CM :: "string \<Rightarrow> bool" where
  "no_CM s \<longleftrightarrow> list_all (\<lambda>c. c \<noteq> CHR ''C'' \<and> c \<noteq> CHR ''M'') s"

lemma no_CM_simps [simp]:
  "no_CM []" "no_CM (c # s) \<longleftrightarrow> c \<noteq> CHR ''C'' \<and> c \<noteq> CHR ''M'' \<and> no_CM s" "no_CM (s @ t) \<longleftrightarrow> no_CM s \<and> no_CM t"
  by (auto simp: no_CM_def)

lemma no_CM_clean: "no_CM s \<Longrightarrow> \<not> raw_identifier_search s"
  by (rule no_raw_identifier) (auto simp: no_CM_def list_all_iff)

lemma no_CM_digits: "list_all is_digit s \<Longrightarrow> no_CM s"
  by (auto simp: no_CM_def list_all_iff dest: digit_no_CM)

lemma no_CM_pad [simp]: "no_CM (pad w n)"
  by (rule no_CM_digits [OF pad_digits])

lemma no_CM_digest [simp]: "no_CM (pseudonym_digest raw salt)"
  using pseudonym_shape(2) [of raw salt] by (auto simp: no_CM_def list_all_iff dest: hex_no_CM)

lemma no_CM_iso [simp]: "no_CM (iso_z t)"
  using set_iso_z [of t] by (fastforce simp: no_CM_def list_all_iff dest: digit_no_CM)

lemma no_CM_decimal [simp]: "dec_finite d \<Longrightarrow> no_CM (decimal_string d)"
proof (cases d)
  case (DFin neg c e)
  have "no_CM (str_of_nat c)" "no_CM (replicate k CHR ''0'')" for k
    by (rule no_CM_digits [OF str_of_nat_digits]) (simp add: no_CM_def list_all_iff)
  moreover have "no_CM (take k s)" "no_CM (drop k s)" if "no_CM s" for k s
    using that by (auto simp: no_CM_def list_all_iff dest: in_set_takeD in_set_dropD)
  ultimately show ?thesis by (simp add: DFin decimal_string_def Let_def)
qed simp_all

section \<open>What a run leaves\<close>

text \<open>The rows a limit lets through, the pairs of the accepted rows, and the refused rows.\<close>

definition taken :: "int option \<Rightarrow> 'a list \<Rightarrow> 'a list" where
  "taken limit rows = (case limit of None \<Rightarrow> rows | Some k \<Rightarrow> take (nat k) rows)"

fun ok_list :: "'a res \<Rightarrow> 'a list" where
  "ok_list (Inr x) = [x]"
| "ok_list (Inl e) = []"

fun refusal_list :: "'a res \<Rightarrow> (string \<times> string) list" where
  "refusal_list (Inl (RowRejected r m)) = [(r, m)]"
| "refusal_list _ = []"

lemma ok_list_mem [simp]: "x \<in> set (ok_list r) \<longleftrightarrow> r = Inr x"
  by (cases r) auto

lemma refusal_list_mem [simp]: "p \<in> set (refusal_list r) \<longleftrightarrow> r = Inl (RowRejected (fst p) (snd p))"
  by (cases r rule: refusal_list.cases) auto

definition accepted_of :: "int \<Rightarrow> string \<Rightarrow> (nat \<times> csv_row) list \<Rightarrow> (jobj \<times> jobj) list" where
  "accepted_of t0 salt nrows =
     concat (map (\<lambda>(n, row). ok_list (normalize_row row n t0 salt)) nrows)"

definition refused_of :: "int \<Rightarrow> string \<Rightarrow> (nat \<times> csv_row) list \<Rightarrow> (nat \<times> string \<times> string \<times> csv_row) list" where
  "refused_of t0 salt nrows =
     concat (map (\<lambda>(n, row). map (\<lambda>(r, m). (n, r, m, row)) (refusal_list (normalize_row row n t0 salt))) nrows)"

definition refused_type :: "string \<Rightarrow> string list" where
  "refused_type reason =
     (if starts_with reason ''UNSUPPORTED_NATIVE_TYPE:'' then [after_first CHR '':'' reason] else [])"

definition run_state :: "int \<Rightarrow> string \<Rightarrow> (nat \<times> csv_row) list \<Rightarrow> prepare_state" where
  "run_state t0 salt nrows =
    (let acc = accepted_of t0 salt nrows; ref = refused_of t0 salt nrows in
     \<lparr>total_rows = length nrows, accepted_rows = length acc, rejected_rows = length ref,
      fraud_rows = length (filter (\<lambda>(e, l). the_bool (jget l ''isFraud'')) acc),
      flagged_fraud_rows = length (filter (\<lambda>(e, l). the_bool (jget l ''sourceFlaggedFraud'')) acc),
      native_counts = fold cinc (map (\<lambda>(e, l). the_str (jget e ''nativeEventType'')) acc)
        (native_counts init_prepare_state),
      normalized_counts = fold cinc (map (\<lambda>(e, l). the_str (jget e ''normalizedEventType'')) acc) [],
      support_counts = fold cinc (map (\<lambda>(e, l). the_str (jget e ''typeSupportLevel'')) acc) [],
      excluded_counts = fold cinc (concat (map (\<lambda>(n, r, m, row). refused_type r) ref)) [],
      out_events = map fst acc, out_labels = map snd acc,
      out_rejected = map (\<lambda>(n, r, m, row). rejected_record n r m row) ref\<rparr>)"

lemma run_state_Nil: "run_state t0 salt [] = init_prepare_state"
  by (simp add: run_state_def accepted_of_def refused_of_def init_prepare_state_def)

lemma run_state_snoc_accept:
  assumes "normalize_row row n t0 salt = Inr (e, l)"
  shows "accept_row e l (run_state t0 salt pre) = run_state t0 salt (pre @ [(n, row)])"
    and "refused_of t0 salt [(n, row)] = []"
  using assms by (simp_all add: run_state_def accepted_of_def refused_of_def accept_row_def Let_def)

lemma run_state_snoc_reject:
  assumes "normalize_row row n t0 salt = Inl (RowRejected r m)"
  shows "reject_row n r m row (run_state t0 salt pre) = run_state t0 salt (pre @ [(n, row)])"
  using assms
  by (simp add: run_state_def accepted_of_def refused_of_def reject_row_def count_excluded_def
      refused_type_def Let_def)

text \<open>Of the rows a finished loop took, each was accepted or refused, and with \<open>fail-fast\<close> none
  was refused.\<close>

definition all_decided :: "string \<Rightarrow> int \<Rightarrow> string \<Rightarrow> (nat \<times> csv_row) list \<Rightarrow> bool" where
  "all_decided policy t0 salt nrows \<longleftrightarrow>
     length (accepted_of t0 salt nrows) + length (refused_of t0 salt nrows) = length nrows
     \<and> (policy = ''fail-fast'' \<longrightarrow> refused_of t0 salt nrows = [])"

lemma all_decided_Nil [simp]: "all_decided policy t0 salt []"
  by (simp add: all_decided_def accepted_of_def refused_of_def)

lemma all_decided_Cons: "all_decided policy t0 salt [x] \<Longrightarrow> all_decided policy t0 salt xs \<Longrightarrow> all_decided policy t0 salt (x # xs)"
  by (simp add: all_decided_def accepted_of_def refused_of_def)

lemma process_row_spec:
  assumes "process_row policy t0 salt n row (run_state t0 salt pre) = Inr s"
  shows "s = run_state t0 salt (pre @ [(n, row)])" "all_decided policy t0 salt [(n, row)]"
proof -
  have "s = run_state t0 salt (pre @ [(n, row)]) \<and> all_decided policy t0 salt [(n, row)]"
  proof (cases "normalize_row row n t0 salt")
    case (Inl x)
    then obtain r m where x: "x = RowRejected r m" and "policy \<noteq> ''fail-fast''"
      using assms by (cases x) (simp_all add: process_row_def split: if_splits)
    with Inl assms show ?thesis
      by (simp add: process_row_def all_decided_def accepted_of_def refused_of_def flip: run_state_snoc_reject)
  next
    case (Inr p)
    then obtain e l where "normalize_row row n t0 salt = Inr (e, l)" by (cases p) simp
    with assms show ?thesis
      by (simp add: process_row_def run_state_snoc_accept all_decided_def accepted_of_def)
  qed
  then show "s = run_state t0 salt (pre @ [(n, row)])" "all_decided policy t0 salt [(n, row)]" by simp_all
qed

lemma total_rows_run_state [simp]: "total_rows (run_state t0 salt pre) = length pre"
  by (simp add: run_state_def Let_def)

lemma taken_Cons:
  "\<not> (case limit of None \<Rightarrow> False | Some k \<Rightarrow> k \<le> int m) \<Longrightarrow>
   taken (map_option (\<lambda>k. k - int m) limit) (x # xs) =
     x # taken (map_option (\<lambda>k. k - int (Suc m)) limit) xs"
proof (cases limit)
  case (Some k)
  assume "\<not> (case limit of None \<Rightarrow> False | Some k \<Rightarrow> k \<le> int m)"
  with Some have "nat (k - int m) = Suc (nat (k - int (Suc m)))" by simp
  with Some show ?thesis by (simp add: taken_def)
qed (simp add: taken_def)

text \<open>The reader was not asked for more than it could give: it met no fault, or the limit came before.\<close>

definition read_through :: "exn option \<Rightarrow> int option \<Rightarrow> nat \<Rightarrow> bool" where
  "read_through fault limit n \<longleftrightarrow> fault = None \<or> (\<exists>k. limit = Some k \<and> k < int n)"

lemma process_rows_spec:
  assumes "process_rows fault limit policy t0 salt n rows (run_state t0 salt pre) = Inr s"
    and "xs = taken (map_option (\<lambda>k. k - int (length pre)) limit) (enumerate n rows)"
  shows "s = run_state t0 salt (pre @ xs) \<and> all_decided policy t0 salt xs \<and> read_through fault limit (length pre + length rows)"
  using assms
proof (induction rows arbitrary: n pre xs)
  case Nil
  then show ?case by (simp add: taken_def read_through_def split: option.splits)
next
  case (Cons row rows)
  show ?case
  proof (cases "case limit of None \<Rightarrow> False | Some k \<Rightarrow> k \<le> int (length pre)")
    case True
    then have "xs = []" using Cons.prems(2) by (auto simp: taken_def split: option.splits)
    then show ?thesis
      using Cons.prems(1) True unfolding process_rows.simps total_rows_run_state
      by (auto simp: read_through_def split: option.splits)
  next
    case False
    then obtain s1 where s1: "process_row policy t0 salt n row (run_state t0 salt pre) = Inr s1"
      "process_rows fault limit policy t0 salt (Suc n) rows s1 = Inr s"
      using Cons.prems(1) unfolding process_rows.simps total_rows_run_state by auto
    define ys where "ys = taken (map_option (\<lambda>k. k - int (length (pre @ [(n, row)]))) limit) (enumerate (Suc n) rows)"
    have xs: "xs = (n, row) # ys"
      using taken_Cons [OF False] Cons.prems(2) by (simp add: ys_def enumerate_simps)
    note step = process_row_spec [OF s1(1)]
    have "s = run_state t0 salt ((pre @ [(n, row)]) @ ys) \<and> all_decided policy t0 salt ys
      \<and> read_through fault limit (length (pre @ [(n, row)]) + length rows)"
      by (rule Cons.IH [OF _ ys_def]) (use s1(2) step(1) in simp)
    with step(2) show ?thesis by (simp add: xs all_decided_Cons)
  qed
qed

lemma process_InrE:
  assumes "process env a = Inr (s, rep)"
  obtains t0 salt source nrows where
    "parse_base_time (pe_fromiso env) (pa_base_time a) = Inr t0" "resolve_salt a (pe_getenv env) = Inr (salt, source)"
    "ensure_outputs (pe_exists env) (output_paths (pa_output_dir a)) (pa_force a) = None"
    "validate_header (pe_records env) = None" "read_through (pe_csv_fault env) (pa_limit a) (length (dict_rows (pe_records env)))"
    "nrows = taken (pa_limit a) (enumerate 1 (dict_rows (pe_records env)))"
    "s = run_state t0 salt nrows" "all_decided (pa_reject_policy a) t0 salt nrows"
    "rep = prepare_report a (hexdigest (sha256 (the (pe_bytes env)))) t0 source (output_paths (pa_output_dir a))
       (pe_started env) (pe_finished env) s"
proof -
  from assms obtain t0 salt source where p:
    "parse_base_time (pe_fromiso env) (pa_base_time a) = Inr t0" "resolve_salt a (pe_getenv env) = Inr (salt, source)"
    "ensure_outputs (pe_exists env) (output_paths (pa_output_dir a)) (pa_force a) = None"
    "read_header (pe_records env) (pe_csv_fault env) = None"
    "process_rows (pe_csv_fault env) (pa_limit a) (pa_reject_policy a) t0 salt 1 (dict_rows (pe_records env)) init_prepare_state = Inr s"
    "rep = prepare_report a (hexdigest (sha256 (the (pe_bytes env)))) t0 source (output_paths (pa_output_dir a))
       (pe_started env) (pe_finished env) s"
    by (auto simp: process_def Let_def)
  then have header: "validate_header (pe_records env) = None" by (auto simp: read_header_def split: if_splits)
  let ?xs = "taken (pa_limit a) (enumerate 1 (dict_rows (pe_records env)))"
  have "s = run_state t0 salt ([] @ ?xs) \<and> all_decided (pa_reject_policy a) t0 salt ?xs
      \<and> read_through (pe_csv_fault env) (pa_limit a) (length ([] :: (nat \<times> csv_row) list) + length (dict_rows (pe_records env)))"
    by (intro process_rows_spec) (use p(5) in \<open>simp_all add: run_state_Nil option.map_ident\<close>)
  then show thesis using that p header by auto
qed

end
