(* ===== verification/PrepareProperties.thy ===== *)
theory PrepareProperties
  imports PrepareCorrect ReplayCorrect
begin

text \<open>
  The properties of the preparation of the dataset, among them what the replay does with a prepared
  event, and the concrete run that shows their hypotheses can hold.
\<close>

section \<open>Lemmas on the outputs\<close>

lemma digest_hash_id: "hash_id_ok x (JStr (x # CHR ''-'' # pseudonym_digest raw salt))"
  using pseudonym_shape [of raw salt]
  by (simp add: hash_id_ok_def hash_id_full_match hash_id_full_def)

lemma nat_of_digits_pad [simp]: "nat_of_digits (pad w n) = n"
  by (simp add: pad_def Let_def nat_of_digits_append nat_of_digits_zeros)

lemma pad_inj: "pad w m = pad w n \<longleftrightarrow> m = n"
  by (metis nat_of_digits_pad)

lemma accepted_of_mem:
  "p \<in> set (accepted_of t0 salt nrows) \<longleftrightarrow> (\<exists>n row. (n, row) \<in> set nrows \<and> normalize_row row n t0 salt = Inr p)"
  by (fastforce simp: accepted_of_def)

lemma normalized_types: "check_type row = Inr (t, nt) \<Longrightarrow>
    (t, nt) \<in> {(''PAYMENT'', ''PAYMENT''), (''TRANSFER'', ''TRANSFER''), (''CASH_OUT'', ''WITHDRAWAL''), (''CASH_IN'', ''DEPOSIT'')}"
  by (auto simp: check_type_Inr normalized_type_mapping_for split: if_splits)

lemma clean_types:
  assumes "check_type row = Inr (t, nt)"
  shows "\<not> raw_identifier_search t" "\<not> raw_identifier_search nt" "\<not> raw_identifier_search (support_level (mapping_for t))"
  using normalized_types [OF assms] by (elim insertE emptyE; clarsimp; code_simp)+

text \<open>An event the preparation writes, seen by the checks of the replay.\<close>

lemma prepared_event:
  assumes "normalize_row row n t0 salt = Inr (e, l)"
  obtains t nt step amount where
    "check_type row = Inr (t, nt)" "parse_step row = Inr step"
    "decimal_from row ''amount'' ''INVALID_AMOUNT'' = Inr amount" "0 \<le> dec_val amount"
    "clean replay_forbidden (JObj e)" "\<forall>k \<in> set REQUIRED_FIELDS. has_key e k" "\<not> has_key e ''receivedAt''"
    "hash_id_ok CHR ''U'' (jget e ''userId'')" "hash_id_ok CHR ''A'' (jget e ''accountId'')"
    "hash_id_ok CHR ''D'' (jget e ''destinationAccountId'')"
    "jget e ''eventId'' = JStr (''paysim-'' @ pad 9 n)" "jget e ''traceId'' = JStr (''trace-paysim-'' @ pad 9 n)"
    "jget e ''eventType'' = JStr nt" "jget e ''nativeEventType'' = JStr t" "jget e ''normalizedEventType'' = JStr nt"
    "jget e ''typeSupportLevel'' = JStr (support_level (mapping_for t))"
    "jget e ''typeMappingPolicyVersion'' = JStr MAPPING_POLICY_VERSION"
    "jget e ''currency'' = JStr ''KRW''" "jget e ''amount'' = JStr (decimal_string amount)"
    "nonempty_str (jget e ''eventTime'')"
proof -
  from assms obtain step t nt amount bals orig dest fraud flagged time where r:
    "parse_step row = Inr step" "check_type row = Inr (t, nt)"
    "decimal_from row ''amount'' ''INVALID_AMOUNT'' = Inr amount" "0 \<le> dec_val amount"
    "mapM (\<lambda>k. decimal_from row k ''INVALID_BALANCE'')
       [''oldbalanceOrg'', ''newbalanceOrig'', ''oldbalanceDest'', ''newbalanceDest''] = Inr bals"
    "e = event_object n t nt (support_level (mapping_for t)) (pseudonym_digest orig salt)
       (hashed_id ''D'' dest salt) time step amount bals"
    by (rule normalize_row_InrE)
  have am: "dec_finite amount" using r(3) by (auto simp: decimal_from_Inr)
  have bal: "\<forall>b \<in> set bals. \<not> raw_identifier_search (decimal_string b)"
    using finite_balances [OF r(5)] by (auto simp: list_all_iff intro!: no_CM_clean)
  have bf: "\<forall>(k, v) \<in> set (zip ks (map (\<lambda>d. JStr (decimal_string d)) bals)). \<not> replay_forbidden k \<and> clean replay_forbidden v"
    if "\<forall>k \<in> set ks. \<not> replay_forbidden k" for ks
    using that bal by (fastforce dest: set_zip_leftD set_zip_rightD)
  have words: "\<not> raw_identifier_search ''KRW''" "\<not> raw_identifier_search ''PAYSIM''" by code_simp+
  have keys: "\<forall>k \<in> {''oldBalanceOrig'', ''newBalanceOrig'', ''oldBalanceDest'', ''newBalanceDest'', ''sourceStep''}. \<not> replay_forbidden k"
    by (simp add: RAW_FIELDS_def LABEL_FIELDS_def)
  have clean: "clean replay_forbidden (JObj e)"
    unfolding r(6) event_object_def hashed_id_def clean_simps ball_simps list.set prod.case
    by (intro conjI bf; simp add: keys clean_types [OF r(2)] am no_CM_clean MAPPING_POLICY_VERSION_def words
        RAW_FIELDS_def LABEL_FIELDS_def)
  show thesis
    by (rule that [OF r(2,1,3,4) clean])
      (simp_all add: r(6) event_object_def hashed_id_def jget_or_Cons REQUIRED_FIELDS_def has_key_def digest_hash_id
        nonempty_str_def iso_z_nonempty)
qed

lemma prepared_label:
  assumes "normalize_row row n t0 salt = Inr (e, l)"
  shows "clean (\<lambda>k. k \<in> set RAW_FIELDS) (JObj l)"
    "jget l ''eventId'' = jget e ''eventId''" "jget l ''sourceType'' = jget e ''nativeEventType''"
    "jget l ''normalizedType'' = jget e ''normalizedEventType''"
    "jget l ''typeSupportLevel'' = jget e ''typeSupportLevel''"
    "jget l ''sourceStep'' = jget (the_obj (jget e ''balanceFeatures'')) ''sourceStep''"
proof -
  from assms obtain step t nt amount bals orig dest fraud flagged time where r:
    "check_type row = Inr (t, nt)"
    "e = event_object n t nt (support_level (mapping_for t)) (pseudonym_digest orig salt)
       (hashed_id ''D'' dest salt) time step amount bals"
    "l = label_object n t nt (support_level (mapping_for t)) step fraud flagged"
    by (rule normalize_row_InrE)
  show "clean (\<lambda>k. k \<in> set RAW_FIELDS) (JObj l)"
    unfolding r(3) label_object_def clean_simps ball_simps list.set prod.case
    by (intro conjI; simp add: clean_types [OF r(1)] no_CM_clean MAPPING_POLICY_VERSION_def RAW_FIELDS_def)
  show "jget l ''eventId'' = jget e ''eventId''" "jget l ''sourceType'' = jget e ''nativeEventType''"
    "jget l ''normalizedType'' = jget e ''normalizedEventType''"
    "jget l ''typeSupportLevel'' = jget e ''typeSupportLevel''"
    "jget l ''sourceStep'' = jget (the_obj (jget e ''balanceFeatures'')) ''sourceStep''"
    unfolding r by (simp_all add: label_object_def event_object_def jget_or_Cons)
qed

text \<open>The event ids of a run are distinct, because the rows are numbered.\<close>

lemma accepted_eventId:
  "(e, l) \<in> set (accepted_of t0 salt nrows) \<Longrightarrow> \<exists>n \<in> fst ` set nrows. jget e ''eventId'' = JStr (''paysim-'' @ pad 9 n)"
  by (force simp: accepted_of_mem elim: prepared_event)

lemma accepted_types:
  assumes "q \<in> set (accepted_of t0 salt nrows)" "k \<in> {''nativeEventType'', ''normalizedEventType'', ''typeSupportLevel''}"
  shows "\<exists>t. jget (fst q) k = JStr t"
proof -
  obtain n row e l where q: "q = (e, l)" "normalize_row row n t0 salt = Inr (e, l)"
    using assms(1) unfolding accepted_of_mem by (metis prod.collapse)
  show ?thesis
    by (rule prepared_event [OF q(2)]) (use assms(2) in \<open>auto simp: q(1)\<close>)
qed

lemma distinct_eventIds:
  "distinct (map fst nrows) \<Longrightarrow> distinct (map (\<lambda>(e, l). jget e ''eventId'') (accepted_of t0 salt nrows))"
proof (induction nrows)
  case (Cons x nrows)
  obtain n row where x: "x = (n, row)" by (cases x)
  show ?case
  proof (cases "normalize_row row n t0 salt")
    case (Inr p)
    obtain e l where p: "p = (e, l)" by (cases p)
    have id: "jget e ''eventId'' = JStr (''paysim-'' @ pad 9 n)"
      using Inr unfolding p by (rule prepared_event)
    have acc: "accepted_of t0 salt (x # nrows) = (e, l) # accepted_of t0 salt nrows"
      using Inr by (simp add: accepted_of_def x p)
    have "jget e' ''eventId'' \<noteq> jget e ''eventId''" if "(e', l') \<in> set (accepted_of t0 salt nrows)" for e' l'
      using accepted_eventId [OF that] Cons.prems id by (force simp: x pad_inj)
    then show ?thesis using Cons unfolding acc by force
  next
    case (Inl y)
    then have "accepted_of t0 salt (x # nrows) = accepted_of t0 salt nrows" by (simp add: accepted_of_def x)
    with Cons show ?thesis by simp
  qed
qed (simp add: accepted_of_def)

lemma distinct_taken: "distinct (map fst (taken limit (enumerate n rows)))"
  by (simp add: taken_def take_map [symmetric] split: option.split)

lemma count_list_map: "count_list (map f xs) k = length (filter (\<lambda>x. f x = k) xs)"
  by (induction xs) auto

lemma cget_init_native [simp]: "cget (native_counts init_prepare_state) k = 0"
proof -
  have "map_of (map (\<lambda>t. (t, 0 :: nat)) ts) k = Some m \<Longrightarrow> m = 0" for ts m by (induction ts) (auto split: if_splits)
  then show ?thesis by (auto simp: cget_def init_prepare_state_def split: option.split)
qed

text \<open>A refusal is counted under a type exactly when its reason names that type as unsupported.\<close>

lemma refused_type_iff: "t \<in> set (refused_type r) \<longleftrightarrow> r = ''UNSUPPORTED_NATIVE_TYPE:'' @ t"
proof -
  have "after_first CHR '':'' (''UNSUPPORTED_NATIVE_TYPE'' @ CHR '':'' # u) = u" for u
    by (rule after_first_append) simp
  then show ?thesis by (auto simp: refused_type_def starts_with_iff)
qed

lemma count_refused_type:
  "count_list (concat (map (\<lambda>(n, r, m, row). refused_type r) xs)) t
    = length (filter (\<lambda>(n, r, m, row). r = ''UNSUPPORTED_NATIVE_TYPE:'' @ t) xs)"
proof (induction xs)
  case (Cons x xs)
  obtain n r m row where x: "x = (n, r, m, row)" by (cases x)
  have "count_list (refused_type r) t = (if t \<in> set (refused_type r) then 1 else 0)"
    by (simp add: refused_type_def)
  with Cons show ?case by (simp add: x refused_type_iff del: append.simps)
qed simp

lemma run_state_simps:
  fixes nrows :: "(nat \<times> csv_row) list" and t0 :: int and salt :: string
  defines "acc \<equiv> accepted_of t0 salt nrows" and "ref \<equiv> refused_of t0 salt nrows"
  shows "total_rows (run_state t0 salt nrows) = length nrows"
    "accepted_rows (run_state t0 salt nrows) = length acc" "rejected_rows (run_state t0 salt nrows) = length ref"
    "out_events (run_state t0 salt nrows) = map fst acc" "out_labels (run_state t0 salt nrows) = map snd acc"
    "out_rejected (run_state t0 salt nrows) = map (\<lambda>(n, r, m, row). rejected_record n r m row) ref"
    "fraud_rows (run_state t0 salt nrows) = length (filter (\<lambda>(e, l). the_bool (jget l ''isFraud'')) acc)"
    "flagged_fraud_rows (run_state t0 salt nrows) = length (filter (\<lambda>(e, l). the_bool (jget l ''sourceFlaggedFraud'')) acc)"
    "native_counts (run_state t0 salt nrows) =
      fold cinc (map (\<lambda>(e, l). the_str (jget e ''nativeEventType'')) acc) (native_counts init_prepare_state)"
    "normalized_counts (run_state t0 salt nrows) = fold cinc (map (\<lambda>(e, l). the_str (jget e ''normalizedEventType'')) acc) []"
    "support_counts (run_state t0 salt nrows) = fold cinc (map (\<lambda>(e, l). the_str (jget e ''typeSupportLevel'')) acc) []"
    "excluded_counts (run_state t0 salt nrows) = fold cinc (concat (map (\<lambda>(n, r, m, row). refused_type r) ref)) []"
  by (simp_all add: run_state_def acc_def ref_def Let_def)

section \<open>A concrete run\<close>

definition demo_row :: "string \<Rightarrow> string \<Rightarrow> string list" where
  "demo_row t amount = [''1'', t, amount, ''C1231006815'', ''17'', ''7.2'', ''M1979787155'', ''0'', ''0.0'', ''0'', ''0'']"

definition demo_prepare_env :: prepare_env where
  "demo_prepare_env =
    \<lparr>pe_bytes = Some [], pe_records = [REQUIRED_COLUMNS, demo_row ''PAYMENT'' ''9.8'', demo_row ''DEBIT'' ''5'', demo_row ''TRANSFER'' ''0''],
     pe_csv_fault = None, pe_fromiso = (\<lambda>_. Some (0, Some 0)), pe_exists = (\<lambda>_. False), pe_getenv = (\<lambda>_. None), pe_started = 0, pe_finished = 0\<rparr>"

abbreviation demo_dict :: "string \<Rightarrow> string \<Rightarrow> csv_row" where
  "demo_dict t amount \<equiv> dict_row REQUIRED_COLUMNS (demo_row t amount)"

text \<open>The checks of a row evaluate; its digests need not.\<close>

lemma not_isl: "\<not> isl r \<longleftrightarrow> (\<exists>x. r = Inr x)"
  by (cases r) simp_all

lemma normalize_row_Inr:
  assumes "parse_step row = Inr step" "check_type row = Inr (t, nt)"
    "decimal_from row ''amount'' ''INVALID_AMOUNT'' = Inr amount" "\<not> dec_val amount < 0"
    "\<not> isl (mapM (\<lambda>k. decimal_from row k ''INVALID_BALANCE'')
       [''oldbalanceOrg'', ''newbalanceOrig'', ''oldbalanceDest'', ''newbalanceDest''])"
    "\<not> isl (check_names row)" "\<not> isl (parse_label row ''isFraud'')" "\<not> isl (parse_label row ''isFlaggedFraud'')"
    "\<not> isl (add_hours t0 step)"
  shows "\<exists>e l. normalize_row row n t0 salt = Inr (e, l)"
  using assms unfolding normalize_row_def
  by (auto simp: Let_def not_isl split_beta simp del: mapM.simps)

lemma demo_rows:
  "\<exists>e l. normalize_row (demo_dict ''PAYMENT'' ''9.8'') n 0 salt = Inr (e, l)"
  "\<exists>e l. normalize_row (demo_dict ''TRANSFER'' ''0'') n 0 salt = Inr (e, l)"
  "\<exists>m. normalize_row (demo_dict ''DEBIT'' ''5'') n 0 salt = Inl (RowRejected ''UNSUPPORTED_NATIVE_TYPE:DEBIT'' m)"
proof -
  show "\<exists>e l. normalize_row (demo_dict ''PAYMENT'' ''9.8'') n 0 salt = Inr (e, l)"
    by (rule normalize_row_Inr [of _ 1 "''PAYMENT''" "''PAYMENT''" "DFin False 98 (- 1)"]; code_simp)
  show "\<exists>e l. normalize_row (demo_dict ''TRANSFER'' ''0'') n 0 salt = Inr (e, l)"
    by (rule normalize_row_Inr [of _ 1 "''TRANSFER''" "''TRANSFER''" "DFin False 0 0"]; code_simp)
  have "parse_step (demo_dict ''DEBIT'' ''5'') = Inr 1" "\<exists>m. check_type (demo_dict ''DEBIT'' ''5'') = Inl (RowRejected ''UNSUPPORTED_NATIVE_TYPE:DEBIT'' m)"
    by (code_simp, intro exI, code_simp)
  then show "\<exists>m. normalize_row (demo_dict ''DEBIT'' ''5'') n 0 salt = Inl (RowRejected ''UNSUPPORTED_NATIVE_TYPE:DEBIT'' m)"
    by (auto simp: normalize_row_def)
qed

lemma demo_prepares: "\<exists>s rep. process demo_prepare_env default_prepare_args = Inr (s, rep) \<and> accepted_rows s = 2 \<and> total_rows s = 3"
proof -
  obtain e1 l1 e2 l2 m where rows:
    "normalize_row (demo_dict ''PAYMENT'' ''9.8'') 1 0 DEFAULT_LOCAL_SALT = Inr (e1, l1)"
    "normalize_row (demo_dict ''DEBIT'' ''5'') 2 0 DEFAULT_LOCAL_SALT = Inl (RowRejected ''UNSUPPORTED_NATIVE_TYPE:DEBIT'' m)"
    "normalize_row (demo_dict ''TRANSFER'' ''0'') 3 0 DEFAULT_LOCAL_SALT = Inr (e2, l2)"
    using demo_rows by metis
  have dict: "dict_rows (pe_records demo_prepare_env) =
      [demo_dict ''PAYMENT'' ''9.8'', demo_dict ''DEBIT'' ''5'', demo_dict ''TRANSFER'' ''0'']"
    by (simp add: demo_prepare_env_def dict_rows_def demo_row_def)
  have header: "read_header (pe_records demo_prepare_env) None = None" by code_simp
  have args: "resolve_salt default_prepare_args (pe_getenv demo_prepare_env) = Inr (DEFAULT_LOCAL_SALT, ''default-local'')"
    "pa_limit default_prepare_args = None" "pa_reject_policy default_prepare_args = ''row-level''"
    "pe_bytes demo_prepare_env = Some []" "parse_base_time (pe_fromiso demo_prepare_env) b = Inr 0" "pe_csv_fault demo_prepare_env = None"
    "ensure_outputs (pe_exists demo_prepare_env) p f = None" for b p f
    by (simp_all add: default_prepare_args_def demo_prepare_env_def resolve_salt_def ensure_outputs_def parse_base_time_def max_instant_def)
  let ?s = "accept_row e2 l2 (reject_row 2 ''UNSUPPORTED_NATIVE_TYPE:DEBIT'' m (demo_dict ''DEBIT'' ''5'')
    (accept_row e1 l1 init_prepare_state))"
  have "process_rows None None ''row-level'' 0 DEFAULT_LOCAL_SALT 1 (dict_rows (pe_records demo_prepare_env)) init_prepare_state = Inr ?s"
    using rows unfolding dict by (simp add: process_row_def numeral_eq_Suc)
  moreover have "accepted_rows ?s = 2" "total_rows ?s = 3"
    by (simp_all add: accept_row_def reject_row_def count_excluded_def init_prepare_state_def Let_def)
  ultimately show ?thesis by (simp add: process_def args header Let_def)
qed

section \<open>The run\<close>

text \<open>C5: a finished preparation took the rows of the file up to the limit, in order and numbered from
  1, and its counters, events, labels and rejects are those of \<open>run_state\<close>: each row
  was normalised with the resolved salt and the parsed base time and went to the outputs if it was accepted
  and to the rejects if not. The salt was resolved (with --require-non-default-salt it is not the built-in one),
  no output existed before unless --force was given, the header has all required columns, the reader of the file
  met no fault before a record after the limit had been read, and with fail-fast no row was refused.\<close>

theorem prepare_meets_spec:
  assumes "process env a = Inr (s, rep)"
  shows "\<exists>t0 salt source nrows. parse_base_time (pe_fromiso env) (pa_base_time a) = Inr t0
    \<and> resolve_salt a (pe_getenv env) = Inr (salt, source)
    \<and> (pa_require_non_default_salt a \<longrightarrow> source \<noteq> ''default-local'' \<and> salt \<noteq> [])
    \<and> (pa_force a \<or> (\<forall>f \<in> {of_events, of_labels, of_rejected, of_report}. \<not> pe_exists env (f (output_paths (pa_output_dir a)))))
    \<and> (\<exists>names rest. pe_records env = names # rest \<and> set REQUIRED_COLUMNS \<subseteq> set names)
    \<and> (pe_csv_fault env = None \<or> (\<exists>k. pa_limit a = Some k \<and> k < int (length (dict_rows (pe_records env)))))
    \<and> nrows = taken (pa_limit a) (enumerate 1 (dict_rows (pe_records env)))
    \<and> s = run_state t0 salt nrows
    \<and> (pa_reject_policy a = ''fail-fast'' \<longrightarrow> rejected_rows s = 0)"
proof -
  obtain t0 salt source nrows where p: "parse_base_time (pe_fromiso env) (pa_base_time a) = Inr t0"
    "resolve_salt a (pe_getenv env) = Inr (salt, source)"
    "ensure_outputs (pe_exists env) (output_paths (pa_output_dir a)) (pa_force a) = None"
    "validate_header (pe_records env) = None" "read_through (pe_csv_fault env) (pa_limit a) (length (dict_rows (pe_records env)))"
    "nrows = taken (pa_limit a) (enumerate 1 (dict_rows (pe_records env)))"
    "s = run_state t0 salt nrows" "all_decided (pa_reject_policy a) t0 salt nrows"
    using assms by (rule process_InrE)
  have "pa_require_non_default_salt a \<longrightarrow> source \<noteq> ''default-local'' \<and> salt \<noteq> []"
    using p(2) by (auto simp: resolve_salt_def split: if_splits)
  moreover have "pa_force a \<or> (\<forall>f \<in> {of_events, of_labels, of_rejected, of_report}. \<not> pe_exists env (f (output_paths (pa_output_dir a))))"
    using p(3) by (auto simp: ensure_outputs_def Let_def split: if_splits)
  moreover have "\<exists>names rest. pe_records env = names # rest \<and> set REQUIRED_COLUMNS \<subseteq> set names"
  proof (cases "pe_records env")
    case (Cons names rest)
    have "sort (filter (\<lambda>c. c \<notin> set names) REQUIRED_COLUMNS) = [] \<longleftrightarrow> filter (\<lambda>c. c \<notin> set names) REQUIRED_COLUMNS = []"
      by (metis set_empty set_sort)
    with Cons p(4) show ?thesis by (auto simp: validate_header_def filter_empty_conv)
  qed (use p(4) in \<open>simp add: validate_header_def\<close>)
  moreover have "pa_reject_policy a = ''fail-fast'' \<longrightarrow> rejected_rows s = 0"
    using p(7,8) by (simp add: all_decided_def run_state_def Let_def)
  ultimately show ?thesis using p [unfolded read_through_def] by blast
qed

theorem prepare_meets_spec_witness:
  "\<exists>s rep t0 salt. process demo_prepare_env default_prepare_args = Inr (s, rep) \<and> accepted_rows s = 2
    \<and> s = run_state t0 salt (taken None (enumerate 1 (dict_rows (pe_records demo_prepare_env))))"
proof -
  obtain s rep where s: "process demo_prepare_env default_prepare_args = Inr (s, rep)" "accepted_rows s = 2"
    using demo_prepares by blast
  show ?thesis using prepare_meets_spec [OF s(1)] s by (auto simp: default_prepare_args_def)
qed

text \<open>C25: the report of a finished preparation accounts for every row it took: accepted and rejected rows
  add up to the total, which is the number of rows up to the limit, there is one event and one label
  per accepted row and one reject per rejected row, the fraud counters are the labels with the flag
  set, and each count of the type distributions is the number of events (for the exclusions: of
  rejects with that reason) of that type.\<close>

theorem prepare_accounts:
  assumes "process env a = Inr (s, rep)"
  shows "jget rep ''totalRows'' = JInt (int (length (taken (pa_limit a) (dict_rows (pe_records env)))))
    \<and> jget rep ''totalRows'' = JInt (int (length (out_events s) + length (out_rejected s)))
    \<and> jget rep ''acceptedRows'' = JInt (int (length (out_events s))) \<and> length (out_labels s) = length (out_events s)
    \<and> jget rep ''rejectedRows'' = JInt (int (length (out_rejected s)))
    \<and> jget rep ''fraudRows'' = JInt (int (length (filter (\<lambda>l. jget l ''isFraud'' = JBool True) (out_labels s))))
    \<and> jget rep ''flaggedFraudRows'' = JInt (int (length (filter (\<lambda>l. jget l ''sourceFlaggedFraud'' = JBool True) (out_labels s))))
    \<and> jget rep ''nativeTypeDistribution'' = counter_json (native_counts s)
    \<and> (\<forall>t. cget (native_counts s) t = length (filter (\<lambda>e. jget e ''nativeEventType'' = JStr t) (out_events s)))
    \<and> (\<forall>t. cget (normalized_counts s) t = length (filter (\<lambda>e. jget e ''normalizedEventType'' = JStr t) (out_events s)))
    \<and> (\<forall>t. cget (support_counts s) t = length (filter (\<lambda>e. jget e ''typeSupportLevel'' = JStr t) (out_events s)))
    \<and> (\<forall>t. cget (excluded_counts s) t =
          length (filter (\<lambda>r. jget r ''reason'' = JStr (''UNSUPPORTED_NATIVE_TYPE:'' @ t)) (out_rejected s)))"
proof -
  obtain t0 salt source nrows where p:
    "nrows = taken (pa_limit a) (enumerate 1 (dict_rows (pe_records env)))"
    "s = run_state t0 salt nrows" "all_decided (pa_reject_policy a) t0 salt nrows"
    "rep = prepare_report a (hexdigest (sha256 (the (pe_bytes env)))) t0 source (output_paths (pa_output_dir a))
       (pe_started env) (pe_finished env) s"
    using assms by (rule process_InrE)
  let ?acc = "accepted_of t0 salt nrows" and ?ref = "refused_of t0 salt nrows"
  have len: "length nrows = length (taken (pa_limit a) (dict_rows (pe_records env)))"
    unfolding p(1) by (simp add: taken_def split: option.split)
  have fields: "length nrows = length ?acc + length ?ref" using p(3) by (simp add: all_decided_def)
  have rep: "jget rep ''totalRows'' = JInt (int (total_rows s))" "jget rep ''acceptedRows'' = JInt (int (accepted_rows s))"
    "jget rep ''rejectedRows'' = JInt (int (rejected_rows s))" "jget rep ''fraudRows'' = JInt (int (fraud_rows s))"
    "jget rep ''flaggedFraudRows'' = JInt (int (flagged_fraud_rows s))"
    "jget rep ''nativeTypeDistribution'' = counter_json (native_counts s)"
    unfolding p(4) prepare_report_def by (simp_all only: jget_literal)
  have ty: "(the_str (jget (fst q) k) = t) = (jget (fst q) k = JStr t)"
    if "q \<in> set ?acc" "k \<in> {''nativeEventType'', ''normalizedEventType'', ''typeSupportLevel''}" for q k t
    using accepted_types [OF that] by auto
  have lb: "the_bool v = (v = JBool True)" for v by (cases v) simp_all
  have cnt: "count_list (map (\<lambda>(e, l). the_str (jget e k)) ?acc) t = length (filter (\<lambda>e. jget e k = JStr t) (map fst ?acc))"
    if "k \<in> {''nativeEventType'', ''normalizedEventType'', ''typeSupportLevel''}" for k t
    unfolding count_list_map filter_map length_map comp_def
    by (rule arg_cong [of _ _ length], rule filter_cong) (simp_all add: split_beta ty [OF _ that])
  have ex: "count_list (concat (map (\<lambda>(n, r, m, row). refused_type r) ?ref)) t
      = length (filter (\<lambda>r. jget r ''reason'' = JStr (''UNSUPPORTED_NATIVE_TYPE:'' @ t)) (out_rejected s))" for t
    unfolding count_refused_type p(2) run_state_simps(6) filter_map length_map comp_def
    by (rule arg_cong [of _ _ length], rule filter_cong) (auto simp: rejected_record_def jget_or_Cons)
  show ?thesis
    unfolding rep p(2) run_state_simps(9-12) ctr.get_fold
    using len fields cnt ex [unfolded p(2)]
    by (simp add: run_state_simps(1-8) lb case_prod_unfold comp_def ctr.get_empty filter_map)
qed

theorem prepare_accounts_witness:
  "\<exists>s rep. process demo_prepare_env default_prepare_args = Inr (s, rep)
    \<and> jget rep ''totalRows'' = JInt (int (length (out_events s) + length (out_rejected s)))"
proof -
  obtain s rep where s: "process demo_prepare_env default_prepare_args = Inr (s, rep)"
    using demo_prepares by blast
  show ?thesis using prepare_accounts [OF s] s by blast
qed

section \<open>What the outputs hold\<close>

text \<open>C26: the labels are a sidecar of the events: the i-th label has the event id, native and normalised type,
  support level and step of the i-th event, and the event ids of a run are pairwise distinct.\<close>

theorem sidecar_aligned:
  assumes "process env a = Inr (s, rep)"
  shows "length (out_labels s) = length (out_events s) \<and> distinct (map (\<lambda>e. jget e ''eventId'') (out_events s))
    \<and> (\<forall>i < length (out_events s). let e = out_events s ! i; l = out_labels s ! i in
         jget l ''eventId'' = jget e ''eventId'' \<and> jget l ''sourceType'' = jget e ''nativeEventType''
         \<and> jget l ''normalizedType'' = jget e ''normalizedEventType'' \<and> jget l ''typeSupportLevel'' = jget e ''typeSupportLevel''
         \<and> jget l ''sourceStep'' = jget (the_obj (jget e ''balanceFeatures'')) ''sourceStep'')"
proof -
  obtain t0 salt source nrows where p: "nrows = taken (pa_limit a) (enumerate 1 (dict_rows (pe_records env)))"
    "s = run_state t0 salt nrows"
    using assms by (rule process_InrE)
  have "distinct (map (\<lambda>e. jget e ''eventId'') (out_events s))"
    using distinct_eventIds [OF distinct_taken [of "pa_limit a" 1 "dict_rows (pe_records env)"], of t0 salt]
    by (simp add: p run_state_simps comp_def case_prod_unfold)
  moreover have "let e = fst q; l = snd q in
         jget l ''eventId'' = jget e ''eventId'' \<and> jget l ''sourceType'' = jget e ''nativeEventType''
         \<and> jget l ''normalizedType'' = jget e ''normalizedEventType'' \<and> jget l ''typeSupportLevel'' = jget e ''typeSupportLevel''
         \<and> jget l ''sourceStep'' = jget (the_obj (jget e ''balanceFeatures'')) ''sourceStep''"
    if q: "q \<in> set (accepted_of t0 salt nrows)" for q
  proof -
    obtain n row where "normalize_row row n t0 salt = Inr (fst q, snd q)" using q by (auto simp: accepted_of_mem)
    from prepared_label(2-6) [OF this] show ?thesis by (simp add: Let_def)
  qed
  ultimately show ?thesis by (simp add: p(2) run_state_simps Let_def)
qed

theorem sidecar_aligned_witness:
  "\<exists>s rep. process demo_prepare_env default_prepare_args = Inr (s, rep) \<and> accepted_rows s = 2
    \<and> jget (out_labels s ! 1) ''eventId'' = jget (out_events s ! 1) ''eventId''"
proof -
  obtain s rep where s: "process demo_prepare_env default_prepare_args = Inr (s, rep)" "accepted_rows s = 2"
    using demo_prepares by blast
  moreover have "length (out_events s) = accepted_rows s"
    using s(1) by (rule process_InrE) (simp add: run_state_simps)
  ultimately show ?thesis using sidecar_aligned [OF s(1)] by (auto simp: Let_def)
qed

text \<open>C6: the names are gone: no event holds a raw identifier, a raw-name field or a label field at any depth,
  and no label holds a raw identifier or a raw-name field.\<close>

theorem outputs_pseudonymised:
  assumes "process env a = Inr (s, rep)"
  shows "(\<forall>e \<in> set (out_events s). (\<forall>k \<in> set (all_keys (JObj e)). k \<notin> set RAW_FIELDS \<union> set LABEL_FIELDS)
        \<and> (\<forall>v \<in> set (all_strings (JObj e)). \<not> contains_raw_identifier v))
    \<and> (\<forall>l \<in> set (out_labels s). (\<forall>k \<in> set (all_keys (JObj l)). k \<notin> set RAW_FIELDS)
        \<and> (\<forall>v \<in> set (all_strings (JObj l)). \<not> contains_raw_identifier v))"
proof -
  obtain t0 salt source nrows where p: "s = run_state t0 salt nrows" using assms by (rule process_InrE)
  have "clean replay_forbidden (JObj e) \<and> clean (\<lambda>k. k \<in> set RAW_FIELDS) (JObj l)"
    if el: "(e, l) \<in> set (accepted_of t0 salt nrows)" for e l
  proof -
    obtain n row where "normalize_row row n t0 salt = Inr (e, l)" using el by (auto simp: accepted_of_mem)
    then show ?thesis using prepared_label(1) by (blast elim: prepared_event)
  qed
  then show ?thesis by (auto simp: p run_state_simps clean_def raw_identifier_search_iff simp del: clean_simps all_keys.simps all_strings.simps)
qed

theorem outputs_pseudonymised_witness:
  "\<exists>s rep. process demo_prepare_env default_prepare_args = Inr (s, rep) \<and> accepted_rows s = 2
    \<and> (\<forall>e \<in> set (out_events s). \<forall>v \<in> set (all_strings (JObj e)). \<not> contains_raw_identifier v)"
proof -
  obtain s rep where s: "process demo_prepare_env default_prepare_args = Inr (s, rep)" "accepted_rows s = 2"
    using demo_prepares by blast
  then show ?thesis using outputs_pseudonymised [OF s(1)] by blast
qed

section \<open>From the preparation to the replay\<close>

lemma parsed_decimal_ok: "decimal_from row f r = Inr d \<Longrightarrow> dec_ok d \<and> dec_finite d"
  by (auto simp: decimal_from_Inr dec_ok_def dest: decimal_of_str_ok split: decimal.splits)

lemma decimal_reread:
  assumes "dec_ok d" "dec_finite d"
  shows "\<exists>d'. decimal_of_str (decimal_string d) = Some d' \<and> dec_finite d' \<and> dec_val d' = dec_val d"
proof (cases d)
  case (DFin neg c e)
  with assms(1) have "dec_ok (DFin neg c e)" by simp
  from decimal_string_roundtrip [OF this] show ?thesis unfolding DFin by (metis dec_finite.simps(1))
qed (use assms(2) in simp_all)

lemma amount_ok_decimal: "dec_ok d \<Longrightarrow> dec_finite d \<Longrightarrow> amount_ok (JStr (decimal_string d)) \<longleftrightarrow> 0 < dec_val d"
  using decimal_reread [of d] by (auto simp: amount_ok_def py_str_def)

lemma prepared_mapping_valid:
  assumes "normalize_row row n t0 salt = Inr (e, l)"
  shows "validate_native_mapping e = None" "the_str (jget e ''eventType'') \<in> set CURRENT_API_EVENT_TYPES"
    "nonempty_str (jget e ''eventType'')"
proof -
  obtain t nt where e: "check_type row = Inr (t, nt)" "jget e ''eventType'' = JStr nt" "jget e ''nativeEventType'' = JStr t"
    "jget e ''normalizedEventType'' = JStr nt" "jget e ''typeSupportLevel'' = JStr (support_level (mapping_for t))"
    "jget e ''typeMappingPolicyVersion'' = JStr MAPPING_POLICY_VERSION"
    using assms by (rule prepared_event)
  have "normalized_type (mapping_for t) = Some nt" "t \<noteq> []" "support_level (mapping_for t) \<noteq> ''unsupported''"
    using e(1) normalized_types [OF e(1)] by (auto simp: check_type_Inr support_level_mapping_for)
  then show "validate_native_mapping e = None"
    by (simp add: validate_native_mapping_def Let_def e json_of_option_def nonempty_str_def)
  show "the_str (jget e ''eventType'') \<in> set CURRENT_API_EVENT_TYPES" "nonempty_str (jget e ''eventType'')"
    using normalized_types [OF e(1)] by (auto simp: e(2) CURRENT_API_EVENT_TYPES_def nonempty_str_def)
qed

lemma prepared_event_decided:
  assumes "normalize_row row n t0 salt = Inr (e, l)"
  shows "\<exists>d. decimal_from row ''amount'' ''INVALID_AMOUNT'' = Inr d \<and> 0 \<le> dec_val d
    \<and> validate_event e ''current-api'' =
        (if 0 < dec_val d then None
         else Some (PayloadValidationError ''INVALID_AMOUNT'' (Some (''paysim-'' @ pad 9 n))))"
proof -
  obtain d where e: "decimal_from row ''amount'' ''INVALID_AMOUNT'' = Inr d" "0 \<le> dec_val d"
    "clean replay_forbidden (JObj e)" "\<forall>k \<in> set REQUIRED_FIELDS. has_key e k" "\<not> has_key e ''receivedAt''"
    "hash_id_ok CHR ''U'' (jget e ''userId'')" "hash_id_ok CHR ''A'' (jget e ''accountId'')"
    "hash_id_ok CHR ''D'' (jget e ''destinationAccountId'')"
    "jget e ''eventId'' = JStr (''paysim-'' @ pad 9 n)" "jget e ''traceId'' = JStr (''trace-paysim-'' @ pad 9 n)"
    "jget e ''currency'' = JStr ''KRW''" "jget e ''amount'' = JStr (decimal_string d)"
    "nonempty_str (jget e ''eventTime'')"
    using assms by (rule prepared_event)
  have am: "amount_ok (JStr (decimal_string d)) \<longleftrightarrow> 0 < dec_val d"
    using parsed_decimal_ok [OF e(1)] by (simp add: amount_ok_decimal)
  have scan: "scan_forbidden (JObj e) = None" using e(3) by (simp add: rp.scan_passes del: clean_simps)
  have "validate_event e ''current-api'' =
      raise_if (\<not> 0 < dec_val d) (PayloadValidationError ''INVALID_AMOUNT'' (event_id_from (JObj e)))"
    unfolding validate_event_def Let_def using e prepared_mapping_valid [OF assms]
    by (simp add: scan missing_fields_empty am nonempty_str_def raise_if_def)
  then show ?thesis using e by (auto simp: event_id_from_def raise_if_def)
qed

text \<open>C28: what the replay does with a prepared event: under the policy of the current API it takes the event
  exactly when its amount is positive, and refuses an amount of zero, which the preparation lets through, with
  INVALID_AMOUNT. Every other check of the replay holds for a prepared event.\<close>

theorem prepared_event_replayable:
  assumes "normalize_row row n t0 salt = Inr (e, l)"
  shows "\<exists>d. decimal_from row ''amount'' ''INVALID_AMOUNT'' = Inr d \<and> 0 \<le> dec_val d
    \<and> validate_event e ''current-api'' =
        (if 0 < dec_val d then None
         else Some (PayloadValidationError ''INVALID_AMOUNT'' (Some (''paysim-'' @ pad 9 n))))"
  by (rule prepared_event_decided [OF assms])

theorem prepared_event_replayable_witness:
  "\<exists>e l. normalize_row (demo_dict ''TRANSFER'' ''0'') 3 0 ''salt'' = Inr (e, l)
    \<and> validate_event e ''current-api'' = Some (PayloadValidationError ''INVALID_AMOUNT'' (Some (''paysim-'' @ pad 9 3)))"
proof -
  obtain e l where r: "normalize_row (demo_dict ''TRANSFER'' ''0'') 3 0 ''salt'' = Inr (e, l)" using demo_rows(2) by blast
  have "decimal_from (demo_dict ''TRANSFER'' ''0'') ''amount'' ''INVALID_AMOUNT'' = Inr (DFin False 0 0)" by code_simp
  with prepared_event_replayable [OF r] r show ?thesis by auto
qed

text \<open>C27: no amount changes on its way to the outputs: the amount and the four balances of an event, read back with
  Decimal as the replay reads them, have the value the row's fields have.\<close>

theorem amounts_round_trip:
  assumes "normalize_row row n t0 salt = Inr (e, l)"
  shows "(\<exists>src d d'. row_get row ''amount'' = Some (Some src) \<and> decimal_of_str src = Some d
      \<and> decimal_of_str (the_str (jget e ''amount'')) = Some d' \<and> dec_finite d' \<and> dec_val d' = dec_val d)
    \<and> (\<forall>(column, key) \<in> {(''oldbalanceOrg'', ''oldBalanceOrig''), (''newbalanceOrig'', ''newBalanceOrig''),
        (''oldbalanceDest'', ''oldBalanceDest''), (''newbalanceDest'', ''newBalanceDest'')}.
       \<exists>src d d'. row_get row column = Some (Some src) \<and> decimal_of_str src = Some d
         \<and> decimal_of_str (the_str (jget (the_obj (jget e ''balanceFeatures'')) key)) = Some d'
         \<and> dec_finite d' \<and> dec_val d' = dec_val d)"
proof -
  from assms obtain step t nt amount bals orig dest time where r:
    "decimal_from row ''amount'' ''INVALID_AMOUNT'' = Inr amount"
    "mapM (\<lambda>k. decimal_from row k ''INVALID_BALANCE'')
       [''oldbalanceOrg'', ''newbalanceOrig'', ''oldbalanceDest'', ''newbalanceDest''] = Inr bals"
    "e = event_object n t nt (support_level (mapping_for t)) (pseudonym_digest orig salt)
       (hashed_id ''D'' dest salt) time step amount bals"
    by (rule normalize_row_InrE)
  have again: "\<exists>src d d'. row_get row c = Some (Some src) \<and> decimal_of_str src = Some d
      \<and> decimal_of_str (decimal_string x) = Some d' \<and> dec_finite d' \<and> dec_val d' = dec_val d"
    if "decimal_from row c m = Inr x" for c m x
    using that decimal_reread [of x] parsed_decimal_ok [OF that] by (auto simp: decimal_from_Inr)
  obtain b1 b2 b3 b4 where b: "bals = [b1, b2, b3, b4]"
    "decimal_from row ''oldbalanceOrg'' ''INVALID_BALANCE'' = Inr b1" "decimal_from row ''newbalanceOrig'' ''INVALID_BALANCE'' = Inr b2"
    "decimal_from row ''oldbalanceDest'' ''INVALID_BALANCE'' = Inr b3" "decimal_from row ''newbalanceDest'' ''INVALID_BALANCE'' = Inr b4"
    using r(2) by auto
  show ?thesis
    using again [OF r(1)] again [OF b(2)] again [OF b(3)] again [OF b(4)] again [OF b(5)]
    unfolding r(3) b(1) event_object_def by (simp add: jget_or_Cons)
qed

theorem amounts_round_trip_witness:
  "\<exists>e l d. normalize_row (demo_dict ''PAYMENT'' ''9.8'') 1 0 ''salt'' = Inr (e, l)
    \<and> decimal_of_str (the_str (jget e ''amount'')) = Some d \<and> dec_val d = 98 / 10"
proof -
  obtain e l where r: "normalize_row (demo_dict ''PAYMENT'' ''9.8'') 1 0 ''salt'' = Inr (e, l)" using demo_rows(1) by blast
  have "row_get (demo_dict ''PAYMENT'' ''9.8'') ''amount'' = Some (Some ''9.8'')"
    "decimal_of_str ''9.8'' = Some (DFin False 98 (- 1))" "dec_val (DFin False 98 (- 1)) = 98 / 10"
    by (code_simp, code_simp, simp)
  with amounts_round_trip [OF r] r show ?thesis by auto
qed

section \<open>Failures\<close>

text \<open>Where a row has no field for a column, \<open>csv.DictReader\<close> gives \<open>None\<close>.\<close>

definition lacks :: "csv_row \<Rightarrow> string \<Rightarrow> bool" where
  "lacks row k \<longleftrightarrow> row_get row k = Some None"

definition is_row_rejected :: "exn \<Rightarrow> bool" where
  "is_row_rejected x \<longleftrightarrow> (\<exists>r m. x = RowRejected r m)"

lemma decimal_from_Inl: "decimal_from row f r = Inl x \<Longrightarrow> is_row_rejected x \<or> x = TypeError \<and> lacks row f"
  by (auto simp: decimal_from_def is_row_rejected_def lacks_def split: option.splits if_splits)

lemma parse_step_Inl: "parse_step row = Inl x \<Longrightarrow> is_row_rejected x \<or> x = TypeError \<and> lacks row ''step''"
  by (auto simp: parse_step_def is_row_rejected_def lacks_def split: option.splits if_splits)

lemma check_type_Inl: "check_type row = Inl x \<Longrightarrow> is_row_rejected x"
  unfolding check_type_def is_row_rejected_def
  by (cases "case row_get row ''type'' of None \<Rightarrow> Some [] | Some v \<Rightarrow> v") (auto split: option.splits if_split_asm)

lemma parse_label_Inl: "parse_label row f = Inl x \<Longrightarrow> is_row_rejected x"
  by (auto simp: parse_label_def is_row_rejected_def split: if_splits)

lemma check_names_Inl:
  "check_names row = Inl x \<Longrightarrow> is_row_rejected x \<or> x = AttributeError \<and> (lacks row ''nameOrig'' \<or> lacks row ''nameDest'')"
  by (auto simp: check_names_def name_of_def is_row_rejected_def lacks_def Let_def split: option.splits if_splits)

lemma balances_Inl:
  "mapM (\<lambda>k. decimal_from row k r) ks = Inl x \<Longrightarrow> is_row_rejected x \<or> x = TypeError \<and> (\<exists>k \<in> set ks. lacks row k)"
  by (induction ks) (auto simp: bind_res_def dest: decimal_from_Inl split: sum.splits)

definition numeric_columns :: "string list" where
  "numeric_columns = [''step'', ''amount'', ''oldbalanceOrg'', ''newbalanceOrig'', ''oldbalanceDest'', ''newbalanceDest'']"

text \<open>What a row that is neither accepted nor refused raises.\<close>

definition row_crash :: "int \<Rightarrow> csv_row \<Rightarrow> exn \<Rightarrow> bool" where
  "row_crash t0 row x \<longleftrightarrow> x = TypeError \<and> (\<exists>k \<in> set numeric_columns. lacks row k)
     \<or> x = AttributeError \<and> (lacks row ''nameOrig'' \<or> lacks row ''nameDest'')
     \<or> x = OverflowError \<and> (\<exists>step. parse_step row = Inr step \<and> add_hours t0 step = Inl OverflowError)"

lemma normalize_row_Inl:
  assumes "normalize_row row n t0 salt = Inl x"
  shows "is_row_rejected x \<or> row_crash t0 row x"
proof -
  have if_Inl: "(if b then Inl y else m) = Inl x \<longleftrightarrow> b \<and> x = y \<or> \<not> b \<and> m = Inl x" for b y and m :: "(jobj \<times> jobj) res"
    by auto
  have hours: "add_hours t0 h = Inl y \<Longrightarrow> y = OverflowError" for h y
    by (auto simp: add_hours_def Let_def split: if_splits)
  let ?P = "is_row_rejected x \<or> row_crash t0 row x"
  have fields: "decimal_from row ''amount'' r = Inl x \<Longrightarrow> ?P"
    "mapM (\<lambda>k. decimal_from row k r)
       [''oldbalanceOrg'', ''newbalanceOrig'', ''oldbalanceDest'', ''newbalanceDest''] = Inl x \<Longrightarrow> ?P"
    "parse_step row = Inl x \<Longrightarrow> ?P" "check_names row = Inl x \<Longrightarrow> ?P" "check_type row = Inl x \<Longrightarrow> ?P"
    "parse_label row f = Inl x \<Longrightarrow> ?P" for r f
    using decimal_from_Inl [of row "''amount''" r x] parse_step_Inl [of row x] check_names_Inl [of row x]
      balances_Inl [of row r "[''oldbalanceOrg'', ''newbalanceOrig'', ''oldbalanceDest'', ''newbalanceDest'']" x]
      check_type_Inl [of row x] parse_label_Inl [of row f x]
    by (auto simp: row_crash_def numeric_columns_def simp del: mapM.simps)
  have time: "parse_step row = Inr h \<Longrightarrow> add_hours t0 h = Inl x \<Longrightarrow> ?P" for h
    using hours [of h x] by (auto simp: row_crash_def)
  have neg: "x = RowRejected r m \<Longrightarrow> ?P" for r m by (auto simp: is_row_rejected_def)
  show ?thesis
    using assms unfolding normalize_row_def Let_def split_beta bind_res_Inl if_Inl sum.inject sum.distinct
    by (elim disjE exE conjE) (erule fields | erule neg | erule(1) time | erule FalseE | simp only: sum.distinct)+
qed

text \<open>The ways a row ends a run.\<close>

definition row_ends :: "string \<Rightarrow> int \<Rightarrow> string \<Rightarrow> nat \<Rightarrow> csv_row \<Rightarrow> exn \<Rightarrow> bool" where
  "row_ends policy t0 salt n row x \<longleftrightarrow> row_crash t0 row x \<and> normalize_row row n t0 salt = Inl x
     \<or> policy = ''fail-fast'' \<and> (\<exists>r m. normalize_row row n t0 salt = Inl (RowRejected r m)
        \<and> x = SystemExit (''ERROR: row '' @ str_of_nat n @ '': '' @ r @ '': '' @ m))"

lemma process_row_Inl:
  assumes "process_row policy t0 salt n row s = Inl x"
  shows "row_ends policy t0 salt n row x"
proof (cases "normalize_row row n t0 salt")
  case (Inl y)
  show ?thesis
    using assms normalize_row_Inl [OF Inl]
    by (cases y) (auto simp: process_row_def row_ends_def Inl is_row_rejected_def row_crash_def split: if_splits)
qed (use assms in \<open>auto simp: process_row_def split: prod.splits\<close>)

lemma process_rows_Inl:
  assumes "process_rows fault limit policy t0 salt n rows s = Inl x"
  shows "fault = Some x \<or> (\<exists>m row. (m, row) \<in> set (enumerate n rows) \<and> row_ends policy t0 salt m row x)"
  using assms
proof (induction rows arbitrary: n s)
  case (Cons row rows)
  then consider "process_row policy t0 salt n row s = Inl x"
    | s1 where "process_rows fault limit policy t0 salt (Suc n) rows s1 = Inl x"
    by (auto simp: bind_res_Inl split: if_splits)
  then show ?case
  proof cases
    case 1
    from process_row_Inl [OF this] show ?thesis by (auto simp: enumerate_simps)
  next
    case 2
    from Cons.IH [OF this] show ?thesis by (auto simp: enumerate_simps)
  qed
qed (simp split: option.splits)

text \<open>The conditions that stop a run before its first row.\<close>

definition bad_start :: "prepare_env \<Rightarrow> prepare_args \<Rightarrow> bool" where
  "bad_start env a \<longleftrightarrow> pe_bytes env = None \<or> (\<exists>k. pa_limit a = Some k \<and> k < 0)
     \<or> pe_fromiso env (replace_z (pa_base_time a)) = None
     \<or> pa_require_non_default_salt a \<and> isl (resolve_salt a (pe_getenv env))
     \<or> ensure_outputs (pe_exists env) (output_paths (pa_output_dir a)) (pa_force a) \<noteq> None
     \<or> validate_header (pe_records env) \<noteq> None"

definition off_calendar :: "(string \<Rightarrow> (int \<times> int option) option) \<Rightarrow> string \<Rightarrow> bool" where
  "off_calendar fromiso value \<longleftrightarrow> (\<exists>local offset. fromiso (replace_z value) = Some (local, Some offset)
     \<and> (local - offset < 0 \<or> max_instant < local - offset))"

lemma parse_base_time_Inl:
  assumes "parse_base_time fromiso value = Inl x"
  shows "fromiso (replace_z value) = None \<and> (\<exists>m. x = SystemExit m) \<or> x = OverflowError \<and> off_calendar fromiso value"
  using assms by (auto simp: parse_base_time_def off_calendar_def split: option.splits if_splits)

lemma read_header_Some:
  assumes "read_header records fault = Some x"
  shows "fault = Some x \<or> validate_header records \<noteq> None \<and> (\<exists>m. x = SystemExit m)"
  using assms by (auto simp: read_header_def validate_header_def Let_def split: list.splits if_splits)

text \<open>C36: a preparation that does not finish ends with an exit message for a missing input, a negative
  limit, a bad base time, a salt that is required and absent, an output that exists, a header that lacks columns or,
  under fail-fast, a refused row; with OverflowError, for a base time whose instant in UTC is not on the calendar;
  with the exception of the CSV reader or of the decoding of the file, if there is one; or it crashes at a row: a
  record that is too short raises TypeError (AttributeError when only a name is missing), and a step beyond the
  calendar raises OverflowError. Nothing else ends it, as long as the files can be read and written and the memory
  suffices (it does not for the decimal string of an amount like 1e999999999999).\<close>

theorem prepare_failures:
  assumes "process env a = Inl x"
  shows "bad_start env a \<and> (\<exists>m. x = SystemExit m)
    \<or> x = OverflowError \<and> off_calendar (pe_fromiso env) (pa_base_time a)
    \<or> pe_csv_fault env = Some x
    \<or> (\<exists>t0 salt source n row. parse_base_time (pe_fromiso env) (pa_base_time a) = Inr t0
        \<and> resolve_salt a (pe_getenv env) = Inr (salt, source)
        \<and> (n, row) \<in> set (enumerate 1 (dict_rows (pe_records env))) \<and> row_ends (pa_reject_policy a) t0 salt n row x)"
proof -
  have ct: "check_then c m = Inl x \<longleftrightarrow> c = Some x \<or> c = None \<and> m = Inl x" for c and m :: "(prepare_state \<times> jobj) res"
    by (cases c) auto
  have args: "first_fail [raise_if b (SystemExit m), raise_if c (SystemExit m')] = Some x \<Longrightarrow> (b \<or> c) \<and> (\<exists>m. x = SystemExit m)"
    for b c m m' by (auto simp: raise_if_def split: if_splits)
  have salt: "resolve_salt a g = Inl x \<Longrightarrow> pa_require_non_default_salt a \<and> (\<exists>m. x = SystemExit m)" for g
    by (auto simp: resolve_salt_def split: if_splits)
  have out: "ensure_outputs ex p f = Some x \<Longrightarrow> \<exists>m. x = SystemExit m" for ex p f
    by (auto simp: ensure_outputs_def Let_def)
  have limit: "(case l of None \<Rightarrow> False | Some n \<Rightarrow> n < 0) \<longleftrightarrow> (\<exists>k. l = Some k \<and> k < 0)" for l :: "int option"
    by (cases l) auto
  from assms show ?thesis
    unfolding process_def Let_def split_beta ct bind_res_Inl limit
  proof (elim disjE exE conjE, goal_cases)
    case 1
    from args [OF 1] show ?case by (auto simp: bad_start_def)
  next
    case 2
    from parse_base_time_Inl [OF 2(2)] show ?case by (auto simp: bad_start_def)
  next
    case 3
    then show ?case using salt by (auto simp: bad_start_def)
  next
    case 4
    then show ?case using out by (auto simp: bad_start_def)
  next
    case 5
    from read_header_Some [OF 5(5)] show ?case by (auto simp: bad_start_def)
  next
    case (6 t p)
    obtain salt source where "p = (salt, source)" by (cases p)
    with process_rows_Inl [OF 6(6)] 6 show ?case by auto
  qed simp
qed

text \<open>A record that stops after its amount crashes the run, although rows are rejected one by one.\<close>

theorem prepare_failures_witness:
  "\<exists>env a n row. process env a = Inl TypeError \<and> pa_reject_policy a = ''row-level''
    \<and> row_ends (pa_reject_policy a) 0 DEFAULT_LOCAL_SALT n row TypeError"
proof -
  let ?env = "demo_prepare_env\<lparr>pe_records := [REQUIRED_COLUMNS, [''1'', ''PAYMENT'', ''5'']]\<rparr>"
  let ?row = "dict_row REQUIRED_COLUMNS [''1'', ''PAYMENT'', ''5'']"
  have "parse_step ?row = Inr 1" "check_type ?row = Inr (''PAYMENT'', ''PAYMENT'')"
    "decimal_from ?row ''amount'' ''INVALID_AMOUNT'' = Inr (DFin False 5 0)"
    "mapM (\<lambda>k. decimal_from ?row k ''INVALID_BALANCE'')
       [''oldbalanceOrg'', ''newbalanceOrig'', ''oldbalanceDest'', ''newbalanceDest''] = Inl TypeError"
    "read_header (pe_records ?env) None = None"
    by (code_simp, code_simp, code_simp, code_simp, code_simp)
  then have p: "process ?env default_prepare_args = Inl TypeError"
    by (simp add: process_def normalize_row_def process_row_def resolve_salt_def ensure_outputs_def dict_rows_def
        default_prepare_args_def demo_prepare_env_def parse_base_time_def max_instant_def Let_def del: mapM.simps)
  have "\<not> (\<exists>m. TypeError = SystemExit m)" "parse_base_time (pe_fromiso ?env) b = Inr 0" "pe_csv_fault ?env = None"
    "resolve_salt default_prepare_args (pe_getenv ?env) = Inr (DEFAULT_LOCAL_SALT, ''default-local'')"
    "pa_reject_policy default_prepare_args = ''row-level''" for b
    by (simp_all add: demo_prepare_env_def resolve_salt_def default_prepare_args_def parse_base_time_def max_instant_def)
  with prepare_failures [OF p] p show ?thesis by (metis exn.distinct option.distinct(1) prod.inject sum.inject(2))
qed

end
