(* ===== verification/ValidateProperties.thy ===== *)
theory ValidateProperties
  imports ValidateOutputs PrepareProperties
begin

text \<open>
  What a validation that passes establishes of the four files (\<open>outputs_valid\<close>, a description without
  the order of the checks or the state of the passes), how it can fail, and what it says of the outputs
  of the preparation.
\<close>

section \<open>The scan and the single checks\<close>

definition output_bad :: "bool \<Rightarrow> bool \<Rightarrow> string \<Rightarrow> bool" where
  "output_bad forbid_label forbid_salt k \<longleftrightarrow> k \<in> set RAW_IDENTIFIER_FIELDS
     \<or> forbid_label \<and> k \<in> set LABEL_LEAKAGE_FIELDS \<or> forbid_salt \<and> salt_key k"

lemma output_forbidden_key_None:
  "output_forbidden_key forbid_label forbid_salt d p k = None \<longleftrightarrow> \<not> output_bad forbid_label forbid_salt k"
  by (auto simp: output_forbidden_key_def output_bad_def)

interpretation os: forbidden_scanner "output_scan forbid_label forbid_salt path" "output_bad forbid_label forbid_salt"
  for forbid_label forbid_salt path
  by unfold_locales (simp add: output_scan_def scan_json_None_iff [OF output_forbidden_key_None])

definition has_fields :: "string list \<Rightarrow> jobj \<Rightarrow> bool" where
  "has_fields required d \<longleftrightarrow> (\<forall>k \<in> set required. has_key d k)"

lemma lacking_empty [simp]: "lacking req d = [] \<longleftrightarrow> has_fields req d"
  by (auto simp: lacking_def has_fields_def filter_empty_conv
      simp flip: set_empty [of "sort xs" for xs])

lemma not_in_None: "not_in v S x = None \<longleftrightarrow> (\<exists>s \<in> set S. v = JStr s)"
  by (cases v) (auto simp: not_in_def in_strings_def)

definition decimal_field :: "json \<Rightarrow> decimal \<Rightarrow> bool" where
  "decimal_field v d \<longleftrightarrow> (\<exists>s. v = JStr s \<and> decimal_of_str s = Some d) \<and> dec_finite d"

lemma decimal_value_Inr: "decimal_value v p = Inr d \<longleftrightarrow> decimal_field v d"
  by (auto simp: decimal_value_def decimal_field_def split: json.splits option.splits)

lemma decimal_value_fails: "fails (decimal_value v p) = None \<longleftrightarrow> (\<exists>d. decimal_field v d)"
  by (cases "decimal_value v p") (auto simp: fails_def simp flip: decimal_value_Inr [where p = p])

lemma amount_checks_None: "amount_checks row v = None \<longleftrightarrow> (\<exists>d. decimal_field v d \<and> 0 \<le> dec_val d)"
  by (cases "decimal_value v (row @ ''.amount'')")
     (auto simp: amount_checks_def simp flip: decimal_value_Inr [where p = "row @ ''.amount''"])

definition utc_time :: "(string \<Rightarrow> int option option) \<Rightarrow> json \<Rightarrow> bool" where
  "utc_time fromiso v \<longleftrightarrow> (\<exists>s. v = JStr s \<and> ends_with s ''Z'' \<and> fromiso (replace_z s) = Some (Some 0))"

lemma validate_utc_iso_None: "validate_utc_iso fromiso v p = None \<longleftrightarrow> utc_time fromiso v"
  by (cases v) (auto simp: validate_utc_iso_def utc_time_def)

definition natural_field :: "json \<Rightarrow> bool" where
  "natural_field v \<longleftrightarrow> is_int v \<and> 0 \<le> the_int v"

lemma not_natural_iff [simp]: "not_natural v \<longleftrightarrow> \<not> natural_field v"
  by (auto simp: not_natural_def natural_field_def)

lemma nonempty_str_the: "nonempty_str v \<longleftrightarrow> is_str v \<and> the_str v \<noteq> []"
  by (cases v) (auto simp: nonempty_str_def)

section \<open>What a row is checked for\<close>

definition event_ok :: "(string \<Rightarrow> int option option) \<Rightarrow> jobj \<Rightarrow> bool" where
  "event_ok fromiso e \<longleftrightarrow>
     has_fields EVENT_REQUIRED_FIELDS e \<and> clean (output_bad True False) (JObj e)
     \<and> nonempty_str (jget e ''eventId'') \<and> nonempty_str (jget e ''traceId'')
     \<and> (\<forall>(k, c) \<in> set OUTPUT_HASH_IDS. is_str (jget e k) \<and> hash_id_match c (the_str (jget e k)))
     \<and> (\<exists>t \<in> set OUTPUT_TYPES. jget e ''eventType'' = JStr t)
     \<and> (\<exists>d. decimal_field (jget e ''amount'') d \<and> 0 \<le> dec_val d)
     \<and> jget e ''currency'' = JStr ''KRW'' \<and> jget e ''source'' = JStr ''PAYSIM''
     \<and> jget e ''schemaVersion'' = JStr ''v2-paysim'' \<and> \<not> has_key e ''receivedAt''
     \<and> utc_time fromiso (jget e ''eventTime'')
     \<and> (let b = the_obj (jget e ''balanceFeatures'') in
        is_obj (jget e ''balanceFeatures'') \<and> has_fields BALANCE_REQUIRED_FIELDS b
        \<and> natural_field (jget b ''sourceStep'')
        \<and> (\<forall>k \<in> set BALANCE_REQUIRED_FIELDS - {''sourceStep''}. \<exists>d. decimal_field (jget b k) d))"

definition label_ok :: "jobj \<Rightarrow> bool" where
  "label_ok l \<longleftrightarrow>
     has_fields LABEL_REQUIRED_FIELDS l \<and> clean (output_bad False False) (JObj l) \<and> is_str (jget l ''eventId'')
     \<and> is_bool (jget l ''isFraud'') \<and> is_bool (jget l ''sourceFlaggedFraud'') \<and> natural_field (jget l ''sourceStep'')
     \<and> (\<exists>t \<in> set OUTPUT_TYPES. jget l ''sourceType'' = JStr t)"

definition rejected_ok :: "jobj \<Rightarrow> bool" where
  "rejected_ok r \<longleftrightarrow> has_fields REJECTED_REQUIRED_FIELDS r \<and> clean (output_bad False False) (JObj r)
     \<and> (\<exists>t \<in> set VALID_REJECT_REASONS. jget r ''reason'' = JStr t)"

abbreviation text_of :: "string \<Rightarrow> jobj \<Rightarrow> string" where
  "text_of k d \<equiv> the_str (jget d k)"

lemma balance_checks_None:
  "balance_checks row v = None \<longleftrightarrow> is_obj v \<and> has_fields BALANCE_REQUIRED_FIELDS (the_obj v)
     \<and> natural_field (jget (the_obj v) ''sourceStep'')
     \<and> (\<forall>k \<in> set BALANCE_REQUIRED_FIELDS - {''sourceStep''}. \<exists>d. decimal_field (jget (the_obj v) k) d)"
  by (auto simp: balance_checks_def Let_def first_fail_None_iff decimal_value_fails)

lemma event_checks_None:
  "event_checks fromiso row s e = None \<longleftrightarrow> event_ok fromiso e
     \<and> text_of ''eventId'' e \<notin> set (es_event_ids s) \<and> text_of ''traceId'' e \<notin> set (es_trace_ids s)"
proof -
  have ids: "(\<forall>c \<in> set (map (\<lambda>(k, c). raise_if (\<not> is_str (jget e k) \<or> \<not> hash_id_match c (the_str (jget e k))) (x k c)) ks). c = None)
      \<longleftrightarrow> (\<forall>(k, c) \<in> set ks. is_str (jget e k) \<and> hash_id_match c (the_str (jget e k)))" for x :: "string \<Rightarrow> char \<Rightarrow> exn" and ks
    by auto
  show ?thesis
    unfolding event_checks_def Let_def first_fail_None_iff set_append ball_Un ids list.set ball_simps
      raise_if_None lacking_empty os.scan_passes not_in_None amount_checks_None validate_utc_iso_None balance_checks_None
      event_ok_def not_not
    by blast
qed

lemma output_label_checks_None:
  "output_label_checks row ids s l = None \<longleftrightarrow> label_ok l
     \<and> text_of ''eventId'' l \<notin> set (ls_ids s) \<and> text_of ''eventId'' l \<in> set ids"
proof -
  have "in_strings v ids \<Longrightarrow> is_str v \<and> hashable v \<and> the_str v \<in> set ids" "is_str v \<Longrightarrow> in_strings v S \<longleftrightarrow> the_str v \<in> set S"
    "is_str v \<Longrightarrow> hashable v" for v S
    by (cases v; auto simp: in_strings_def)+
  then show ?thesis
    unfolding output_label_checks_def Let_def first_fail_None_iff list.set ball_simps
      raise_if_None lacking_empty os.scan_passes not_in_None label_ok_def not_natural_iff not_not
    by blast
qed

lemma rejected_checks_None: "rejected_checks row r = None \<longleftrightarrow> rejected_ok r"
  by (simp add: rejected_checks_def Let_def os.scan_passes not_in_None rejected_ok_def)

definition events_ok :: "(string \<Rightarrow> int option option) \<Rightarrow> jobj list \<Rightarrow> bool" where
  "events_ok fromiso evs \<longleftrightarrow> (\<forall>e \<in> set evs. event_ok fromiso e)
     \<and> distinct (map (text_of ''eventId'') evs) \<and> distinct (map (text_of ''traceId'') evs)"

definition labels_ok :: "string list \<Rightarrow> jobj list \<Rightarrow> bool" where
  "labels_ok ids lbs \<longleftrightarrow> (\<forall>l \<in> set lbs. label_ok l)
     \<and> distinct (map (text_of ''eventId'') lbs) \<and> set (map (text_of ''eventId'') lbs) = set ids"

section \<open>The passes over the files\<close>

definition events_scanned :: "jobj list \<Rightarrow> event_scan" where
  "events_scanned evs = \<lparr>es_event_ids = map (text_of ''eventId'') evs, es_trace_ids = map (text_of ''traceId'') evs,
     es_types = fold cinc (map (text_of ''eventType'') evs) [], es_count = length evs\<rparr>"

definition labels_scanned :: "jobj list \<Rightarrow> label_scan" where
  "labels_scanned lbs = \<lparr>ls_ids = map (text_of ''eventId'') lbs, ls_count = length lbs,
     ls_fraud = length (filter (\<lambda>l. the_bool (jget l ''isFraud'')) lbs),
     ls_flagged = length (filter (\<lambda>l. the_bool (jget l ''sourceFlaggedFraud'')) lbs)\<rparr>"

lemma for_items_Inr_iff:
  "for_items f s items = Inr s' \<longleftrightarrow> (\<exists>rows. items = map Inr rows \<and> foldM (\<lambda>s (n, d). f s n d) s rows = Inr s')"
  using for_items_rows [of f s items s'] by (auto simp: for_items_map_Inr)

lemma fold_note_event:
  fixes rows :: "(nat \<times> jobj) list"
  shows "fold (\<lambda>r. note_event (snd r)) rows s =
    \<lparr>es_event_ids = es_event_ids s @ map (text_of ''eventId'') (map snd rows),
     es_trace_ids = es_trace_ids s @ map (text_of ''traceId'') (map snd rows),
     es_types = fold cinc (map (text_of ''eventType'') (map snd rows)) (es_types s),
     es_count = es_count s + length rows\<rparr>"
  by (induction rows arbitrary: s) (simp_all add: note_event_def)

lemma fold_note_label:
  fixes rows :: "(nat \<times> jobj) list"
  shows "fold (\<lambda>r. note_label (snd r)) rows s =
    \<lparr>ls_ids = ls_ids s @ map (text_of ''eventId'') (map snd rows),
     ls_count = ls_count s + length rows,
     ls_fraud = ls_fraud s + length (filter (\<lambda>l. the_bool (jget l ''isFraud'')) (map snd rows)),
     ls_flagged = ls_flagged s + length (filter (\<lambda>l. the_bool (jget l ''sourceFlaggedFraud'')) (map snd rows))\<rparr>"
  by (induction rows arbitrary: s) (simp_all add: note_label_def)

lemma fold_events_scanned: "fold (\<lambda>r. note_event (snd r)) rows empty_event_scan = events_scanned (map snd rows)"
  for rows :: "(nat \<times> jobj) list"
  by (simp add: fold_note_event empty_event_scan_def events_scanned_def)

lemma fold_labels_scanned: "fold (\<lambda>r. note_label (snd r)) rows empty_label_scan = labels_scanned (map snd rows)"
  for rows :: "(nat \<times> jobj) list"
  by (simp add: fold_note_label empty_label_scan_def labels_scanned_def)

text \<open>Elements that differ from all before them are distinct.\<close>

lemma distinct_prefixes:
  "(\<forall>i < length rows. f (snd (rows ! i)) \<notin> set (map f (map snd (take i rows)))) \<longleftrightarrow> distinct (map f (map snd rows))"
proof (induction rows rule: rev_induct)
  case (snoc x xs)
  have "(\<forall>i < length (xs @ [x]). f (snd ((xs @ [x]) ! i)) \<notin> set (map f (map snd (take i (xs @ [x]))))) \<longleftrightarrow>
      f (snd x) \<notin> set (map f (map snd xs)) \<and> (\<forall>i < length xs. f (snd (xs ! i)) \<notin> set (map f (map snd (take i xs))))"
    by (auto simp: less_Suc_eq nth_append)
  then show ?case using snoc by auto
qed simp

lemma all_rows: "(\<forall>i < length rows. P (snd (rows ! i))) \<longleftrightarrow> (\<forall>d \<in> set (map snd rows). P d)"
  unfolding set_map image_image ball_simps all_set_conv_all_nth ..

lemmas rows_quantified = distinct_prefixes [of _ "text_of ''eventId''"] distinct_prefixes [of _ "text_of ''traceId''"]

lemma validate_events_iff:
  "validate_events fromiso name items = Inr es \<longleftrightarrow> (\<exists>rows. items = map Inr rows
     \<and> es = events_scanned (map snd rows) \<and> events_ok fromiso (map snd rows))"
proof -
  have "foldM (\<lambda>s (n, d). check_event fromiso name s n d) empty_event_scan rows = Inr es \<longleftrightarrow>
      es = fold (\<lambda>r. note_event (snd r)) rows empty_event_scan \<and> (\<forall>e \<in> set (map snd rows). event_ok fromiso e)
      \<and> distinct (map (text_of ''eventId'') (map snd rows)) \<and> distinct (map (text_of ''traceId'') (map snd rows))" for rows
  proof -
    have "foldM (\<lambda>s (n, d). check_event fromiso name s n d) empty_event_scan rows = Inr es \<longleftrightarrow>
        es = fold (\<lambda>r. note_event (snd r)) rows empty_event_scan
        \<and> (\<forall>i < length rows. event_checks fromiso (row_name name (fst (rows ! i)))
            (fold (\<lambda>r. note_event (snd r)) (take i rows) empty_event_scan) (snd (rows ! i)) = None)"
      by (rule foldM_check) (simp add: check_event_def split_beta)
    then show ?thesis
      unfolding event_checks_None fold_note_event [of "take _ _"]
      by (simp only: empty_event_scan_def event_scan.simps append_Nil imp_conjR all_conj_distrib rows_quantified
          all_rows [of _ "event_ok fromiso"])
  qed
  then show ?thesis unfolding validate_events_def for_items_Inr_iff events_ok_def fold_events_scanned by simp
qed

lemma validate_labels_iff:
  "validate_labels name ids items = Inr ls \<longleftrightarrow> (\<exists>rows. items = map Inr rows
     \<and> ls = labels_scanned (map snd rows) \<and> labels_ok ids (map snd rows))"
proof -
  have pass: "foldM (\<lambda>s (n, d). check_label name ids s n d) empty_label_scan rows = Inr s \<longleftrightarrow>
      s = fold (\<lambda>r. note_label (snd r)) rows empty_label_scan \<and> (\<forall>l \<in> set (map snd rows). label_ok l)
      \<and> distinct (map (text_of ''eventId'') (map snd rows)) \<and> (\<forall>l \<in> set (map snd rows). text_of ''eventId'' l \<in> set ids)" for rows s
  proof -
    have "foldM (\<lambda>s (n, d). check_label name ids s n d) empty_label_scan rows = Inr s \<longleftrightarrow>
        s = fold (\<lambda>r. note_label (snd r)) rows empty_label_scan
        \<and> (\<forall>i < length rows. output_label_checks (row_name name (fst (rows ! i))) ids
            (fold (\<lambda>r. note_label (snd r)) (take i rows) empty_label_scan) (snd (rows ! i)) = None)"
      by (rule foldM_check) (simp add: check_label_def split_beta)
    then show ?thesis
      unfolding output_label_checks_None fold_note_label [of "take _ _"]
      by (simp only: empty_label_scan_def label_scan.simps append_Nil imp_conjR all_conj_distrib rows_quantified
          all_rows [of _ label_ok] all_rows [of _ "\<lambda>l. text_of ''eventId'' l \<in> set ids"])
  qed
  have guard: "(if list_ex (\<lambda>k. k \<notin> S) ids then Inl x else Inr s) = Inr ls \<longleftrightarrow> set ids \<subseteq> S \<and> s = ls"
    for S s and x :: exn by (auto simp: list_ex_iff)
  have ids: "set (ls_ids (fold (\<lambda>r. note_label (snd r)) rows empty_label_scan)) = text_of ''eventId'' ` set (map snd rows)"
    for rows :: "(nat \<times> jobj) list"
    by (simp add: fold_note_label empty_label_scan_def image_image)
  have same: "set (map f xs) = set ids \<longleftrightarrow> (\<forall>l \<in> set xs. f l \<in> set ids) \<and> set ids \<subseteq> f ` set xs"
    for f and xs :: "jobj list" by auto
  show ?thesis
    unfolding validate_labels_def bind_res_Inr_iff for_items_Inr_iff pass guard labels_ok_def fold_labels_scanned [symmetric] same [of "text_of ''eventId''"]
      ids [symmetric]
    by blast
qed

lemma validate_rejected_iff:
  "validate_rejected name items = Inr n \<longleftrightarrow>
     (\<exists>rows. items = map Inr rows \<and> (\<forall>r \<in> set (map snd rows). rejected_ok r) \<and> n = length rows)"
proof -
  have "fold (\<lambda>r. Suc) xs m = m + length xs" for xs :: "(nat \<times> jobj) list" and m
    by (induction xs arbitrary: m) simp_all
  moreover have "foldM (\<lambda>s (n, d). check_rejected name s n d) 0 rows = Inr n \<longleftrightarrow> n = fold (\<lambda>r. Suc) rows 0
      \<and> (\<forall>i < length rows. rejected_checks (row_name name (fst (rows ! i))) (snd (rows ! i)) = None)" for rows
    by (rule foldM_check) (simp add: check_rejected_def split_beta)
  ultimately show ?thesis
    unfolding validate_rejected_def for_items_Inr_iff rejected_checks_None by (auto simp: all_set_conv_all_nth)
qed

section \<open>The report and the whole run\<close>

definition report_ok :: "bool \<Rightarrow> jobj \<Rightarrow> bool" where
  "report_ok require_non_default_salt r \<longleftrightarrow>
     has_fields REPORT_REQUIRED_FIELDS r \<and> clean (output_bad False True) (JObj r)
     \<and> jget r ''datasetSlug'' = JStr EXPECTED_DATASET \<and> jget r ''rawFileName'' = JStr EXPECTED_RAW_FILE
     \<and> is_str (jget r ''inputSha256'') \<and> sha256_match (the_str (jget r ''inputSha256''))
     \<and> jget r ''hashAlgorithm'' = JStr EXPECTED_HASH_ALGORITHM
     \<and> eq_int (jget r ''hashIdPrefixLength'') EXPECTED_HASH_PREFIX_LENGTH
     \<and> nonempty_str (jget r ''hashSaltSource'')
     \<and> (require_non_default_salt \<longrightarrow> jget r ''hashSaltSource'' \<noteq> JStr ''default-local'')"

definition int_field :: "jobj \<Rightarrow> string \<Rightarrow> nat \<Rightarrow> bool" where
  "int_field r k n \<longleftrightarrow> is_int (jget r k) \<and> the_int (jget r k) = int n"

text \<open>The counts of the report are those of the events \<open>evs\<close>, the labels \<open>lbs\<close> and the rejects \<open>rjs\<close>.\<close>

definition report_agrees :: "jobj list \<Rightarrow> jobj list \<Rightarrow> jobj list \<Rightarrow> jobj \<Rightarrow> bool" where
  "report_agrees evs lbs rjs r \<longleftrightarrow>
     length lbs = length evs \<and> 0 < length evs + length rjs
     \<and> int_field r ''acceptedRows'' (length evs) \<and> int_field r ''rejectedRows'' (length rjs)
     \<and> int_field r ''totalRows'' (length evs + length rjs)
     \<and> int_field r ''fraudRows'' (length (filter (\<lambda>l. the_bool (jget l ''isFraud'')) lbs))
     \<and> int_field r ''flaggedFraudRows'' (length (filter (\<lambda>l. the_bool (jget l ''sourceFlaggedFraud'')) lbs))
     \<and> (\<exists>counts. jget r ''eventTypeCounts'' = JObj counts \<and> set (map fst counts) = set OUTPUT_TYPES
          \<and> (\<forall>(t, v) \<in> set counts. is_int v \<and> the_int v = int (count_list (map (text_of ''eventType'') evs) t))
          \<and> sum_list (map (\<lambda>(t, v). the_int v) counts) = int (length evs))"

lemma report_field_checks_None:
  "first_fail (report_field_checks strict r) = None \<longleftrightarrow> report_ok strict r"
  unfolding report_field_checks_def Let_def first_fail_None_iff list.set ball_simps raise_if_None lacking_empty
    os.scan_passes report_ok_def not_not by blast

lemma type_count_checks_None:
  assumes "set (map fst counts) = set OUTPUT_TYPES"
  shows "first_fail (type_count_checks types counts) = None \<longleftrightarrow>
    (\<forall>(t, v) \<in> set counts. is_int v \<and> the_int v = int (cget types t))"
proof -
  have "t \<in> set OUTPUT_TYPES" if "(t, v) \<in> set counts" for t v using that assms by force
  then show ?thesis
    unfolding type_count_checks_def first_fail_None_iff set_concat set_map image_image UN_ball_bex_simps
    by (simp add: split_beta) force
qed

lemma report_count_checks_None:
  "first_fail (report_count_checks (events_scanned evs) (labels_scanned lbs) (length rjs) r) = None
     \<longleftrightarrow> report_agrees evs lbs rjs r"
proof -
  define counts where "counts = jget r ''eventTypeCounts''"
  have types: "first_fail (type_count_checks (es_types (events_scanned evs)) (the_obj counts)) = None \<longleftrightarrow>
      (\<forall>(t, v) \<in> set (the_obj counts). is_int v \<and> the_int v = int (count_list (map (text_of ''eventType'') evs) t))"
    if "set (map fst (the_obj counts)) = set OUTPUT_TYPES"
    using type_count_checks_None [OF that] by (simp add: events_scanned_def ctr.tally)
  have "report_agrees evs lbs rjs r \<longleftrightarrow> length lbs = length evs \<and> 0 < length evs + length rjs
     \<and> int_field r ''acceptedRows'' (length evs) \<and> int_field r ''rejectedRows'' (length rjs)
     \<and> int_field r ''totalRows'' (length evs + length rjs)
     \<and> int_field r ''fraudRows'' (ls_fraud (labels_scanned lbs)) \<and> int_field r ''flaggedFraudRows'' (ls_flagged (labels_scanned lbs))
     \<and> is_obj counts \<and> set (map fst (the_obj counts)) = set OUTPUT_TYPES
     \<and> first_fail (type_count_checks (es_types (events_scanned evs)) (the_obj counts)) = None
     \<and> sum_list (map (\<lambda>(t, v). the_int v) (the_obj counts)) = int (length evs)"
    using types unfolding report_agrees_def counts_def [symmetric]
    by (cases counts) (auto simp: labels_scanned_def)
  moreover have no_rows: "int m + int n = 0 \<longleftrightarrow> m = 0 \<and> n = 0" for m n by auto
  have "first_fail (report_count_checks (events_scanned evs) (labels_scanned lbs) (length rjs) r) = None \<longleftrightarrow>
     length lbs = length evs \<and> 0 < length evs + length rjs
     \<and> int_field r ''acceptedRows'' (length evs) \<and> int_field r ''rejectedRows'' (length rjs)
     \<and> int_field r ''totalRows'' (length evs + length rjs)
     \<and> int_field r ''fraudRows'' (ls_fraud (labels_scanned lbs)) \<and> int_field r ''flaggedFraudRows'' (ls_flagged (labels_scanned lbs))
     \<and> is_obj counts \<and> set (map fst (the_obj counts)) = set OUTPUT_TYPES
     \<and> first_fail (type_count_checks (es_types (events_scanned evs)) (the_obj counts)) = None
     \<and> sum_list (map (\<lambda>(t, v). the_int v) (the_obj counts)) = int (length evs)"
    unfolding report_count_checks_def Let_def counts_def [symmetric] first_fail_append
    by (auto simp: int_field_def int_field_check_def first_fail_append events_scanned_def labels_scanned_def no_rows split: option.splits)
  ultimately show ?thesis by blast
qed

text \<open>The records \<open>rows\<close> of a file: all of its lines that are not blank are objects.\<close>

definition file_holds :: "validate_env \<Rightarrow> string \<Rightarrow> string list option \<Rightarrow> jobj list \<Rightarrow> bool" where
  "file_holds env name file rows \<longleftrightarrow>
     (\<exists>ls nrows. file = Some ls \<and> output_items (vo_loads env) name ls = map Inr nrows \<and> rows = map snd nrows)"

definition files_ok :: "(string \<Rightarrow> int option option) \<Rightarrow> jobj list \<Rightarrow> jobj list \<Rightarrow> jobj list \<Rightarrow> bool" where
  "files_ok fromiso evs lbs rjs \<longleftrightarrow>
     events_ok fromiso evs \<and> labels_ok (map (text_of ''eventId'') evs) lbs \<and> (\<forall>r \<in> set rjs. rejected_ok r)"

definition summary_of :: "jobj list \<Rightarrow> jobj list \<Rightarrow> jobj list \<Rightarrow> validation_summary" where
  "summary_of evs lbs rjs =
    \<lparr>vs_events = length evs, vs_labels = length lbs, vs_rejected = length rjs,
     vs_fraud = length (filter (\<lambda>l. the_bool (jget l ''isFraud'')) lbs),
     vs_flagged = length (filter (\<lambda>l. the_bool (jget l ''sourceFlaggedFraud'')) lbs),
     vs_reject_ratio = decimal_div (length rjs) (length evs + length rjs),
     vs_event_types = fold cinc (map (text_of ''eventType'') evs) []\<rparr>"

definition outputs_valid :: "validate_env \<Rightarrow> validate_args \<Rightarrow> validation_summary \<Rightarrow> bool" where
  "outputs_valid env a v \<longleftrightarrow> (\<exists>evs lbs rjs text report max_ratio.
     file_holds env (va_events_name a) (vo_events env) evs
     \<and> file_holds env (va_labels_name a) (vo_labels env) lbs
     \<and> file_holds env (va_rejected_name a) (vo_rejected env) rjs
     \<and> vo_report env = Some text \<and> vo_loads env text = Some (JObj report)
     \<and> files_ok (vo_fromiso env) evs lbs rjs
     \<and> report_ok (va_require_non_default_salt a) report \<and> report_agrees evs lbs rjs report
     \<and> parse_max_ratio (va_max_reject_ratio a) = Inr max_ratio
     \<and> \<not> dec_greater (decimal_div (length rjs) (length evs + length rjs)) max_ratio
     \<and> v = summary_of evs lbs rjs)"

lemma validate_report_iff:
  assumes "vo_report env = Some text"
  shows "validate_report env (events_scanned evs) (labels_scanned lbs) (length rjs) max_ratio strict = Inr v \<longleftrightarrow>
    (\<exists>report. vo_loads env text = Some (JObj report) \<and> report_ok strict report \<and> report_agrees evs lbs rjs report
     \<and> \<not> dec_greater (decimal_div (length rjs) (length evs + length rjs)) max_ratio
     \<and> v = summary_of evs lbs rjs)"
proof -
  have checks: "first_fail (report_field_checks strict r @ report_count_checks (events_scanned evs) (labels_scanned lbs) (length rjs) r) = None
      \<longleftrightarrow> report_ok strict r \<and> report_agrees evs lbs rjs r" for r
    unfolding first_fail_None_iff set_append ball_Un
    unfolding first_fail_None_iff [symmetric] report_field_checks_None report_count_checks_None ..
  have counts: "nat (the_int (jget r ''rejectedRows'')) = length rjs" "nat (the_int (jget r ''totalRows'')) = length evs + length rjs"
    if "report_agrees evs lbs rjs r" for r
    using that by (auto simp: report_agrees_def int_field_def)
  have fields: "es_count (events_scanned evs) = length evs" "es_types (events_scanned evs) = fold cinc (map (text_of ''eventType'') evs) []"
    "ls_count (labels_scanned lbs) = length lbs" "ls_fraud (labels_scanned lbs) = length (filter (\<lambda>l. the_bool (jget l ''isFraud'')) lbs)"
    "ls_flagged (labels_scanned lbs) = length (filter (\<lambda>l. the_bool (jget l ''sourceFlaggedFraud'')) lbs)"
    by (simp_all add: events_scanned_def labels_scanned_def)
  show ?thesis
    unfolding validate_report_def assms option.sel fields summary_of_def
    by (auto simp: checks counts Let_def split: option.split json.split if_splits)
qed

lemma validate_files:
  "validate env a = Inr v \<longleftrightarrow> (\<exists>max_ratio evl lbl rjl text.
     parse_max_ratio (va_max_reject_ratio a) = Inr max_ratio \<and> vo_events env = Some evl \<and> vo_labels env = Some lbl
     \<and> vo_rejected env = Some rjl \<and> vo_report env = Some text
     \<and> (\<exists>es ls n. validate_events (vo_fromiso env) (va_events_name a) (output_items (vo_loads env) (va_events_name a) evl) = Inr es
        \<and> validate_labels (va_labels_name a) (es_event_ids es) (output_items (vo_loads env) (va_labels_name a) lbl) = Inr ls
        \<and> validate_rejected (va_rejected_name a) (output_items (vo_loads env) (va_rejected_name a) rjl) = Inr n
        \<and> validate_report env es ls n max_ratio (va_require_non_default_salt a) = Inr v))"
  by (auto simp: validate_def require_inputs_def)

lemma passes_iff:
  "(\<exists>es ls n. validate_events f ne ei = Inr es \<and> validate_labels nl (es_event_ids es) li = Inr ls
      \<and> validate_rejected nr ri = Inr n \<and> R es ls n) \<longleftrightarrow>
   (\<exists>er lr rr. ei = map Inr er \<and> li = map Inr lr \<and> ri = map Inr rr \<and> files_ok f (map snd er) (map snd lr) (map snd rr)
      \<and> R (events_scanned (map snd er)) (labels_scanned (map snd lr)) (length (map snd rr)))"
proof -
  have ids: "es_event_ids (events_scanned evs) = map (text_of ''eventId'') evs" for evs
    by (simp add: events_scanned_def)
  show ?thesis
    unfolding validate_events_iff validate_labels_iff validate_rejected_iff files_ok_def ids [symmetric] length_map by blast
qed

lemma validate_iff: "validate env a = Inr v \<longleftrightarrow> outputs_valid env a v"
proof
  assume "validate env a = Inr v"
  then obtain m evl lbl rjl doc er lr rr where files: "parse_max_ratio (va_max_reject_ratio a) = Inr m"
      "vo_events env = Some evl" "vo_labels env = Some lbl" "vo_rejected env = Some rjl" "vo_report env = Some doc"
    and rows: "output_items (vo_loads env) (va_events_name a) evl = map Inr er"
      "output_items (vo_loads env) (va_labels_name a) lbl = map Inr lr"
      "output_items (vo_loads env) (va_rejected_name a) rjl = map Inr rr"
    and ok: "files_ok (vo_fromiso env) (map snd er) (map snd lr) (map snd rr)"
    and report: "validate_report env (events_scanned (map snd er)) (labels_scanned (map snd lr)) (length (map snd rr)) m
        (va_require_non_default_salt a) = Inr v"
    unfolding validate_files passes_iff by blast
  have "file_holds env (va_events_name a) (vo_events env) (map snd er)"
    "file_holds env (va_labels_name a) (vo_labels env) (map snd lr)"
    "file_holds env (va_rejected_name a) (vo_rejected env) (map snd rr)"
    using rows files by (auto simp: file_holds_def)
  with report [unfolded validate_report_iff [OF files(5)]] ok files(1,5) show "outputs_valid env a v"
    unfolding outputs_valid_def by blast
next
  assume "outputs_valid env a v"
  then obtain evs lbs rjs doc report m where files: "file_holds env (va_events_name a) (vo_events env) evs"
      "file_holds env (va_labels_name a) (vo_labels env) lbs" "file_holds env (va_rejected_name a) (vo_rejected env) rjs"
    and doc: "vo_report env = Some doc" and ratio: "parse_max_ratio (va_max_reject_ratio a) = Inr m"
    and ok: "files_ok (vo_fromiso env) evs lbs rjs"
    and report: "vo_loads env doc = Some (JObj report)" "report_ok (va_require_non_default_salt a) report"
      "report_agrees evs lbs rjs report" "\<not> dec_greater (decimal_div (length rjs) (length evs + length rjs)) m"
      "v = summary_of evs lbs rjs"
    unfolding outputs_valid_def by blast
  have "validate_report env (events_scanned evs) (labels_scanned lbs) (length rjs) m (va_require_non_default_salt a) = Inr v"
    using report unfolding validate_report_iff [OF doc] by blast
  with files doc ratio ok show "validate env a = Inr v"
    unfolding validate_files passes_iff file_holds_def by blast
qed

text \<open>C7: the validation of the prepared outputs passes, with the summary \<open>v\<close>, exactly when the four files hold
  what \<open>outputs_valid\<close> describes: every event, label and reject is well formed and clean, ids are distinct,
  labels and events are about the same ids, the report agrees with the files in all of its counts, and the reject ratio
  is within the bound.\<close>

theorem validation_exact: "validate env a = Inr v \<longleftrightarrow> outputs_valid env a v"
  by (rule validate_iff)

section \<open>Failures\<close>

definition check_exn :: "exn \<Rightarrow> bool" where
  "check_exn x \<longleftrightarrow> (\<exists>m. x = ValidationError m) \<or> x = TypeError"

lemma check_exn_simps [simp]: "check_exn (ValidationError m)" "check_exn TypeError"
  by (simp_all add: check_exn_def)

lemma output_scan_exn: "pred_option check_exn (output_scan fl fs p v)"
proof -
  have key: "output_forbidden_key fl fs d q k = Some x \<Longrightarrow> check_exn x" for d q k x
    by (auto simp: output_forbidden_key_def split: if_splits)
  have "output_scan fl fs p v = Some x \<Longrightarrow> check_exn x" for x
    unfolding output_scan_def by (rule scan_json_Some(1) [where P = check_exn]) (auto intro: key)
  then show ?thesis by (simp add: pred_option_def)
qed

lemma checks_exn:
  "pred_option check_exn (not_in v S (ValidationError m))"
  "pred_option check_exn (fails (decimal_value v p))"
  "pred_option check_exn (amount_checks p v)"
  "pred_option check_exn (validate_utc_iso f v p)"
  "pred_option check_exn (balance_checks p v)"
proof -
  show dv: "pred_option check_exn (fails (decimal_value v p))" for v p
    by (auto simp: fails_def decimal_value_def split: json.splits option.splits)
  show "pred_option check_exn (not_in v S (ValidationError m))" by (simp add: not_in_def)
  show "pred_option check_exn (amount_checks p v)"
    using dv [of v "p @ ''.amount''"] by (auto simp: amount_checks_def fails_def split: sum.splits)
  show "pred_option check_exn (validate_utc_iso f v p)"
    unfolding validate_utc_iso_def by (rule first_fail_pred) simp
  show "pred_option check_exn (balance_checks p v)"
    unfolding balance_checks_def Let_def by (rule first_fail_pred) (simp add: list.pred_map comp_def dv list_all_iff)
qed

lemma rows_exn:
  "pred_option check_exn (event_checks f row es e)"
  "pred_option check_exn (output_label_checks row ids ls e)"
  "pred_option check_exn (rejected_checks row e)"
  "pred_option check_exn (first_fail (report_field_checks strict e @ report_count_checks es ls n e))"
  unfolding event_checks_def output_label_checks_def rejected_checks_def report_field_checks_def report_count_checks_def Let_def
  by (rule first_fail_pred, simp add: checks_exn output_scan_exn list.pred_map comp_def case_prod_unfold
      int_field_check_def type_count_checks_def list_all_iff)+

lemma output_items_exn: "Inl y \<in> set (output_items loads name ls) \<Longrightarrow> check_exn y"
  unfolding output_items_def by (fastforce dest: jsonl_items_exn)

lemma pred_optionD: "pred_option P c \<Longrightarrow> c = Some x \<Longrightarrow> P x"
  by simp

lemmas row_exn = rows_exn [THEN pred_optionD]

lemma passes_exn:
  "validate_events f name (output_items loads name ls) = Inl x \<Longrightarrow> check_exn x"
  "validate_labels name ids (output_items loads name ls) = Inl x \<Longrightarrow> check_exn x"
  "validate_rejected name (output_items loads name ls) = Inl x \<Longrightarrow> check_exn x"
proof -
  show "validate_events f name (output_items loads name ls) = Inl x \<Longrightarrow> check_exn x"
    unfolding validate_events_def
    by (erule for_items_exn) (auto simp: check_event_def check_then_Inl_iff dest: row_exn(1) output_items_exn)
  have "for_items (check_label name ids) empty_label_scan (output_items loads name ls) = Inl x \<Longrightarrow> check_exn x"
    by (erule for_items_exn) (auto simp: check_label_def check_then_Inl_iff dest: row_exn(2) output_items_exn)
  then show "validate_labels name ids (output_items loads name ls) = Inl x \<Longrightarrow> check_exn x"
    unfolding validate_labels_def bind_res_Inl by (auto split: if_splits)
  show "validate_rejected name (output_items loads name ls) = Inl x \<Longrightarrow> check_exn x"
    unfolding validate_rejected_def
    by (erule for_items_exn) (auto simp: check_rejected_def check_then_Inl_iff dest: row_exn(3) output_items_exn)
qed

lemma validate_report_exn:
  "validate_report env es ls n m strict = Inl x \<Longrightarrow> check_exn x"
  by (auto simp: validate_report_def check_then_Inl_iff Let_def dest: row_exn(4) split: option.splits json.splits if_splits)

text \<open>C37: these are all the ways a validation can end without a summary: a bad maximal ratio or a missing file, which
  \<open>main\<close> turns into exit status 2; a validation error, status 1; and two exceptions it does not catch, which
  end the process with status 1 as well: \<open>TypeError\<close>, when a list or an object stands where a type, a reason or
  a label id is looked up, and \<open>InvalidOperation\<close>, exactly when the maximal ratio is a NaN.\<close>

theorem validation_failures:
  assumes "validate env a = Inl x"
  shows "((\<exists>m. x = ValueError m) \<or> (\<exists>m. x = FileNotFoundError m)) \<and> validate_exit_status (validate env a) = 2
    \<or> ((\<exists>m. x = ValidationError m) \<or> x = TypeError) \<and> validate_exit_status (validate env a) = 1
    \<or> x = InvalidOperation \<and> decimal_of_str (va_max_reject_ratio a) = Some DNaN \<and> validate_exit_status (validate env a) = 1"
proof -
  have ratio: "parse_max_ratio t = Inl x \<Longrightarrow> (\<exists>m. x = ValueError m) \<or> x = InvalidOperation \<and> decimal_of_str t = Some DNaN" for t
    by (auto simp: parse_max_ratio_def split: option.splits decimal.splits if_splits)
  have "(\<exists>m. x = ValueError m) \<or> (\<exists>m. x = FileNotFoundError m) \<or> check_exn x
      \<or> x = InvalidOperation \<and> decimal_of_str (va_max_reject_ratio a) = Some DNaN"
    using assms unfolding validate_def bind_res_Inl check_then_Inl_iff
    by (auto simp: require_inputs_def Let_def dest: ratio passes_exn validate_report_exn)
  then show ?thesis unfolding assms by (auto simp: check_exn_def validate_exit_status_def)
qed

theorem validation_failures_witness:
  "validate_exit_status (validate \<lparr>vo_events = None, vo_labels = None, vo_rejected = None, vo_report = None,
       vo_loads = (\<lambda>_. None), vo_fromiso = (\<lambda>_. None)\<rparr>
     (default_validate_args\<lparr>va_max_reject_ratio := ''nan''\<rparr>)) = 1"
proof -
  let ?env = "\<lparr>vo_events = None, vo_labels = None, vo_rejected = None, vo_report = None,
       vo_loads = (\<lambda>_. None), vo_fromiso = (\<lambda>_. None)\<rparr>"
  have "validate ?env (default_validate_args\<lparr>va_max_reject_ratio := ''nan''\<rparr>) = Inl InvalidOperation" by code_simp
  from validation_failures [OF this] show ?thesis by auto
qed

end
