(* ===== verification/JsonText.thy ===== *)
theory JsonText
  imports PyValue
begin

text \<open>
  The texts \<open>json.dumps(v, ensure_ascii=False, sort_keys=True)\<close> and the same with \<open>indent=2\<close>, and their
  size in UTF-8. Keys are sorted by code points; only control characters, the quote and the backslash are escaped.
\<close>

definition json_escape :: "char \<Rightarrow> string" where
  "json_escape c = (let n = code_point c in
     if n = 34 \<or> n = 92 then [char_of (92 :: nat), c]
     else if n = 8 then [char_of (92 :: nat), CHR ''b'']
     else if n = 12 then [char_of (92 :: nat), CHR ''f'']
     else if n = 10 then [char_of (92 :: nat), CHR ''n'']
     else if n = 13 then [char_of (92 :: nat), CHR ''r'']
     else if n = 9 then [char_of (92 :: nat), CHR ''t'']
     else if n < 32 then [char_of (92 :: nat)] @ ''u00'' @ [hex_digit (n div 16), hex_digit (n mod 16)]
     else [c])"

definition json_quote :: "string \<Rightarrow> string" where
  "json_quote s = [char_of (34 :: nat)] @ concat (map json_escape s) @ [char_of (34 :: nat)]"

definition json_float :: "pyfloat \<Rightarrow> string" where
  "json_float x = (case x of NaN \<Rightarrow> ''NaN'' | PInf \<Rightarrow> ''Infinity'' | NInf \<Rightarrow> ''-Infinity'' | Fin r \<Rightarrow> float_repr x)"

definition key_value :: "string \<times> string \<Rightarrow> string" where
  "key_value kt = json_quote (fst kt) @ '': '' @ snd kt"

fun dumps :: "json \<Rightarrow> string"
  and dumps_list :: "json list \<Rightarrow> string list"
  and dumps_fields :: "jobj \<Rightarrow> (string \<times> string) list"
where
  "dumps JNull = ''null''"
| "dumps (JBool b) = (if b then ''true'' else ''false'')"
| "dumps (JInt i) = str_of_int i"
| "dumps (JFloat x) = json_float x"
| "dumps (JStr s) = json_quote s"
| "dumps (JList vs) = ''['' @ join '', '' (dumps_list vs) @ '']''"
| "dumps (JObj d) = ''{'' @ join '', '' (map key_value (sort_key fst (dumps_fields d))) @ ''}''"
| "dumps_list [] = []"
| "dumps_list (v # vs) = dumps v # dumps_list vs"
| "dumps_fields [] = []"
| "dumps_fields ((k, v) # d) = (k, dumps v) # dumps_fields d"

text \<open>With \<open>indent=2\<close>: \<open>n\<close> is the level of the value.\<close>

definition new_line :: "nat \<Rightarrow> string" where
  "new_line n = char_of (10 :: nat) # replicate (2 * n) CHR '' ''"

definition block :: "nat \<Rightarrow> string \<Rightarrow> string list \<Rightarrow> string \<Rightarrow> string" where
  "block n opening parts closing =
    (if parts = [] then opening @ closing
     else opening @ new_line (Suc n) @ join ('','' @ new_line (Suc n)) parts @ new_line n @ closing)"

fun dumps_indent :: "nat \<Rightarrow> json \<Rightarrow> string"
  and dumps_indent_list :: "nat \<Rightarrow> json list \<Rightarrow> string list"
  and dumps_indent_fields :: "nat \<Rightarrow> jobj \<Rightarrow> (string \<times> string) list"
where
  "dumps_indent n (JList vs) = block n ''['' (dumps_indent_list (Suc n) vs) '']''"
| "dumps_indent n (JObj d) = block n ''{'' (map key_value (sort_key fst (dumps_indent_fields (Suc n) d))) ''}''"
| "dumps_indent n v = dumps v"
| "dumps_indent_list n [] = []"
| "dumps_indent_list n (v # vs) = dumps_indent n v # dumps_indent_list n vs"
| "dumps_indent_fields n [] = []"
| "dumps_indent_fields n ((k, v) # d) = (k, dumps_indent n v) # dumps_indent_fields n d"

definition utf8_size :: "string \<Rightarrow> nat" where
  "utf8_size s = sum_list (map (\<lambda>c. if code_point c < 128 then 1 else 2) s)"

text \<open>The lines of a JSON-lines file\<close>

definition jsonl_text :: "jobj list \<Rightarrow> string" where
  "jsonl_text rows = concat (map (\<lambda>r. dumps (JObj r) @ [char_of (10 :: nat)]) rows)"

end
