(* ===== verification/JsonParse.thy ===== *)
theory JsonParse
  imports JsonText
begin

text \<open>
  \<open>json.loads\<close>, for texts of characters below code point 256: \<open>None\<close> is \<open>JSONDecodeError\<close> (and also a text
  that spells a character from 256 on with an escape, which the strings of this model cannot hold). As in CPython:
  the white space of JSON only, no control characters in strings, \<open>NaN\<close> and the infinities, a repeated key keeps its
  place and takes the last value. The recursion is bounded by the length of the text, which every nested value is
  shorter than; Python's recursion limit is not modelled.

  \<open>loads_dumps\<close> in \<open>JsonRoundTrip\<close>: what \<open>json.dumps\<close> writes of a value without floats is read back, with its keys sorted.
\<close>

section \<open>Strings\<close>

abbreviation dquote :: char where "dquote \<equiv> char_of (34 :: nat)"

abbreviation backslash :: char where "backslash \<equiv> char_of (92 :: nat)"

definition is_json_space :: "char \<Rightarrow> bool" where
  "is_json_space c \<longleftrightarrow> code_point c \<in> {32, 9, 10, 13}"

definition skip_space :: "string \<Rightarrow> string" where
  "skip_space s = dropWhile is_json_space s"

definition unescape :: "char \<Rightarrow> char option" where
  "unescape c = (let n = code_point c in
     if n = 34 \<or> n = 92 \<or> n = 47 then Some c
     else if c = CHR ''b'' then Some (char_of (8 :: nat))
     else if c = CHR ''f'' then Some (char_of (12 :: nat))
     else if c = CHR ''n'' then Some (char_of (10 :: nat))
     else if c = CHR ''r'' then Some (char_of (13 :: nat))
     else if c = CHR ''t'' then Some (char_of (9 :: nat))
     else None)"

definition hex_value :: "char \<Rightarrow> nat option" where
  "hex_value c = (let n = code_point c in
     if 48 \<le> n \<and> n \<le> 57 then Some (n - 48)
     else if 97 \<le> n \<and> n \<le> 102 then Some (n - 87)
     else if 65 \<le> n \<and> n \<le> 70 then Some (n - 55) else None)"

text \<open>The character of four hexadecimal digits\<close>

definition hex_char :: "char \<Rightarrow> char \<Rightarrow> char \<Rightarrow> char \<Rightarrow> char option" where
  "hex_char a b c d =
    (case (hex_value a, hex_value b, hex_value c, hex_value d) of
       (Some i, Some j, Some k, Some l) \<Rightarrow> if i = 0 \<and> j = 0 then Some (char_of (16 * k + l)) else None
     | _ \<Rightarrow> None)"

definition put_char :: "char \<Rightarrow> (string \<times> string) option \<Rightarrow> (string \<times> string) option" where
  "put_char c r = map_option (\<lambda>(t, rest). (c # t, rest)) r"

text \<open>The characters up to the closing quote, and what follows it\<close>

fun read_chars :: "string \<Rightarrow> (string \<times> string) option" where
  "read_chars [] = None"
| "read_chars (c # cs) =
    (if c = dquote then Some ([], cs)
     else if c = backslash then
       (case cs of
          [] \<Rightarrow> None
        | e # ds \<Rightarrow>
            if e = CHR ''u'' then
              (case ds of
                 h1 # h2 # h3 # h4 # es \<Rightarrow>
                   (case hex_char h1 h2 h3 h4 of None \<Rightarrow> None | Some x \<Rightarrow> put_char x (read_chars es))
               | _ \<Rightarrow> None)
            else (case unescape e of None \<Rightarrow> None | Some x \<Rightarrow> put_char x (read_chars ds)))
     else if code_point c < 32 then None
     else put_char c (read_chars cs))"

section \<open>Numbers\<close>

text \<open>Digits after a dot, or nothing if there is no dot with a digit; the exponent likewise\<close>

definition fraction_part :: "string \<Rightarrow> string" where
  "fraction_part s = (case s of c # d # _ \<Rightarrow> if c = CHR ''.'' \<and> is_digit d then c # takeWhile is_digit (tl s) else [] | _ \<Rightarrow> [])"

definition exponent_part :: "string \<Rightarrow> string" where
  "exponent_part s =
    (case s of
       c # r \<Rightarrow>
         (let sign = (case r of d # _ \<Rightarrow> if d = CHR ''-'' \<or> d = CHR ''+'' then [d] else [] | [] \<Rightarrow> []);
              ds = takeWhile is_digit (drop (length sign) r) in
          if (c = CHR ''e'' \<or> c = CHR ''E'') \<and> ds \<noteq> [] then c # sign @ ds else [])
     | [] \<Rightarrow> [])"

definition number_after :: "string \<Rightarrow> string \<Rightarrow> (json \<times> string) option" where
  "number_after sign r =
    (let ds = takeWhile is_digit r in
     if ds = [] then None
     else
       let ip = (if hd ds = CHR ''0'' then [hd ds] else ds);
           r1 = drop (length ip) r; fp = fraction_part r1;
           r2 = drop (length fp) r1; ep = exponent_part r2;
           rest = drop (length ep) r2
       in if fp = [] \<and> ep = [] then map_option (\<lambda>i. (JInt i, rest)) (int_of_str (sign @ ip))
          else map_option (\<lambda>x. (JFloat x, rest)) (float_of_str (sign @ ip @ fp @ ep)))"

definition read_number :: "string \<Rightarrow> (json \<times> string) option" where
  "read_number s = (case s of [] \<Rightarrow> None | c # r \<Rightarrow> if c = CHR ''-'' then number_after [c] r else number_after [] s)"

section \<open>Values\<close>

definition read_word :: "(string \<times> json) list" where
  "read_word = [(''null'', JNull), (''true'', JBool True), (''false'', JBool False), (''NaN'', JFloat NaN),
     (''Infinity'', JFloat PInf), (''-Infinity'', JFloat NInf)]"

definition read_scalar :: "string \<Rightarrow> (json \<times> string) option" where
  "read_scalar s =
    (case List.find (\<lambda>(w, v). starts_with s w) read_word of
       Some (w, v) \<Rightarrow> Some (v, drop (length w) s)
     | None \<Rightarrow> read_number s)"

fun read_value :: "nat \<Rightarrow> string \<Rightarrow> (json \<times> string) option"
  and read_elements :: "nat \<Rightarrow> string \<Rightarrow> (json list \<times> string) option"
  and read_members :: "nat \<Rightarrow> string \<Rightarrow> (jobj \<times> string) option"
where
  "read_value 0 s = None"
| "read_value (Suc n) s =
    (case s of
       [] \<Rightarrow> None
     | c # cs \<Rightarrow>
         if c = dquote then map_option (\<lambda>(t, r). (JStr t, r)) (read_chars cs)
         else if c = CHR ''['' then
           (case skip_space cs of
              [] \<Rightarrow> None
            | d # r \<Rightarrow> if d = CHR '']'' then Some (JList [], r)
                else map_option (\<lambda>(vs, r). (JList vs, r)) (read_elements n (d # r)))
         else if c = CHR ''{'' then
           (case skip_space cs of
              [] \<Rightarrow> None
            | d # r \<Rightarrow> if d = CHR ''}'' then Some (JObj [], r)
                else map_option (\<lambda>(kvs, r). (JObj (foldl (\<lambda>d (k, v). jset d k v) [] kvs), r)) (read_members n (d # r)))
         else read_scalar s)"
| "read_elements 0 s = None"
| "read_elements (Suc n) s =
    (case read_value n s of
       None \<Rightarrow> None
     | Some (v, r) \<Rightarrow>
         (case skip_space r of
            [] \<Rightarrow> None
          | d # r' \<Rightarrow> if d = CHR '']'' then Some ([v], r')
              else if d = CHR '','' then map_option (\<lambda>(vs, r). (v # vs, r)) (read_elements n (skip_space r'))
              else None))"
| "read_members 0 s = None"
| "read_members (Suc n) s =
    (case s of
       [] \<Rightarrow> None
     | c # cs \<Rightarrow>
         if c \<noteq> dquote then None
         else (case read_chars cs of
             None \<Rightarrow> None
           | Some (k, r) \<Rightarrow>
               (case skip_space r of
                  [] \<Rightarrow> None
                | d # r1 \<Rightarrow>
                    if d \<noteq> CHR '':'' then None
                    else (case read_value n (skip_space r1) of
                        None \<Rightarrow> None
                      | Some (v, r2) \<Rightarrow>
                          (case skip_space r2 of
                             [] \<Rightarrow> None
                           | e # r3 \<Rightarrow> if e = CHR ''}'' then Some ([(k, v)], r3)
                               else if e = CHR '','' then map_option (\<lambda>(kvs, r). ((k, v) # kvs, r)) (read_members n (skip_space r3))
                               else None)))))"

definition json_loads :: "string \<Rightarrow> json option" where
  "json_loads s =
    (case read_value (2 * length s + 2) (skip_space s) of
       None \<Rightarrow> None
     | Some (v, r) \<Rightarrow> if skip_space r = [] then Some v else None)"

end
