(* ===== verification/JsonRoundTrip.thy ===== *)
theory JsonRoundTrip
  imports JsonParse
begin

text \<open>
  What \<open>json.dumps\<close> writes of a value without floats, \<open>json.loads\<close> reads back, with the keys of every
  object sorted (\<open>loads_dumps\<close>); and a JSON-lines file of such rows, opened and read line by line, gives the rows in
  order (\<open>jsonl_items_dumps\<close>), since no text of a row holds a line break. The proof follows the reader: strings
  character by character, integers up to the character that ends them, elements and members by induction on their
  lists, all with a bound of twice the length of the text on the depth.
\<close>

section \<open>Strings\<close>

lemma hex_value_digit: "k < 16 \<Longrightarrow> hex_value (hex_digit k) = Some k"
  by (simp add: hex_value_def hex_digit_def Let_def)

lemma read_escaped: "read_chars (json_escape c @ t) = put_char c (read_chars t)"
proof -
  define n where "n = code_point c"
  have eq: "c = char_of k \<longleftrightarrow> n = k" if "k < 256" for k :: nat
    using that by (auto simp: n_def of_char_of)
  consider "n = 34 \<or> n = 92" | "n \<in> {8, 9, 10, 12, 13}" | "n < 32" "n \<notin> {8, 9, 10, 12, 13}" | "32 \<le> n" "n \<noteq> 34" "n \<noteq> 92" by linarith
  then show ?thesis
  proof cases
    case 1
    then have "json_escape c = [backslash, c]" "unescape c = Some c" "c \<noteq> CHR ''u''"
      using eq [of 117] by (auto simp: json_escape_def unescape_def Let_def n_def)
    then show ?thesis by simp
  next
    case 2
    moreover have "c = char_of n" by (simp add: n_def)
    ultimately show ?thesis by (auto simp: json_escape_def unescape_def Let_def)
  next
    case 3
    then have e: "json_escape c = backslash # CHR ''u'' # CHR ''0'' # CHR ''0'' # hex_digit (n div 16) # [hex_digit (n mod 16)]"
      by (simp add: json_escape_def Let_def flip: n_def)
    have z: "hex_value CHR ''0'' = Some 0" by code_simp
    have "c = char_of (16 * (n div 16) + n mod 16)" by (simp add: n_def)
    then have "hex_char CHR ''0'' CHR ''0'' (hex_digit (n div 16)) (hex_digit (n mod 16)) = Some c"
      using 3 by (simp add: hex_char_def z hex_value_digit)
    then show ?thesis unfolding e by simp
  next
    case 4
    then have "json_escape c = [c]" "c \<noteq> dquote" "c \<noteq> backslash"
      using eq [of 34] eq [of 92] by (auto simp: json_escape_def Let_def n_def)
    then show ?thesis using 4 by (simp add: n_def)
  qed
qed

lemma read_quoted: "read_chars (concat (map json_escape s) @ dquote # r) = Some (s, r)"
  by (induction s) (simp_all add: read_escaped put_char_def)

section \<open>Integers\<close>

text \<open>What does not continue a number: a comma, a closing bracket, white space, or the end of the text\<close>

definition number_end :: "string \<Rightarrow> bool" where
  "number_end r \<longleftrightarrow> (case r of [] \<Rightarrow> True | c # _ \<Rightarrow> c \<in> {CHR '','', CHR '']'', CHR ''}''} \<or> is_json_space c)"

lemma number_end_hd: "number_end (c # r) \<Longrightarrow> \<not> is_digit c \<and> c \<noteq> CHR ''.'' \<and> c \<noteq> CHR ''e'' \<and> c \<noteq> CHR ''E''"
  by (auto simp: number_end_def is_json_space_def is_digit_def)

lemma hd_str_of_nat: "0 < n \<Longrightarrow> hd (str_of_nat n) \<noteq> CHR ''0''"
proof (induction n rule: str_of_nat.induct)
  case (1 n)
  show ?case
  proof (cases "n < 10")
    case True
    have "code_point (digit_char n) \<noteq> code_point CHR ''0''" using True "1.prems" by (simp add: of_char_digit_char)
    then show ?thesis using True by (subst str_of_nat.simps) auto
  next
    case False
    then have "0 < n div 10" by simp
    with 1 False show ?thesis by (subst str_of_nat.simps) simp
  qed
qed

lemma str_of_nat_0: "str_of_nat 0 = ''0''"
  by (subst str_of_nat.simps) code_simp

lemma takeWhile_digits:
  "list_all is_digit ds \<Longrightarrow> number_end r \<Longrightarrow> takeWhile is_digit (ds @ r) = ds"
proof (induction ds)
  case Nil
  then show ?case by (cases r) (auto dest: number_end_hd)
qed simp

lemma digit_facts: "is_digit c \<Longrightarrow> is_ascii c \<and> \<not> is_ascii_space c \<and> c \<noteq> CHR ''-'' \<and> c \<noteq> CHR ''+'' \<and> c \<noteq> CHR ''_''"
  by (auto simp: is_digit_def is_ascii_def is_ascii_space_def)

lemma num_strip_digits:
  assumes "list_all is_digit ds" "ds \<noteq> []"
  shows "num_strip ds = ds" "num_strip (CHR ''-'' # ds) = CHR ''-'' # ds"
proof -
  have keep: "num_strip s = s" if "list_all (\<lambda>c. is_ascii c \<and> \<not> is_ascii_space c) s" for s
  proof -
    have *: "dropWhile is_ascii_space t = t" if "\<forall>c \<in> set t. \<not> is_ascii_space c" for t using that by (cases t) auto
    from that have "list_all is_ascii s" "\<forall>c \<in> set s. \<not> is_ascii_space c" by (auto simp: list_all_iff)
    then show ?thesis by (simp add: num_strip_def *)
  qed
  have "list_all (\<lambda>c. is_ascii c \<and> \<not> is_ascii_space c) ds" using assms(1) by (auto simp: list_all_iff dest: digit_facts)
  then show "num_strip ds = ds" "num_strip (CHR ''-'' # ds) = CHR ''-'' # ds"
    by (simp_all add: keep is_ascii_def is_ascii_space_def)
qed

lemma int_of_digits:
  assumes "list_all is_digit ds" "ds \<noteq> []"
  shows "int_of_str ds = Some (int (nat_of_digits ds))" "int_of_str (CHR ''-'' # ds) = Some (- int (nat_of_digits ds))"
proof -
  have u: "CHR ''_'' \<notin> set ds" using assms(1) by (auto simp: list_all_iff dest: digit_facts)
  have ok: "underscores_ok ds" using u by (auto simp: underscores_ok_def in_set_conv_nth)
  have d: "drop_underscores ds = ds" unfolding drop_underscores_def using u by (intro filter_True) auto
  have "is_digit (hd ds)" using assms by (cases ds) auto
  then have s: "split_sign ds = (False, ds)" using assms(2) digit_facts [of "hd ds"] by (cases ds) (auto simp: split_sign_def)
  show "int_of_str ds = Some (int (nat_of_digits ds))"
    using assms ok d by (simp add: int_of_str_def num_strip_digits s Let_def)
  show "int_of_str (CHR ''-'' # ds) = Some (- int (nat_of_digits ds))"
    using assms ok d by (simp add: int_of_str_def num_strip_digits split_sign_def Let_def)
qed

lemma read_integer:
  assumes "number_end r"
  shows "read_number (str_of_int i @ r) = Some (JInt i, r)"
proof -
  define m where "m = nat \<bar>i\<bar>"
  have ds: "list_all is_digit (str_of_nat m)" "str_of_nat m \<noteq> []" by (simp_all add: str_of_nat_digits)
  have tw: "takeWhile is_digit (str_of_nat m @ r) = str_of_nat m" by (rule takeWhile_digits [OF ds(1) assms])
  have ip: "(if hd (str_of_nat m) = CHR ''0'' then [hd (str_of_nat m)] else str_of_nat m) = str_of_nat m"
    using hd_str_of_nat [of m] str_of_nat_0 by (cases "m = 0") auto
  have rest: "fraction_part r = []" "exponent_part r = []"
    using assms by (auto simp: fraction_part_def exponent_part_def Let_def dest: number_end_hd split: list.splits)
  have num: "number_after sign (str_of_nat m @ r) = map_option (\<lambda>i. (JInt i, r)) (int_of_str (sign @ str_of_nat m))" for sign
    unfolding number_after_def Let_def tw ip using ds(2) by (simp add: rest)
  have "is_digit (hd (str_of_nat m))" using ds by (cases "str_of_nat m") auto
  then have h: "hd (str_of_nat m) \<noteq> CHR ''-''" using digit_facts [of "hd (str_of_nat m)"] by simp
  show ?thesis
  proof (cases "i < 0")
    case True
    then have "str_of_int i = CHR ''-'' # str_of_nat m" "i = - int m" by (simp_all add: str_of_int_def m_def)
    then show ?thesis using ds by (simp add: read_number_def num int_of_digits)
  next
    case False
    then have "str_of_int i = str_of_nat m" "i = int m" by (simp_all add: str_of_int_def m_def)
    moreover have "read_number (str_of_nat m @ r) = number_after [] (str_of_nat m @ r)"
      using ds(2) h by (cases "str_of_nat m") (simp_all add: read_number_def)
    ultimately show ?thesis using ds by (simp add: num int_of_digits)
  qed
qed

section \<open>Values\<close>

text \<open>Values without floats, whose objects have distinct keys, and what is read back of one: its keys are sorted.\<close>

fun plain_json :: "json \<Rightarrow> bool" where
  "plain_json (JFloat x) = False"
| "plain_json (JList vs) = list_all plain_json vs"
| "plain_json (JObj d) = (distinct (map fst d) \<and> list_all (\<lambda>kv. plain_json (snd kv)) d)"
| "plain_json v = True"

fun sorted_json :: "json \<Rightarrow> json" where
  "sorted_json (JList vs) = JList (map sorted_json vs)"
| "sorted_json (JObj d) = JObj (sort_key fst (map (\<lambda>kv. (fst kv, sorted_json (snd kv))) d))"
| "sorted_json v = v"

lemma dumps_list_map: "dumps_list vs = map dumps vs"
  by (induction vs) simp_all

lemma dumps_fields_map: "dumps_fields d = map (\<lambda>kv. (fst kv, dumps (snd kv))) d"
  by (induction d) auto

lemma sort_key_map: "(\<And>x. k (f x) = h x) \<Longrightarrow> sort_key k (map f xs) = map f (sort_key h xs)"
proof -
  assume k: "\<And>x. k (f x) = h x"
  have ins: "insort_key k (f x) (map f ys) = map f (insort_key h x ys)" for x ys by (induction ys) (simp_all add: k)
  show ?thesis by (induction xs) (simp_all add: sort_key_def ins foldr_map)
qed

lemma fold_jset_distinct: "distinct (map fst kvs) \<Longrightarrow> foldl (\<lambda>d (k, v). jset d k v) [] kvs = kvs"
proof (induction kvs rule: rev_induct)
  case (snoc kv kvs)
  have fresh: "k \<notin> set (map fst d) \<Longrightarrow> jset d k v = d @ [(k, v)]" for d :: "('a \<times> 'b) list" and k v
    by (induction d k v rule: jset.induct) auto
  show ?case using snoc by (cases kv) (simp add: fresh del: set_map)
qed simp

lemma digit_not_space: "is_digit c \<Longrightarrow> \<not> is_json_space c"
  by (auto simp: is_digit_def is_json_space_def)

lemma digit_chars:
  "is_digit c \<Longrightarrow> c \<notin> {dquote, CHR ''['', CHR '']'', CHR ''{'', CHR ''}'', CHR ''-'', CHR ''n'', CHR ''t'', CHR ''f'', CHR ''N'', CHR ''I''}"
  by (auto simp: is_digit_def)

lemma str_of_nat_first: obtains c cs where "str_of_nat n = c # cs" "is_digit c"
  using str_of_nat_digits [of n] str_of_nat_nonempty [of n] by (cases "str_of_nat n") auto

lemma minus_not_quote [simp]: "CHR ''-'' \<noteq> dquote" "CHR ''['' \<noteq> dquote" "CHR ''{'' \<noteq> dquote" "dquote \<noteq> CHR ''}''" "dquote \<noteq> CHR '']''"
  "CHR ''n'' \<noteq> dquote" "CHR ''t'' \<noteq> dquote" "CHR ''f'' \<noteq> dquote"
  by (code_simp, code_simp, code_simp, code_simp, code_simp, code_simp, code_simp, code_simp)

lemma str_of_int_first:
  obtains c cs where "str_of_int i = c # cs" "\<not> is_json_space c" "c \<notin> {dquote, CHR ''['', CHR '']'', CHR ''{'', CHR ''}''}"
proof (cases "i < 0")
  case True
  then have "str_of_int i = CHR ''-'' # str_of_nat (nat (- i))" by (simp add: str_of_int_def)
  then show thesis by (rule that) (use minus_not_quote in \<open>auto simp: is_json_space_def\<close>)
next
  case False
  obtain c cs where c: "str_of_nat (nat i) = c # cs" "is_digit c" by (rule str_of_nat_first)
  then have "str_of_int i = c # cs" using False by (simp add: str_of_int_def)
  then show thesis by (rule that) (use digit_chars [OF c(2)] digit_not_space [OF c(2)] in auto)
qed

text \<open>The text \<open>t\<close>, which starts with no space, is read as \<open>w\<close>, whatever follows that does not continue a number.\<close>

definition reads_text :: "string \<Rightarrow> json \<Rightarrow> bool" where
  "reads_text t w \<longleftrightarrow> t \<noteq> [] \<and> \<not> is_json_space (hd t) \<and> hd t \<noteq> CHR '']''
     \<and> (\<forall>n r. number_end r \<longrightarrow> 2 * length t \<le> n \<longrightarrow> read_value n (t @ r) = Some (w, r))"

lemma reads_textD: "reads_text t w \<Longrightarrow> number_end r \<Longrightarrow> 2 * length t \<le> n \<Longrightarrow> read_value n (t @ r) = Some (w, r)"
  by (simp add: reads_text_def)

definition spaces :: "string \<Rightarrow> bool" where
  "spaces ws \<longleftrightarrow> list_all is_json_space ws"

lemma spaces_simps [simp]: "spaces []" "spaces '' ''"
  by (simp_all add: spaces_def is_json_space_def)

lemma skip_spaces: "spaces ws \<Longrightarrow> skip_space (ws @ s) = skip_space s"
  by (induction ws) (simp_all add: spaces_def skip_space_def)

lemma skip_to_text:
  assumes "reads_text t w" "spaces ws"
  shows "skip_space (ws @ t @ r) = t @ r"
  unfolding skip_spaces [OF assms(2)] using assms(1) by (cases t) (simp_all add: reads_text_def skip_space_def)

lemma number_ends [simp]: "number_end []" "number_end (CHR '','' # r)" "number_end (CHR '']'' # r)" "number_end (CHR ''}'' # r)"
  by (simp_all add: number_end_def)

lemma number_end_spaces: "spaces ws \<Longrightarrow> number_end r \<Longrightarrow> number_end (ws @ r)"
  by (cases ws) (auto simp: spaces_def number_end_def is_json_space_def is_digit_def)

lemma skip_stop [simp]: "skip_space (CHR '','' # r) = CHR '','' # r" "skip_space (CHR '']'' # r) = CHR '']'' # r"
  "skip_space (CHR ''}'' # r) = CHR ''}'' # r" "skip_space (CHR '':'' # r) = CHR '':'' # r" "skip_space [] = []"
  by (simp_all add: skip_space_def is_json_space_def)

lemma elements_read_back:
  assumes "ps \<noteq> []" "\<forall>(t, w) \<in> set ps. reads_text t w" "spaces ws" "spaces closing"
    and "2 * length (join (CHR '','' # ws) (map fst ps)) < n"
  shows "read_elements n (join (CHR '','' # ws) (map fst ps) @ closing @ CHR '']'' # r) = Some (map snd ps, r)"
  using assms(1,2,5)
proof (induction ps arbitrary: n rule: list_nonempty_induct)
  case (single p)
  then obtain m where n: "n = Suc m" by (cases n) auto
  have "read_value m (fst p @ closing @ CHR '']'' # r) = Some (snd p, closing @ CHR '']'' # r)"
    using single number_end_spaces [OF assms(4)] by (intro reads_textD) (auto simp: n)
  then show ?case by (simp add: n skip_spaces [OF assms(4)])
next
  case (cons p ps)
  then obtain q qs m where ps: "ps = q # qs" and n: "n = Suc m" by (cases ps; cases n) auto
  let ?rest = "join (CHR '','' # ws) (map fst ps) @ closing @ CHR '']'' # r"
  have q: "reads_text (fst q) (snd q)" using cons.prems by (auto simp: ps)
  have "skip_space (ws @ ?rest) = ?rest"
    using skip_to_text [OF q assms(3)] by (cases qs) (simp_all add: ps)
  moreover have "read_elements m ?rest = Some (map snd ps, r)"
    using cons by (intro cons.IH) (simp_all add: ps n)
  moreover have "read_value m (fst p @ CHR '','' # ws @ ?rest) = Some (snd p, CHR '','' # ws @ ?rest)"
    using cons.prems by (intro reads_textD) (auto simp: ps n)
  moreover have "join (CHR '','' # ws) (map fst (p # ps)) @ closing @ CHR '']'' # r = fst p @ CHR '','' # ws @ ?rest"
    by (simp add: ps)
  ultimately show ?case by (simp add: n)
qed

text \<open>A member of an object: its key, the text of its value, and the value that is read.\<close>

type_synonym member = "string \<times> string \<times> json"

abbreviation member_text :: "member \<Rightarrow> string" where
  "member_text m \<equiv> key_value (fst m, fst (snd m))"

abbreviation member_read :: "member \<Rightarrow> string \<times> json" where
  "member_read m \<equiv> (fst m, snd (snd m))"

lemma member_read_back:
  assumes "reads_text (fst (snd p)) (snd (snd p))" "number_end r" "2 * length (fst (snd p)) \<le> m"
  shows "read_members (Suc m) (member_text p @ r) =
    (case skip_space r of
       [] \<Rightarrow> None
     | e # r3 \<Rightarrow> if e = CHR ''}'' then Some ([member_read p], r3)
         else if e = CHR '','' then map_option (\<lambda>(kvs, r). (member_read p # kvs, r)) (read_members m (skip_space r3))
         else None)"
proof -
  have "spaces '' ''" by (simp add: spaces_def is_json_space_def)
  note v = reads_textD [OF assms] skip_to_text [OF assms(1) this, of r]
  have "member_text p @ r = dquote # concat (map json_escape (fst p)) @ dquote # CHR '':'' # CHR '' '' # fst (snd p) @ r"
    by (simp add: key_value_def json_quote_def)
  then show ?thesis using v by (simp add: read_quoted)
qed

lemma members_read_back:
  assumes "ps \<noteq> []" "\<forall>p \<in> set ps. reads_text (fst (snd p)) (snd (snd p))" "spaces ws" "spaces closing"
    and "2 * length (join (CHR '','' # ws) (map member_text ps)) < n"
  shows "read_members n (join (CHR '','' # ws) (map member_text ps) @ closing @ CHR ''}'' # r) = Some (map member_read ps, r)"
  using assms(1,2,5)
proof (induction ps arbitrary: n rule: list_nonempty_induct)
  case (single p)
  then obtain m where n: "n = Suc m" by (cases n) auto
  have "2 * length (fst (snd p)) \<le> m" using single by (simp add: n key_value_def)
  then show ?case
    using single member_read_back [of p "closing @ CHR ''}'' # r" m] number_end_spaces [OF assms(4)]
    by (simp add: n skip_spaces [OF assms(4)])
next
  case (cons p ps)
  then obtain q qs m where ps: "ps = q # qs" and n: "n = Suc m" by (cases ps; cases n) auto
  let ?rest = "join (CHR '','' # ws) (map member_text ps) @ closing @ CHR ''}'' # r"
  have len: "2 * length (fst (snd p)) \<le> m" using cons.prems by (simp add: n ps key_value_def)
  have "skip_space (ws @ ?rest) = ?rest"
    unfolding skip_spaces [OF assms(3)] by (cases qs) (simp_all add: ps skip_space_def is_json_space_def key_value_def json_quote_def)
  moreover have "read_members m ?rest = Some (map member_read ps, r)"
    using cons by (intro cons.IH) (simp_all add: ps n)
  moreover have "join (CHR '','' # ws) (map member_text (p # ps)) @ closing @ CHR ''}'' # r = member_text p @ CHR '','' # ws @ ?rest"
    by (simp add: ps)
  moreover have "reads_text (fst (snd p)) (snd (snd p))" using cons.prems by simp
  ultimately show ?case
    using member_read_back [of p "CHR '','' # ws @ ?rest" m] len by (simp add: n)
qed

lemma list_reads:
  assumes "ps \<noteq> []" "\<forall>(t, w) \<in> set ps. reads_text t w" "spaces opening" "spaces ws" "spaces closing"
  shows "reads_text (CHR ''['' # opening @ join (CHR '','' # ws) (map fst ps) @ closing @ '']'') (JList (map snd ps))"
proof -
  let ?j = "join (CHR '','' # ws) (map fst ps)"
  obtain p qs where ps: "ps = p # qs" using assms(1) by (cases ps) auto
  then have p: "reads_text (fst p) (snd p)" using assms(2) by auto
  then obtain c cs where c: "fst p = c # cs" "\<not> is_json_space c" "c \<noteq> CHR '']''" by (cases "fst p") (auto simp: reads_text_def)
  obtain ds where j: "?j = c # ds" using c(1) by (cases qs) (simp_all add: ps)
  have "read_value n (CHR ''['' # opening @ ?j @ closing @ CHR '']'' # r) = Some (JList (map snd ps), r)"
    if n: "2 * length (CHR ''['' # opening @ ?j @ closing @ '']'') \<le> n" for n r
  proof -
    obtain m where m: "n = Suc m" "2 * length ?j < m" using n by (cases n) auto
    have "skip_space (opening @ ?j @ closing @ CHR '']'' # r) = ?j @ closing @ CHR '']'' # r"
      unfolding skip_spaces [OF assms(3)] using c(2) by (simp add: j skip_space_def)
    then show ?thesis using elements_read_back [OF assms(1,2,4,5) m(2), of r] c(3) by (simp add: m(1) j)
  qed
  then show ?thesis by (simp add: reads_text_def is_json_space_def)
qed

lemma object_reads:
  assumes "ps \<noteq> []" "\<forall>p \<in> set ps. reads_text (fst (snd p)) (snd (snd p))" "spaces opening" "spaces ws" "spaces closing"
    and "distinct (map fst ps)"
  shows "reads_text (CHR ''{'' # opening @ join (CHR '','' # ws) (map member_text ps) @ closing @ ''}'') (JObj (map member_read ps))"
proof -
  let ?j = "join (CHR '','' # ws) (map member_text ps)"
  obtain ds where j: "?j = dquote # ds" using assms(1)
    by (cases ps rule: list.exhaust; cases "tl ps") (simp_all add: key_value_def json_quote_def)
  have fold: "foldl (\<lambda>d (k, v). jset d k v) [] (map member_read ps) = map member_read ps"
    by (rule fold_jset_distinct) (use assms(6) in \<open>simp add: o_def\<close>)
  have "read_value n (CHR ''{'' # opening @ ?j @ closing @ CHR ''}'' # r) = Some (JObj (map member_read ps), r)"
    if n: "2 * length (CHR ''{'' # opening @ ?j @ closing @ ''}'') \<le> n" for n r
  proof -
    obtain m where m: "n = Suc m" "2 * length ?j < m" using n by (cases n) auto
    have "skip_space (opening @ ?j @ closing @ CHR ''}'' # r) = ?j @ closing @ CHR ''}'' # r"
      unfolding skip_spaces [OF assms(3)] by (simp add: j skip_space_def is_json_space_def)
    then show ?thesis using members_read_back [OF assms(1,2,4,5) m(2), of r] fold by (simp add: m(1) j)
  qed
  then show ?thesis by (simp add: reads_text_def is_json_space_def)
qed

lemma read_scalars:
  "read_scalar (''null'' @ r) = Some (JNull, r)" "read_scalar (''true'' @ r) = Some (JBool True, r)" "read_scalar (''false'' @ r) = Some (JBool False, r)"
  by (simp_all add: read_scalar_def read_word_def starts_with_def)

lemma read_scalar_int: "number_end r \<Longrightarrow> read_scalar (str_of_int i @ r) = Some (JInt i, r)"
proof -
  assume r: "number_end r"
  obtain c cs where c: "str_of_nat (nat \<bar>i\<bar>) = c # cs" "is_digit c" by (rule str_of_nat_first)
  then have "c \<notin> {CHR ''n'', CHR ''t'', CHR ''f'', CHR ''N'', CHR ''I'', CHR ''-''}" using digit_chars [OF c(2)] by simp
  moreover have "str_of_int i = c # cs \<or> str_of_int i = CHR ''-'' # c # cs" using c(1) by (auto simp: str_of_int_def)
  ultimately have "List.find (\<lambda>(w, v). starts_with (str_of_int i @ r) w) read_word = None"
    by (auto simp: read_word_def starts_with_def)
  then show ?thesis by (simp add: read_scalar_def read_integer [OF r])
qed

lemma int_reads: "reads_text (str_of_int i) (JInt i)"
proof -
  obtain c cs where c: "str_of_int i = c # cs" "\<not> is_json_space c" "c \<notin> {dquote, CHR ''['', CHR '']'', CHR ''{'', CHR ''}''}"
    by (rule str_of_int_first)
  have "read_value n (str_of_int i @ r) = Some (JInt i, r)" if r: "number_end r" and len: "2 * length (str_of_int i) \<le> n" for n r
  proof -
    obtain m where "n = Suc m" using len c(1) by (cases n) simp_all
    then show ?thesis using c read_scalar_int [OF r, of i] by simp
  qed
  then show ?thesis using c by (simp add: reads_text_def)
qed

lemma string_reads: "reads_text (json_quote s) (JStr s)"
proof -
  have "read_value n (json_quote s @ r) = Some (JStr s, r)" if "2 * length (json_quote s) \<le> n" for n r
    using that by (cases n) (simp_all add: json_quote_def read_quoted)
  moreover have "dquote \<noteq> CHR '']''" by code_simp
  ultimately show ?thesis by (simp add: reads_text_def json_quote_def is_json_space_def)
qed

lemma word_reads: "reads_text ''null'' JNull" "reads_text ''true'' (JBool True)" "reads_text ''false'' (JBool False)"
proof -
  have "read_value n (''null'' @ r) = Some (JNull, r)" "read_value n (''true'' @ r) = Some (JBool True, r)"
    "read_value n (''false'' @ r) = Some (JBool False, r)" if "8 \<le> n" for n r
    using that by (cases n; simp add: read_scalars [simplified])+
  then show "reads_text ''null'' JNull" "reads_text ''true'' (JBool True)" "reads_text ''false'' (JBool False)"
    by (simp_all add: reads_text_def is_json_space_def)
qed

lemma empty_reads: "reads_text ''[]'' (JList [])" "reads_text ''{}'' (JObj [])"
proof -
  have "read_value n (''[]'' @ r) = Some (JList [], r)" "read_value n (''{}'' @ r) = Some (JObj [], r)" if "4 \<le> n" for n r
    using that by (cases n; simp)+
  then show "reads_text ''[]'' (JList [])" "reads_text ''{}'' (JObj [])" by (simp_all add: reads_text_def is_json_space_def)
qed

text \<open>A text of the members of \<open>d\<close> in the order of their keys, and what is read of it\<close>

lemma sorted_members:
  fixes show_value :: "json \<Rightarrow> string" and d :: jobj
  defines "ps \<equiv> map (\<lambda>kv. (fst kv, show_value (snd kv), sorted_json (snd kv))) (sort_key fst d)"
  assumes "plain_json (JObj d)" "\<And>v. v \<in> snd ` set d \<Longrightarrow> plain_json v \<Longrightarrow> reads_text (show_value v) (sorted_json v)"
  shows "map key_value (sort_key fst (map (\<lambda>kv. (fst kv, show_value (snd kv))) d)) = map member_text ps"
    and "sorted_json (JObj d) = JObj (map member_read ps)" "distinct (map fst ps)"
    and "\<forall>p \<in> set ps. reads_text (fst (snd p)) (snd (snd p))" "ps = [] \<longleftrightarrow> d = []"
proof -
  show "map key_value (sort_key fst (map (\<lambda>kv. (fst kv, show_value (snd kv))) d)) = map member_text ps"
    by (simp add: ps_def sort_key_map [of fst _ fst] o_def)
  show "sorted_json (JObj d) = JObj (map member_read ps)"
    by (simp add: ps_def sort_key_map [of fst _ fst] o_def)
  have "distinct (map fst d)" using assms(2) by simp
  then have "distinct (map fst (sort_key fst d))"
    by (metis mset_map mset_sort mset_eq_imp_distinct_iff)
  then show "distinct (map fst ps)" by (simp add: ps_def o_def)
  show "\<forall>p \<in> set ps. reads_text (fst (snd p)) (snd (snd p))"
    using assms(2) by (auto simp: ps_def list_all_iff intro!: assms(3))
  show "ps = [] \<longleftrightarrow> d = []" by (simp add: ps_def flip: length_0_conv)
qed

lemma plain_reads: "plain_json v \<Longrightarrow> reads_text (dumps v) (sorted_json v)"
proof (induction v)
  case (JList vs)
  then have vs: "\<forall>v \<in> set vs. reads_text (dumps v) (sorted_json v)" by (auto simp: list_all_iff)
  let ?ps = "map (\<lambda>v. (dumps v, sorted_json v)) vs"
  show ?case
  proof (cases "vs = []")
    case False
    with vs list_reads [of ?ps "[]" "'' ''" "[]"] show ?thesis by (simp add: dumps_list_map o_def)
  qed (simp add: empty_reads)
next
  case (JObj d)
  have "\<And>v. v \<in> snd ` set d \<Longrightarrow> plain_json v \<Longrightarrow> reads_text (dumps v) (sorted_json v)" using JObj.IH by force
  note m = sorted_members [where show_value = "dumps", OF JObj.prems this]
  show ?case
  proof (cases "d = []")
    case False
    with object_reads [OF _ m(4) _ _ _ m(3), of "[]" "'' ''" "[]"] m(2,5) show ?thesis
      by (simp add: dumps_fields_map m(1) del: sorted_json.simps)
  qed (simp add: empty_reads)
qed (simp_all add: int_reads string_reads word_reads)

text \<open>The same of the indented text\<close>

lemma dumps_indent_list_map: "dumps_indent_list n vs = map (dumps_indent n) vs"
  by (induction vs) simp_all

lemma dumps_indent_fields_map: "dumps_indent_fields n d = map (\<lambda>kv. (fst kv, dumps_indent n (snd kv))) d"
  by (induction d) auto

lemma new_line_spaces [simp]: "spaces (new_line n)"
  by (simp add: spaces_def new_line_def is_json_space_def list_all_iff)

lemma plain_reads_indent: "plain_json v \<Longrightarrow> reads_text (dumps_indent n v) (sorted_json v)"
proof (induction v arbitrary: n)
  case (JList vs)
  then have vs: "\<forall>v \<in> set vs. reads_text (dumps_indent (Suc n) v) (sorted_json v)" by (auto simp: list_all_iff)
  let ?ps = "map (\<lambda>v. (dumps_indent (Suc n) v, sorted_json v)) vs"
  show ?case
  proof (cases "vs = []")
    case False
    with vs list_reads [of ?ps "new_line (Suc n)" "new_line (Suc n)" "new_line n"] show ?thesis
      by (simp add: dumps_indent_list_map block_def o_def)
  qed (simp add: empty_reads block_def)
next
  case (JObj d)
  have "\<And>v. v \<in> snd ` set d \<Longrightarrow> plain_json v \<Longrightarrow> reads_text (dumps_indent (Suc n) v) (sorted_json v)" using JObj.IH by force
  note m = sorted_members [where show_value = "dumps_indent (Suc n)", OF JObj.prems this]
  show ?case
  proof (cases "d = []")
    case False
    with object_reads [OF _ m(4) _ _ _ m(3), of "new_line (Suc n)" "new_line (Suc n)" "new_line n"] m(2,5) show ?thesis
      by (simp add: dumps_indent_fields_map block_def m(1) del: sorted_json.simps)
  qed (simp add: empty_reads block_def)
qed (simp_all add: int_reads string_reads word_reads)

lemma loads_text:
  assumes "reads_text t w" "spaces ws"
  shows "json_loads (t @ ws) = Some w"
proof -
  have "number_end ws" using number_end_spaces [OF assms(2), of "[]"] by simp
  then show ?thesis
    using reads_textD [OF assms(1), of ws "2 * length (t @ ws) + 2"] skip_to_text [OF assms(1), of "[]" ws] skip_spaces [OF assms(2), of "[]"]
    by (simp add: json_loads_def)
qed

lemma loads_dumps: "plain_json v \<Longrightarrow> json_loads (dumps v) = Some (sorted_json v)"
  using loads_text [OF plain_reads, of v "[]"] by simp

text \<open>The text of a report file: the indented object and a line feed\<close>

lemma loads_report: "plain_json v \<Longrightarrow> json_loads (dumps_indent 0 v @ [char_of (10 :: nat)]) = Some (sorted_json v)"
  by (rule loads_text [OF plain_reads_indent]) (simp_all add: spaces_def is_json_space_def)

section \<open>A JSON-lines file\<close>

text \<open>The lines of an open text file: they end with a line feed, a carriage return or both; the last may have no end.\<close>

fun file_lines :: "string \<Rightarrow> string list" where
  "file_lines [] = []"
| "file_lines (c # cs) =
    (if code_point c = 10 then [c] # file_lines cs
     else if code_point c = 13 then
       (case cs of d # ds \<Rightarrow> if code_point d = 10 then [d] # file_lines ds else [char_of (10 :: nat)] # file_lines cs
        | [] \<Rightarrow> [[char_of (10 :: nat)]])
     else (case file_lines cs of [] \<Rightarrow> [[c]] | l # ls \<Rightarrow> (c # l) # ls))"

definition no_break :: "string \<Rightarrow> bool" where
  "no_break s \<longleftrightarrow> list_all (\<lambda>c. code_point c \<noteq> 10 \<and> code_point c \<noteq> 13) s"

lemma file_lines_line: "no_break s \<Longrightarrow> file_lines (s @ char_of (10 :: nat) # t) = (s @ [char_of (10 :: nat)]) # file_lines t"
  by (induction s) (simp_all add: no_break_def)

lemma no_break_append [simp]: "no_break (s @ t) \<longleftrightarrow> no_break s \<and> no_break t"
  by (simp add: no_break_def)

lemma no_break_Cons [simp]: "no_break []" "no_break (c # s) \<longleftrightarrow> code_point c \<noteq> 10 \<and> code_point c \<noteq> 13 \<and> no_break s"
  by (auto simp: no_break_def)

lemma no_break_digits: "list_all is_digit s \<Longrightarrow> no_break s"
  by (auto simp: no_break_def list_all_iff is_digit_def)

lemma no_break_hex: "k < 16 \<Longrightarrow> no_break [hex_digit k]"
  by (simp add: hex_digit_def)

lemma no_break_escape: "no_break (json_escape c)"
proof -
  have "code_point c div 16 < 16" "code_point c mod 16 < 16" using nat_of_char_less_256 [of c] by (simp_all del: nat_of_char_less_256 add: div_less_iff_less_mult)
  then show ?thesis using no_break_hex unfolding json_escape_def Let_def by auto
qed

lemma no_break_quote: "no_break (json_quote s)"
proof -
  have "no_break (concat (map json_escape s))" by (induction s) (simp_all add: no_break_escape)
  then show ?thesis by (simp add: json_quote_def)
qed

lemma no_break_join: "no_break sep \<Longrightarrow> \<forall>t \<in> set ts. no_break t \<Longrightarrow> no_break (join sep ts)"
  by (induction sep ts rule: join.induct) simp_all

lemma no_break_dumps: "plain_json v \<Longrightarrow> no_break (dumps v)"
proof (induction v)
  case (JInt i)
  have "no_break (str_of_nat n)" for n by (rule no_break_digits) (rule str_of_nat_digits)
  then show ?case by (simp add: str_of_int_def)
next
  case (JStr s)
  then show ?case by (simp add: no_break_quote)
next
  case (JList vs)
  then have "no_break (join '', '' (map dumps vs))" by (intro no_break_join) (auto simp: list_all_iff)
  then show ?case by (simp add: dumps_list_map)
next
  case (JObj d)
  have "no_break (dumps (snd kv))" if "kv \<in> set d" for kv
    using JObj that by (cases kv) (auto simp: list_all_iff)
  then have "no_break (join '', '' (map key_value (sort_key fst (dumps_fields d))))"
    by (intro no_break_join) (auto simp: dumps_fields_map key_value_def no_break_quote)
  then show ?case by simp
qed auto

lemma strip_dumps_obj: "strip (dumps (JObj d) @ [char_of (10 :: nat)]) = dumps (JObj d)"
proof -
  have b: "\<not> is_space CHR ''{''" "\<not> is_space CHR ''}''" "is_space (char_of (10 :: nat))" by code_simp+
  then show ?thesis by (simp add: strip_def)
qed

lemma file_lines_jsonl:
  "\<forall>row \<in> set rows. plain_json (JObj row) \<Longrightarrow> file_lines (jsonl_text rows) = map (\<lambda>row. dumps (JObj row) @ [char_of (10 :: nat)]) rows"
proof (induction rows)
  case (Cons row rows)
  have "no_break (dumps (JObj row))" using Cons.prems by (intro no_break_dumps) simp
  from file_lines_line [OF this, of "jsonl_text rows"] Cons show ?case by (simp add: jsonl_text_def)
qed (simp add: jsonl_text_def)

lemma jsonl_items_dumps:
  assumes "\<forall>row \<in> set rows. plain_json (JObj row)"
  shows "jsonl_items f g json_loads n (map (\<lambda>row. dumps (JObj row) @ [char_of (10 :: nat)]) rows)
    = map Inr (enumerate n (map (\<lambda>row. the_obj (sorted_json (JObj row))) rows))"
  using assms
proof (induction rows arbitrary: n)
  case (Cons row rows)
  have l: "json_loads (dumps (JObj row)) = Some (sorted_json (JObj row))" using Cons.prems by (intro loads_dumps) simp
  have "dumps (JObj row) \<noteq> []" by simp
  then show ?case using l Cons by (simp add: strip_dumps_obj enumerate_simps del: dumps.simps)
qed simp

text \<open>A row as it is read back: the same fields in the order of their keys\<close>

definition sorted_row :: "jobj \<Rightarrow> jobj" where
  "sorted_row row = the_obj (sorted_json (JObj row))"

lemma sorted_row_fields:
  assumes "distinct (map fst row)"
  shows "map_of (sorted_row row) = map_of (map (\<lambda>kv. (fst kv, sorted_json (snd kv))) row)"
proof -
  have m: "mset (sorted_row row) = mset (map (\<lambda>kv. (fst kv, sorted_json (snd kv))) row)" by (simp add: sorted_row_def)
  have d: "distinct (map fst (map (\<lambda>kv. (fst kv, sorted_json (snd kv))) row))" using assms by (simp add: o_def)
  then have "distinct (map fst (sorted_row row))" using m by (metis mset_map mset_eq_imp_distinct_iff)
  then show ?thesis using d m by (simp add: map_of_inject_set) (metis m mset_eq_setD set_map)
qed

lemma sorted_row_get:
  assumes "distinct (map fst row)"
  shows "jget (sorted_row row) k = sorted_json (jget row k)" "has_key (sorted_row row) k \<longleftrightarrow> has_key row k"
proof -
  have "map_of (map (\<lambda>kv. (fst kv, sorted_json (snd kv))) row) k = map_option sorted_json (map_of row k)"
    by (induction row) auto
  then show "jget (sorted_row row) k = sorted_json (jget row k)" "has_key (sorted_row row) k \<longleftrightarrow> has_key row k"
    by (simp_all add: jget_or_def has_key_iff sorted_row_fields [OF assms] split: option.split)
qed

lemma jsonl_file_read_back:
  assumes "\<forall>row \<in> set rows. plain_json (JObj row)"
  shows "jsonl_items f g json_loads 1 (file_lines (jsonl_text rows)) = map Inr (enumerate 1 (map sorted_row rows))"
  unfolding file_lines_jsonl [OF assms] sorted_row_def by (rule jsonl_items_dumps [OF assms])

end
