(* ===== verification/OutputFiles.thy ===== *)
theory OutputFiles
  imports JsonRoundTrip PrepareProperties
begin

text \<open>
  The files of a preparation as the values that are read back of them: every row and the report are plain
  (\<open>outputs_plain\<close>, \<open>report_plain\<close>), so \<open>JsonRoundTrip\<close> applies, and what the scripts check of a value does not
  depend on the order of its keys (\<open>clean_sorted\<close>, \<open>sorted_row_get\<close>).
\<close>

lemma clean_sorted: "clean bad (sorted_json v) \<longleftrightarrow> clean bad v"
proof (induction v)
  case (JObj d)
  then show ?case by (fastforce simp: split_beta)
qed auto

lemma plain_fields: "plain_json (JObj row) \<longleftrightarrow> distinct (map fst row) \<and> (\<forall>(k, v) \<in> set row. plain_json v)"
  by (auto simp: list_all_iff)

lemma prepared_plain:
  assumes "normalize_row row n t0 salt = Inr (e, l)"
  shows "plain_json (JObj e)" "plain_json (JObj l)"
    and "k \<noteq> ''balanceFeatures'' \<Longrightarrow> sorted_json (jget e k) = jget e k"
proof -
  from assms obtain step t nt amount bals orig dest fraud flagged time where r:
    "mapM (\<lambda>k. decimal_from row k ''INVALID_BALANCE'')
       [''oldbalanceOrg'', ''newbalanceOrig'', ''oldbalanceDest'', ''newbalanceDest''] = Inr bals"
    "e = event_object n t nt (support_level (mapping_for t)) (pseudonym_digest orig salt)
       (hashed_id ''D'' dest salt) time step amount bals"
    "l = label_object n t nt (support_level (mapping_for t)) step fraud flagged"
    by (rule normalize_row_InrE)
  obtain b1 b2 b3 b4 where b: "bals = [b1, b2, b3, b4]" using r(1) by auto
  show "plain_json (JObj e)" unfolding r(2) event_object_def b by simp
  show "plain_json (JObj l)" unfolding r(3) label_object_def by simp
  show "sorted_json (jget e k) = jget e k" if "k \<noteq> ''balanceFeatures''"
    using that unfolding r(2) event_object_def by (simp add: jget_or_Cons jget_or_def)
qed

lemma rejected_plain: "plain_json (JObj (rejected_record n r m row))"
  by (simp add: rejected_record_def split: option.split)

lemma outputs_plain:
  assumes "process env a = Inr (s, rep)" "rows \<in> {out_events s, out_labels s, out_rejected s}"
  shows "\<forall>row \<in> set rows. plain_json (JObj row)"
proof -
  obtain t0 salt nrows where s: "s = run_state t0 salt nrows" by (rule process_InrE [OF assms(1)])
  have "plain_json (JObj e) \<and> plain_json (JObj l)" if "(e, l) \<in> set (accepted_of t0 salt nrows)" for e l
    using that by (auto simp: accepted_of_def dest: prepared_plain(1,2) simp del: plain_json.simps)
  then show ?thesis using assms(2) rejected_plain
    by (auto simp: s run_state_def Let_def simp del: plain_json.simps) 
qed

lemma distinct_fold_cinc: "distinct (map fst c) \<Longrightarrow> distinct (map fst (fold cinc ks c))"
  by (induction ks arbitrary: c) (simp_all add: distinct_cinc)

lemma counter_plain: "distinct (map fst c) \<Longrightarrow> plain_json (counter_json c)"
  by (auto simp: counter_json_def list_all_iff comp_def case_prod_unfold)

lemma distinct_sorted_items: "distinct (map fst (sorted_items c)) \<longleftrightarrow> distinct (map fst c)"
  by (metis sorted_items_def mset_map mset_sort mset_eq_imp_distinct_iff)

lemma report_plain:
  assumes "process env a = Inr (s, rep)"
  shows "plain_json (JObj rep)"
proof -
  obtain t0 salt source nrows where p: "s = run_state t0 salt nrows"
    "rep = prepare_report a (hexdigest (sha256 (the (pe_bytes env)))) t0 source (output_paths (pa_output_dir a))
       (pe_started env) (pe_finished env) s"
    by (rule process_InrE [OF assms])
  have "distinct (map fst (native_counts init_prepare_state))" by (simp add: init_prepare_state_def VALID_TYPES_def)
  then have "plain_json (counter_json (native_counts s))" "plain_json (counter_json (sorted_items (normalized_counts s)))"
    "plain_json (counter_json (sorted_items (support_counts s)))" "plain_json (counter_json (sorted_items (excluded_counts s)))"
    by (auto intro!: counter_plain distinct_fold_cinc simp: distinct_sorted_items p(1) run_state_simps)
  moreover have "plain_json mapping_policy_table" by code_simp
  ultimately show ?thesis unfolding p(2) prepare_report_def by simp
qed

section \<open>What the checks see of a row read back\<close>

lemma sorted_json_views [simp]:
  "is_str (sorted_json v) = is_str v" "the_str (sorted_json v) = the_str v" "is_int (sorted_json v) = is_int v"
  "the_int (sorted_json v) = the_int v" "is_bool (sorted_json v) = is_bool v" "the_bool (sorted_json v) = the_bool v"
  "is_obj (sorted_json v) = is_obj v" "num_val (sorted_json v) = num_val v" "sorted_json v = JStr t \<longleftrightarrow> v = JStr t"
  by (cases v; simp)+

lemma sorted_row_clean: "clean bad (JObj (sorted_row d)) \<longleftrightarrow> clean bad (JObj d)"
  using clean_sorted [of bad "JObj d"] by (simp add: sorted_row_def del: clean_simps)

lemma jget_plain: "plain_json (JObj d) \<Longrightarrow> plain_json (jget d k)"
  by (auto simp: jget_or_def list_all_iff dest: map_of_SomeD split: option.split)

lemma plain_distinct: "plain_json (JObj d) \<Longrightarrow> distinct (map fst d)"
  by simp

end
