(* ===== verification/PrepareThenValidate.thy ===== *)
theory PrepareThenValidate
  imports ValidateProperties OutputFiles
begin

text \<open>
  The preparation and the validation of its outputs, composed: which prepared datasets the validator
  lets pass. The lemmas take the outputs of \<open>process\<close> apart row by row (\<open>accepted_of\<close> and
  \<open>refused_of\<close> of \<open>PrepareCorrect\<close>) and compare them with what \<open>ValidateProperties\<close> shows a valid
  dataset to be.

  The files are the texts the preparation writes (\<open>prepared_files\<close>) and \<open>json.loads\<close> is the function of \<open>JsonParse\<close>,
  so the validator reads every object with its keys sorted; its checks do not depend on that order (\<open>event_ok_sorted\<close>
  and the lemmas after it). The one fact about the library that is assumed is that \<open>datetime.fromisoformat\<close> reads the
  text \<open>iso_z\<close> writes of a time of the years 1 to 9999, with \<open>Z\<close> replaced by \<open>+00:00\<close>, as a time in UTC (\<open>reads_utc\<close>).
\<close>

definition reads_utc :: "(string \<Rightarrow> int option option) \<Rightarrow> bool" where
  "reads_utc fromiso \<longleftrightarrow> (\<forall>t. 0 \<le> t \<and> t \<le> max_instant \<longrightarrow> fromiso (replace_z (iso_z t)) = Some (Some 0))"

lemma ends_with_append: "ends_with (xs @ ys) ys"
  by (simp add: ends_with_def)

lemma iso_z_ends: "ends_with (iso_z t) ''Z''"
proof -
  have "\<exists>u. iso_z t = u @ ''Z''" by (simp add: iso_z_def Let_def split: prod.split)
  then show ?thesis using ends_with_append by force
qed

lemma clean_mono: "clean bad v \<Longrightarrow> (\<And>k. bad' k \<Longrightarrow> bad k) \<Longrightarrow> clean bad' v"
  by (auto simp: clean_def)

lemma decimal_field_string: "dec_ok d \<Longrightarrow> dec_finite d \<Longrightarrow> \<exists>d'. decimal_field (JStr (decimal_string d)) d' \<and> dec_val d' = dec_val d"
  using decimal_reread [of d] by (auto simp: decimal_field_def)

text \<open>An event of the preparation satisfies all that the validator asks, but for its type: the normalised types
  of CASH_OUT and CASH_IN are none of the validator's.\<close>

lemma prepared_event_ok:
  assumes "normalize_row row n t0 salt = Inr (e, l)" "reads_utc fromiso"
  shows "event_ok fromiso e \<longleftrightarrow> jget e ''eventType'' \<in> {JStr ''PAYMENT'', JStr ''TRANSFER''}"
proof -
  obtain t nt amount where pe: "check_type row = Inr (t, nt)" "decimal_from row ''amount'' ''INVALID_AMOUNT'' = Inr amount"
    "0 \<le> dec_val amount" "clean replay_forbidden (JObj e)" "hash_id_ok CHR ''U'' (jget e ''userId'')"
    "hash_id_ok CHR ''A'' (jget e ''accountId'')" "hash_id_ok CHR ''D'' (jget e ''destinationAccountId'')"
    "jget e ''eventId'' = JStr (''paysim-'' @ pad 9 n)" "jget e ''traceId'' = JStr (''trace-paysim-'' @ pad 9 n)"
    "jget e ''eventType'' = JStr nt" "jget e ''currency'' = JStr ''KRW''" "jget e ''amount'' = JStr (decimal_string amount)"
    "\<not> has_key e ''receivedAt''"
    using assms(1) by (rule prepared_event)
  obtain step oh dd time am bals lv ty nty where r: "parse_step row = Inr step"
    "mapM (\<lambda>k. decimal_from row k ''INVALID_BALANCE'')
       [''oldbalanceOrg'', ''newbalanceOrig'', ''oldbalanceDest'', ''newbalanceDest''] = Inr bals"
    "e = event_object n ty nty lv oh dd time step am bals" "add_hours t0 step = Inr time"
    using assms(1) by (rule normalize_row_InrE)
  have "fromiso (replace_z (iso_z time)) = Some (Some 0)"
    using r(4) assms(2) by (auto simp: add_hours_def Let_def reads_utc_def split: if_splits)
  note utc = this
  obtain b1 b2 b3 b4 where b: "bals = [b1, b2, b3, b4]" "\<forall>b \<in> set bals. dec_ok b \<and> dec_finite b"
    using r(2) parsed_decimal_ok [where row = row] by fastforce
  have bal: "\<exists>d. decimal_field (JStr (decimal_string b)) d" if "b \<in> set bals" for b
    using b(2) that decimal_field_string by blast
  have features: "is_obj (jget e ''balanceFeatures'') \<and> has_fields BALANCE_REQUIRED_FIELDS (the_obj (jget e ''balanceFeatures''))
      \<and> natural_field (jget (the_obj (jget e ''balanceFeatures'')) ''sourceStep'')
      \<and> (\<forall>k \<in> set BALANCE_REQUIRED_FIELDS - {''sourceStep''}. \<exists>d. decimal_field (jget (the_obj (jget e ''balanceFeatures'')) k) d)"
    using r(1) bal b(1) unfolding r(3) event_object_def
    by (auto simp: jget_or_Cons BALANCE_REQUIRED_FIELDS_def has_fields_def has_key_def natural_field_def parse_step_Inr)
  have fields: "has_fields EVENT_REQUIRED_FIELDS e" "jget e ''source'' = JStr ''PAYSIM''" "jget e ''schemaVersion'' = JStr ''v2-paysim''"
    "utc_time fromiso (jget e ''eventTime'')"
    using utc unfolding r(3) event_object_def
    by (simp_all add: jget_or_Cons EVENT_REQUIRED_FIELDS_def has_fields_def has_key_def utc_time_def iso_z_ends)
  have clean: "clean (output_bad True False) (JObj e)"
    using pe(4) by (rule clean_mono)
      (auto simp: output_bad_def RAW_IDENTIFIER_FIELDS_def LABEL_LEAKAGE_FIELDS_def RAW_FIELDS_def LABEL_FIELDS_def)
  have ids: "\<forall>(k, c) \<in> set OUTPUT_HASH_IDS. is_str (jget e k) \<and> hash_id_match c (the_str (jget e k))"
    using pe(5-7) by (auto simp: OUTPUT_HASH_IDS_def hash_id_ok_def)
  have ty: "nt \<in> set OUTPUT_TYPES \<longleftrightarrow> nt \<in> {''PAYMENT'', ''TRANSFER''}"
    using normalized_types [OF pe(1)] by (auto simp: OUTPUT_TYPES_def)
  have am: "\<exists>d. decimal_field (jget e ''amount'') d \<and> 0 \<le> dec_val d"
    using parsed_decimal_ok [OF pe(2)] decimal_field_string pe(3) unfolding pe(12) by metis
  show ?thesis
    unfolding event_ok_def Let_def using features fields clean ids am pe(13) ty
    by (simp add: pe(8-11) nonempty_str_def del: clean_simps)
qed

text \<open>A label of the preparation satisfies all that the validator asks.\<close>

lemma prepared_label_ok:
  assumes "normalize_row row n t0 salt = Inr (e, l)"
  shows "label_ok l" "text_of ''eventId'' l = text_of ''eventId'' e"
proof -
  obtain step t nt fraud flagged lv where r: "parse_step row = Inr step" "check_type row = Inr (t, nt)"
    "l = label_object n t nt lv step fraud flagged"
    using assms by (rule normalize_row_InrE)
  have "clean (output_bad False False) (JObj l)"
    using prepared_label(1) [OF assms]
    by (rule clean_mono) (auto simp: output_bad_def RAW_IDENTIFIER_FIELDS_def RAW_FIELDS_def)
  moreover have "t \<in> set OUTPUT_TYPES" using r(2) by (auto simp: check_type_Inr VALID_TYPES_def OUTPUT_TYPES_def)
  ultimately show "label_ok l"
    using r(1) unfolding label_ok_def r(3)
    by (simp add: label_object_def jget_or_Cons LABEL_REQUIRED_FIELDS_def has_fields_def has_key_def natural_field_def
        parse_step_Inr del: clean_simps) auto
  show "text_of ''eventId'' l = text_of ''eventId'' e"
    using prepared_label(2) [OF assms] by simp
qed

text \<open>The trace id of a prepared event is its event id with a prefix, so trace ids are as distinct as event ids.\<close>

lemma prepared_ids:
  assumes "normalize_row row n t0 salt = Inr (e, l)"
  shows "jget e ''eventId'' = JStr (text_of ''eventId'' e)" "text_of ''traceId'' e = ''trace-'' @ text_of ''eventId'' e"
  by (rule prepared_event [OF assms]; simp)+

lemma accepted_row: "q \<in> set (accepted_of t0 salt nrows) \<Longrightarrow> \<exists>n row. normalize_row row n t0 salt = Inr (fst q, snd q)"
  by (auto simp: accepted_of_mem)

lemma prepared_ids_distinct:
  assumes "distinct (map fst nrows)" "acc = accepted_of t0 salt nrows"
  shows "distinct (map (text_of ''eventId'') (map fst acc))" "distinct (map (text_of ''traceId'') (map fst acc))"
    "map (text_of ''eventId'') (map snd acc) = map (text_of ''eventId'') (map fst acc)"
proof -
  have id: "jget (fst q) ''eventId'' = JStr (text_of ''eventId'' (fst q))"
    "text_of ''traceId'' (fst q) = ''trace-'' @ text_of ''eventId'' (fst q)"
    "text_of ''eventId'' (snd q) = text_of ''eventId'' (fst q)" if "q \<in> set acc" for q
    using that accepted_row prepared_ids prepared_label_ok(2) unfolding assms(2) by metis+
  have "distinct (map (\<lambda>q. jget (fst q) ''eventId'') acc)"
    using distinct_eventIds [OF assms(1), of t0 salt] by (simp add: assms(2) case_prod_unfold)
  moreover have "map (\<lambda>q. jget (fst q) ''eventId'') acc = map JStr (map (text_of ''eventId'') (map fst acc))"
    using id(1) by simp
  ultimately have "distinct (map JStr (map (text_of ''eventId'') (map fst acc)))" by (simp only:)
  then show ids: "distinct (map (text_of ''eventId'') (map fst acc))"
    unfolding distinct_map [of JStr] ..
  have "map (text_of ''traceId'') (map fst acc) = map ((@) ''trace-'') (map (text_of ''eventId'') (map fst acc))"
    using id(2) by simp
  then show "distinct (map (text_of ''traceId'') (map fst acc))"
    unfolding distinct_map [of "(@) ''trace-''"] by (simp only: ids distinct_map [of "(@) ''trace-''"]) (simp add: inj_on_def)
  show "map (text_of ''eventId'') (map snd acc) = map (text_of ''eventId'') (map fst acc)"
    using id(3) by simp
qed

text \<open>The counts of the report agree with the files the preparation wrote.\<close>

lemma keys_fold_cinc: "set (map fst (fold cinc ks c)) = set ks \<union> set (map fst c)"
  by (induction ks arbitrary: c) (auto simp: keys_cinc simp del: set_map)

lemma counter_json_counts:
  assumes "distinct (map fst c)" "(t, v) \<in> set (map (\<lambda>(k, n). (k, JInt (int n))) c)"
  shows "is_int v \<and> the_int v = int (cget c t)"
proof -
  obtain n where n: "(t, n) \<in> set c" "v = JInt (int n)" using assms(2) by auto
  then show ?thesis using map_of_is_SomeI [OF assms(1) n(1)] by (simp add: cget_def)
qed

lemma counter_json_total: "sum_list (map (\<lambda>(t, v). the_int v) (map (\<lambda>(k, n). (k, JInt (int n))) c)) = int (ctotal c)"
  by (induction c) (auto simp: ctotal_def)

lemma prepared_report_agrees:
  fixes nrows :: "(nat \<times> csv_row) list" and t0 :: int and salt :: string
  defines "s \<equiv> run_state t0 salt nrows"
  assumes "all_decided policy t0 salt nrows" "nrows \<noteq> []"
    and types: "\<forall>e \<in> set (out_events s). jget e ''eventType'' = jget e ''nativeEventType''"
    and rep: "rep = prepare_report a sha t0 source paths started finished s"
  shows "report_agrees (out_events s) (out_labels s) (out_rejected s) rep"
proof -
  let ?acc = "accepted_of t0 salt nrows"
  have natives: "native_counts s = fold cinc (map (text_of ''nativeEventType'') (out_events s)) (native_counts init_prepare_state)"
    by (simp add: s_def run_state_simps comp_def case_prod_unfold)
  have init: "set (map fst (native_counts init_prepare_state)) = set OUTPUT_TYPES"
    "distinct (map fst (native_counts init_prepare_state))" "ctotal (native_counts init_prepare_state) = 0"
    by (auto simp: init_prepare_state_def VALID_TYPES_def OUTPUT_TYPES_def ctotal_def comp_def)
  have ty: "text_of ''nativeEventType'' e \<in> set OUTPUT_TYPES" if "e \<in> set (out_events s)" for e
  proof -
    have "e \<in> fst ` set ?acc" using that by (simp add: s_def run_state_simps)
    then obtain q where q: "q \<in> set ?acc" "e = fst q" by blast
    obtain n row where "normalize_row row n t0 salt = Inr (fst q, snd q)" using accepted_row [OF q(1)] by blast
    then obtain t nt where "check_type row = Inr (t, nt)" "jget e ''nativeEventType'' = JStr t"
      unfolding q(2) by (rule prepared_event)
    then show ?thesis by (auto simp: check_type_Inr VALID_TYPES_def OUTPUT_TYPES_def)
  qed
  have dist: "distinct (map fst (native_counts s))" unfolding natives by (rule distinct_fold_cinc [OF init(2)])
  have keys: "set (map fst (native_counts s)) = set OUTPUT_TYPES"
    unfolding natives keys_fold_cinc init(1) using ty by auto
  have counts: "cget (native_counts s) t = count_list (map (text_of ''eventType'') (out_events s)) t" for t
    unfolding natives ctr.get_fold using types by (simp cong: map_cong)
  have sum: "ctotal (native_counts s) = length (out_events s)"
    unfolding natives ctr.total_fold init(3) by simp
  have len: "length (out_labels s) = length (out_events s)" "accepted_rows s = length (out_events s)"
    "rejected_rows s = length (out_rejected s)" "total_rows s = length (out_events s) + length (out_rejected s)"
    "0 < length (out_events s) + length (out_rejected s)"
    using assms(2,3) by (auto simp: s_def run_state_simps all_decided_def)
  have frauds: "fraud_rows s = length (filter (\<lambda>l. the_bool (jget l ''isFraud'')) (out_labels s))"
    "flagged_fraud_rows s = length (filter (\<lambda>l. the_bool (jget l ''sourceFlaggedFraud'')) (out_labels s))"
    by (simp_all add: s_def run_state_simps filter_map comp_def case_prod_unfold)
  have fields: "jget rep ''totalRows'' = JInt (int (total_rows s))" "jget rep ''acceptedRows'' = JInt (int (accepted_rows s))"
    "jget rep ''rejectedRows'' = JInt (int (rejected_rows s))" "jget rep ''fraudRows'' = JInt (int (fraud_rows s))"
    "jget rep ''flaggedFraudRows'' = JInt (int (flagged_fraud_rows s))" "jget rep ''eventTypeCounts'' = counter_json (native_counts s)"
    unfolding rep prepare_report_def by (simp_all only: jget_literal)
  define cs where "cs = map (\<lambda>(k, n). (k, JInt (int n))) (native_counts s)"
  have "map fst cs = map fst (native_counts s)" by (simp add: cs_def comp_def case_prod_unfold)
  then have "set (map fst cs) = set OUTPUT_TYPES" using keys by metis
  moreover have "\<forall>(t, v) \<in> set cs. is_int v \<and> the_int v = int (count_list (map (text_of ''eventType'') (out_events s)) t)"
    using counter_json_counts [OF dist] unfolding cs_def [symmetric] counts by blast
  moreover have "sum_list (map (\<lambda>(t, v). the_int v) cs) = int (length (out_events s))"
    using counter_json_total [of "native_counts s"] unfolding cs_def [symmetric] sum .
  ultimately have tc: "\<exists>cs. counter_json (native_counts s) = JObj cs \<and> set (map fst cs) = set OUTPUT_TYPES
      \<and> (\<forall>(t, v) \<in> set cs. is_int v \<and> the_int v = int (count_list (map (text_of ''eventType'') (out_events s)) t))
      \<and> sum_list (map (\<lambda>(t, v). the_int v) cs) = int (length (out_events s))"
    unfolding counter_json_def cs_def [symmetric] by blast
  show ?thesis
    unfolding report_agrees_def fields int_field_def using len frauds tc by simp
qed

section \<open>The report\<close>

lemma counter_json_clean: "clean bad (counter_json c) \<longleftrightarrow> (\<forall>k \<in> set (map fst c). \<not> bad k)"
  by (auto simp: counter_json_def)

lemma keys_sorted_items: "set (map fst (sorted_items c)) = set (map fst c)"
  by (simp add: sorted_items_def)

lemma policy_table_clean: "clean (output_bad False True) mapping_policy_table"
  by code_simp

definition report_words :: "string list" where
  "report_words = [''PAYMENT'', ''TRANSFER'', ''CASH_OUT'', ''CASH_IN'', ''DEBIT'', ''WITHDRAWAL'', ''DEPOSIT'',
     ''production-supported'', ''replay-supported'', ''v2-phase-8'', ''HMAC-SHA256'']"

lemma report_words_clean:
  assumes "k \<in> set report_words"
  shows "\<not> output_bad False True k" "\<not> raw_identifier_search k"
proof -
  have "list_all (\<lambda>k. \<not> output_bad False True k) report_words" "list_all (\<lambda>k. \<not> raw_identifier_search k) report_words"
    by code_simp+
  with assms show "\<not> output_bad False True k" "\<not> raw_identifier_search k" by (auto simp: list_all_iff)
qed

definition report_keys :: "string list" where
  "report_keys = [''scriptVersion'', ''datasetSlug'', ''rawFileName'', ''inputPath'', ''inputSha256'', ''baseTime'', ''startedAt'',
     ''finishedAt'', ''totalRows'', ''acceptedRows'', ''rejectedRows'', ''fraudRows'', ''flaggedFraudRows'', ''eventTypeCounts'',
     ''mappingPolicyVersion'', ''typeMappingPolicyVersion'', ''typeMappingPolicy'', ''nativeTypeDistribution'',
     ''normalizedTypeDistribution'', ''typeSupportLevelDistribution'', ''excludedByType'', ''hashAlgorithm'',
     ''hashIdPrefixLength'', ''hashSaltSource'', ''outputFiles'', ''events'', ''labels'', ''rejected'']"

lemma report_keys_clean: "k \<in> set report_keys \<Longrightarrow> \<not> output_bad False True k"
proof -
  have "list_all (\<lambda>k. \<not> output_bad False True k) report_keys" by code_simp
  then show "k \<in> set report_keys \<Longrightarrow> \<not> output_bad False True k" by (auto simp: list_all_iff)
qed

section \<open>Reasons of a refusal\<close>

definition refusal_known :: "csv_row \<Rightarrow> exn \<Rightarrow> bool" where
  "refusal_known row x \<longleftrightarrow> (\<forall>r m. x = RowRejected r m \<longrightarrow>
     r \<in> set VALID_REJECT_REASONS \<and> no_CM m
     \<or> r = ''UNSUPPORTED_NATIVE_TYPE:DEBIT'' \<and> row_get row ''type'' = Some (Some ''DEBIT''))"

lemma refusal_known_simps [simp]:
  "refusal_known row (RowRejected r m) \<longleftrightarrow> r \<in> set VALID_REJECT_REASONS \<and> no_CM m
     \<or> r = ''UNSUPPORTED_NATIVE_TYPE:DEBIT'' \<and> row_get row ''type'' = Some (Some ''DEBIT'')"
  "refusal_known row TypeError" "refusal_known row AttributeError" "refusal_known row OverflowError" "refusal_known row (KeyError k)"
  by (auto simp: refusal_known_def)

lemma reasons_valid: "{''INVALID_STEP'', ''INVALID_TYPE'', ''INVALID_AMOUNT'', ''INVALID_BALANCE'', ''INVALID_LABEL'', ''UNSUPPORTED_ROW''}
    \<subseteq> set VALID_REJECT_REASONS"
  by (simp add: VALID_REJECT_REASONS_def)

lemma refusals_known:
  "parse_step row = Inl x \<Longrightarrow> refusal_known row x"
  "check_type row = Inl x \<Longrightarrow> refusal_known row x"
  "no_CM f \<Longrightarrow> r \<in> set VALID_REJECT_REASONS \<Longrightarrow> decimal_from row f r = Inl x \<Longrightarrow> refusal_known row x"
  "check_names row = Inl x \<Longrightarrow> refusal_known row x"
  "no_CM f \<Longrightarrow> parse_label row f = Inl x \<Longrightarrow> refusal_known row x"
  "add_hours t0 h = Inl x \<Longrightarrow> refusal_known row x"
proof -
  show "parse_step row = Inl x \<Longrightarrow> refusal_known row x"
    using reasons_valid by (auto simp: parse_step_def split: option.splits if_splits)
  show "no_CM f \<Longrightarrow> r \<in> set VALID_REJECT_REASONS \<Longrightarrow> decimal_from row f r = Inl x \<Longrightarrow> refusal_known row x"
    by (auto simp: decimal_from_def split: option.splits if_splits)
  show "check_names row = Inl x \<Longrightarrow> refusal_known row x"
    using reasons_valid by (auto simp: check_names_def Let_def split: option.splits if_splits)
  show "no_CM f \<Longrightarrow> parse_label row f = Inl x \<Longrightarrow> refusal_known row x"
    using reasons_valid by (auto simp: parse_label_def split: if_splits)
  show "add_hours t0 h = Inl x \<Longrightarrow> refusal_known row x"
    by (auto simp: add_hours_def Let_def split: if_splits)
  show "check_type row = Inl x \<Longrightarrow> refusal_known row x"
  proof (cases "\<exists>t. row_get row ''type'' = Some (Some t) \<and> t \<in> set VALID_TYPES")
    case True
    then obtain t where t: "row_get row ''type'' = Some (Some t)" "t \<in> set VALID_TYPES" by blast
    assume x: "check_type row = Inl x"
    from t(2) consider "t \<in> {''PAYMENT'', ''TRANSFER'', ''CASH_OUT'', ''CASH_IN''}" | "t = ''DEBIT''"
      by (auto simp: VALID_TYPES_def)
    then show ?thesis
    proof cases
      case 1
      then obtain nt where "normalized_type (mapping_for t) = Some nt" by (auto simp: normalized_type_mapping_for)
      with t have "check_type row = Inr (t, nt)" by (simp add: check_type_Inr)
      with x show ?thesis by simp
    next
      case 2
      have debit: "normalized_type (mapping_for ''DEBIT'') = None"
        "excluded_reason (mapping_for ''DEBIT'') = Some ''UNSUPPORTED_NATIVE_TYPE:DEBIT''" by code_simp+
      have "check_type row = Inl (RowRejected ''UNSUPPORTED_NATIVE_TYPE:DEBIT'' ''native type is not supported by replay mapping policy'')"
        using t(2) unfolding check_type_def t(1) option.case 2 debit by (simp only: option.sel option.distinct not_True_eq_False if_True if_False not_False_eq_True simp_thms) simp
      with x have "x = RowRejected ''UNSUPPORTED_NATIVE_TYPE:DEBIT'' ''native type is not supported by replay mapping policy''"
        by (simp only: sum.inject)
      moreover have "row_get row ''type'' = Some (Some ''DEBIT'')" using t(1) unfolding 2 .
      ultimately show ?thesis by (simp only: refusal_known_simps simp_thms)
    qed
  next
    case False
    assume "check_type row = Inl x"
    moreover from False have "(case (case row_get row ''type'' of None \<Rightarrow> Some [] | Some v \<Rightarrow> v) of None \<Rightarrow> True | Some t \<Rightarrow> t \<notin> set VALID_TYPES)"
      by (auto simp: VALID_TYPES_def split: option.splits)
    ultimately have "x = RowRejected ''INVALID_TYPE'' ''type is not supported''"
      unfolding check_type_def by (auto split: option.splits simp del: append.simps)
    then show ?thesis using reasons_valid by simp
  qed
qed

lemma balances_known:
  "mapM (\<lambda>k. decimal_from row k r) ks = Inl x \<Longrightarrow> list_all no_CM ks \<Longrightarrow> r \<in> set VALID_REJECT_REASONS \<Longrightarrow> refusal_known row x"
  by (induction ks) (auto simp: bind_res_Inl intro: refusals_known)

lemma normalize_row_known: "normalize_row row n t0 salt = Inl x \<Longrightarrow> refusal_known row x"
proof -
  have if_Inl: "(if b then Inl y else m) = Inl x \<longleftrightarrow> b \<and> x = y \<or> \<not> b \<and> m = Inl x" for b y and m :: "(jobj \<times> jobj) res"
    by auto
  have valid: "''INVALID_AMOUNT'' \<in> set VALID_REJECT_REASONS" "''INVALID_BALANCE'' \<in> set VALID_REJECT_REASONS"
    using reasons_valid by auto
  have bal: "mapM (\<lambda>k. decimal_from row k ''INVALID_BALANCE'')
       [''oldbalanceOrg'', ''newbalanceOrig'', ''oldbalanceDest'', ''newbalanceDest''] = Inl x \<Longrightarrow> refusal_known row x"
    by (erule balances_known) (simp_all add: valid)
  have am: "decimal_from row ''amount'' ''INVALID_AMOUNT'' = Inl x \<Longrightarrow> refusal_known row x"
    "x = RowRejected ''INVALID_AMOUNT'' ''amount must be >= 0'' \<Longrightarrow> refusal_known row x"
    by (erule refusals_known(3) [OF _ valid(1), rotated], simp) (simp add: valid)
  have lb: "parse_label row ''isFraud'' = Inl x \<Longrightarrow> refusal_known row x" "parse_label row ''isFlaggedFraud'' = Inl x \<Longrightarrow> refusal_known row x"
    by (erule refusals_known(5) [rotated], simp)+
  assume "normalize_row row n t0 salt = Inl x"
  then show ?thesis
    unfolding normalize_row_def Let_def split_beta bind_res_Inl if_Inl sum.inject sum.distinct
    by (elim disjE exE conjE) (erule refusals_known(1,2,4,6) | erule bal | erule am | erule lb | erule FalseE | simp only: sum.distinct)+
qed

text \<open>The keys of the counters of a run are types and support levels.\<close>

lemma refused_rows:
  assumes "(n, r, m, row) \<in> set (refused_of t0 salt nrows)"
  shows "r \<in> set VALID_REJECT_REASONS \<and> no_CM m
    \<or> r = ''UNSUPPORTED_NATIVE_TYPE:DEBIT'' \<and> row_get row ''type'' = Some (Some ''DEBIT'')"
proof -
  have "normalize_row row n t0 salt = Inl (RowRejected r m)" using assms by (auto simp: refused_of_def)
  from normalize_row_known [OF this] show ?thesis by simp
qed

lemma refused_type_known: "(n, r, m, row) \<in> set (refused_of t0 salt nrows) \<Longrightarrow> t \<in> set (refused_type r) \<Longrightarrow> t = ''DEBIT''"
  using refused_rows [of n r m row t0 salt nrows] by (auto simp: refused_type_iff VALID_REJECT_REASONS_def)

lemma counter_keys_known:
  fixes nrows :: "(nat \<times> csv_row) list" and t0 :: int and salt :: string
  defines "s \<equiv> run_state t0 salt nrows"
  shows "set (map fst (native_counts s)) \<union> set (map fst (normalized_counts s)) \<union> set (map fst (support_counts s))
    \<union> set (map fst (excluded_counts s)) \<subseteq> set report_words"
proof -
  have init: "set (map fst (native_counts init_prepare_state)) \<subseteq> set report_words"
    by (simp add: init_prepare_state_def VALID_TYPES_def report_words_def)
  have ty: "text_of ''nativeEventType'' e \<in> set report_words \<and> text_of ''normalizedEventType'' e \<in> set report_words
      \<and> text_of ''typeSupportLevel'' e \<in> set report_words" if el: "(e, l) \<in> set (accepted_of t0 salt nrows)" for e l
  proof -
    obtain n row where "normalize_row row n t0 salt = Inr (e, l)" using accepted_row [OF el] by auto
    then obtain t nt where r: "check_type row = Inr (t, nt)" "jget e ''nativeEventType'' = JStr t"
      "jget e ''normalizedEventType'' = JStr nt" "jget e ''typeSupportLevel'' = JStr (support_level (mapping_for t))"
      by (rule prepared_event)
    from normalized_types [OF r(1)] show ?thesis
      unfolding r(2-4) support_level_mapping_for by (auto simp: report_words_def)
  qed
  have acc: "set (map (\<lambda>(e, l). text_of k e) (accepted_of t0 salt nrows)) \<subseteq> set report_words"
    if "k \<in> {''nativeEventType'', ''normalizedEventType'', ''typeSupportLevel''}" for k
    using ty that by auto
  have "set (concat (map (\<lambda>(n, r, m, row). refused_type r) (refused_of t0 salt nrows))) \<subseteq> {''DEBIT''}"
    using refused_type_known by auto
  moreover have "''DEBIT'' \<in> set report_words" by (simp add: report_words_def)
  ultimately have ref: "set (concat (map (\<lambda>(n, r, m, row). refused_type r) (refused_of t0 salt nrows))) \<subseteq> set report_words"
    by (meson empty_subsetI insert_subset subset_trans)
  have empty: "set (map fst []) = {}" by simp
  show ?thesis
    unfolding s_def run_state_simps keys_fold_cinc empty Un_empty_right
    using init acc [of "''nativeEventType''"] acc [of "''normalizedEventType''"] acc [of "''typeSupportLevel''"] ref
    by (intro Un_least) (assumption | simp only: insert_iff simp_thms)+
qed

lemma clean_members:
  "clean bad (JObj d) \<longleftrightarrow> (\<forall>k \<in> set (map fst d). \<not> bad k) \<and> (\<forall>v \<in> set (map snd d). clean bad v)"
  by auto

text \<open>The report passes the validator's checks of single fields exactly when it is about the expected dataset and no
  path or salt source it names looks like a raw identifier.\<close>

lemma prepared_report_ok:
  assumes "rep = prepare_report a (hexdigest (sha256 bs)) t0 source paths started finished (run_state t1 salt nrows)"
    and source: "source \<noteq> []"
  shows "report_ok strict rep \<longleftrightarrow> pa_dataset_slug a = EXPECTED_DATASET \<and> pa_input_name a = EXPECTED_RAW_FILE
     \<and> (\<forall>w \<in> {pa_input a, source, of_events paths, of_labels paths, of_rejected paths}. \<not> raw_identifier_search w)
     \<and> (strict \<longrightarrow> source \<noteq> ''default-local'')"
proof -
  let ?s = "run_state t1 salt nrows"
  have words: "\<not> raw_identifier_search EXPECTED_DATASET" "\<not> raw_identifier_search EXPECTED_RAW_FILE"
    "\<not> raw_identifier_search MAPPING_POLICY_VERSION" by code_simp+
  have counts: "clean (output_bad False True) (counter_json (native_counts ?s))"
    "clean (output_bad False True) (counter_json (sorted_items (normalized_counts ?s)))"
    "clean (output_bad False True) (counter_json (sorted_items (support_counts ?s)))"
    "clean (output_bad False True) (counter_json (sorted_items (excluded_counts ?s)))"
    unfolding counter_json_clean keys_sorted_items using counter_keys_known [of t1 salt nrows] report_words_clean(1) by blast+
  have hex: "no_CM (hexdigest (sha256 bs))" "sha256_match (hexdigest (sha256 bs))"
    using hexdigest_hex [of "sha256 bs"]
    by (auto simp: no_CM_def list_all_iff sha256_match_def before_dollar_def hexdigest_length sha256_length is_hex_def dest: hex_no_CM)
  have keys: "map fst rep = take 25 report_keys"
    unfolding assms(1) prepare_report_def by (simp add: report_keys_def)
  have "set (take 25 report_keys) \<subseteq> set report_keys" by (rule set_take_subset)
  then have "\<forall>k \<in> set (map fst rep). \<not> output_bad False True k" unfolding keys using report_keys_clean by blast
  moreover have out: "clean (output_bad False True) (JObj [(''events'', JStr x), (''labels'', JStr y), (''rejected'', JStr z)])
      \<longleftrightarrow> (\<forall>w \<in> {x, y, z}. \<not> raw_identifier_search w)" for x y z
    by (simp add: report_keys_clean report_keys_def)
  have values_clean: "(\<forall>v \<in> set (map snd rep). clean (output_bad False True) v) \<longleftrightarrow> \<not> raw_identifier_search (pa_dataset_slug a)
     \<and> \<not> raw_identifier_search (pa_input_name a)
     \<and> (\<forall>w \<in> {pa_input a, source, of_events paths, of_labels paths, of_rejected paths}. \<not> raw_identifier_search w)"
    unfolding assms(1) prepare_report_def list.map snd_conv list.set ball_simps out
    using counts policy_table_clean words(3) report_words_clean(2) [of "''v2-phase-8''"] report_words_clean(2) [of "''HMAC-SHA256''"]
      no_CM_clean [OF no_CM_iso] no_CM_clean [OF hex(1)]
    by (simp add: report_words_def del: clean_simps(1))
  ultimately have clean: "clean (output_bad False True) (JObj rep) \<longleftrightarrow> \<not> raw_identifier_search (pa_dataset_slug a)
     \<and> \<not> raw_identifier_search (pa_input_name a)
     \<and> (\<forall>w \<in> {pa_input a, source, of_events paths, of_labels paths, of_rejected paths}. \<not> raw_identifier_search w)"
    unfolding clean_members by blast
  have fields: "has_fields REPORT_REQUIRED_FIELDS rep" "jget rep ''datasetSlug'' = JStr (pa_dataset_slug a)"
    "jget rep ''rawFileName'' = JStr (pa_input_name a)" "jget rep ''inputSha256'' = JStr (hexdigest (sha256 bs))"
    "jget rep ''hashAlgorithm'' = JStr EXPECTED_HASH_ALGORITHM" "jget rep ''hashIdPrefixLength'' = JInt EXPECTED_HASH_PREFIX_LENGTH"
    "jget rep ''hashSaltSource'' = JStr source"
    unfolding assms(1) prepare_report_def
    by (simp_all add: jget_or_Cons has_fields_def has_key_def REPORT_REQUIRED_FIELDS_def EXPECTED_HASH_ALGORITHM_def
        EXPECTED_HASH_PREFIX_LENGTH_def HASH_PREFIX_LENGTH_def)
  have sixteen: "eq_int (JInt EXPECTED_HASH_PREFIX_LENGTH) EXPECTED_HASH_PREFIX_LENGTH" by code_simp
  show ?thesis
    unfolding report_ok_def fields clean using hex(2) source words sixteen
    by (auto simp: fields(1) nonempty_str_def)
qed

section \<open>The checks of a row read back\<close>

text \<open>A value is read back with the keys of its objects sorted. No check of the validator sees the difference.\<close>

lemma sorted_fields:
  "distinct (map fst d) \<Longrightarrow> has_fields ks (sorted_row d) = has_fields ks d"
  by (simp add: has_fields_def sorted_row_get(2))

lemma sorted_value_checks [simp]:
  "nonempty_str (sorted_json v) = nonempty_str v" "natural_field (sorted_json v) = natural_field v"
  "decimal_field (sorted_json v) = decimal_field v" "utc_time f (sorted_json v) = utc_time f v" "eq_int (sorted_json v) i = eq_int v i"
  by (simp_all add: nonempty_str_the natural_field_def decimal_field_def [abs_def] utc_time_def eq_int_def)

lemma event_ok_sorted:
  assumes "plain_json (JObj e)"
  shows "event_ok f (sorted_row e) \<longleftrightarrow> event_ok f e"
proof -
  note d = plain_distinct [OF assms]
  let ?v = "jget e ''balanceFeatures''"
  have nested: "has_fields ks (the_obj (sorted_json ?v)) = has_fields ks (the_obj ?v)"
    "jget (the_obj (sorted_json ?v)) k = sorted_json (jget (the_obj ?v) k)" if v: "is_obj ?v" for ks k
  proof -
    obtain b where b: "?v = JObj b" using v by (cases ?v) auto
    then have "plain_json (JObj b)" using jget_plain [OF assms, of "''balanceFeatures''"] by metis
    from plain_distinct [OF this] show "has_fields ks (the_obj (sorted_json ?v)) = has_fields ks (the_obj ?v)"
      "jget (the_obj (sorted_json ?v)) k = sorted_json (jget (the_obj ?v) k)"
      unfolding b sorted_row_def [symmetric] the_obj.simps(1) by (simp_all only: sorted_fields sorted_row_get)
  qed
  show ?thesis
    unfolding event_ok_def Let_def sorted_fields [OF d] sorted_row_clean sorted_row_get [OF d] sorted_value_checks sorted_json_views
    using nested by (cases "is_obj ?v") (simp_all del: clean_simps sorted_json.simps)
qed

lemma label_ok_sorted: "plain_json (JObj l) \<Longrightarrow> label_ok (sorted_row l) \<longleftrightarrow> label_ok l"
  unfolding label_ok_def by (simp add: sorted_fields sorted_row_clean sorted_row_get plain_distinct del: clean_simps plain_json.simps)

lemma rejected_ok_sorted: "plain_json (JObj r) \<Longrightarrow> rejected_ok (sorted_row r) \<longleftrightarrow> rejected_ok r"
  unfolding rejected_ok_def by (simp add: sorted_fields sorted_row_clean sorted_row_get plain_distinct del: clean_simps plain_json.simps)

lemma report_ok_sorted: "plain_json (JObj r) \<Longrightarrow> report_ok strict (sorted_row r) \<longleftrightarrow> report_ok strict r"
  unfolding report_ok_def by (simp add: sorted_fields sorted_row_clean sorted_row_get plain_distinct del: clean_simps plain_json.simps)

lemma text_of_sorted: "plain_json (JObj d) \<Longrightarrow> text_of k (sorted_row d) = text_of k d"
  by (simp add: sorted_row_get plain_distinct del: plain_json.simps)

lemma texts_of_sorted: "\<forall>d \<in> set ds. plain_json (JObj d) \<Longrightarrow> map (text_of k) (map sorted_row ds) = map (text_of k) ds"
  by (simp add: text_of_sorted del: plain_json.simps)

lemma counts_sorted: "\<forall>d \<in> set ds. plain_json (JObj d) \<Longrightarrow>
    length (filter (\<lambda>l. the_bool (jget l k)) (map sorted_row ds)) = length (filter (\<lambda>l. the_bool (jget l k)) ds)"
  by (induction ds) (simp_all add: sorted_row_get plain_distinct del: plain_json.simps)

lemma files_ok_sorted:
  assumes "\<forall>d \<in> set evs \<union> set lbs \<union> set rjs. plain_json (JObj d)"
  shows "files_ok f (map sorted_row evs) (map sorted_row lbs) (map sorted_row rjs) \<longleftrightarrow> files_ok f evs lbs rjs"
proof -
  have "map (text_of k) (map sorted_row evs) = map (text_of k) evs" "map (text_of k) (map sorted_row lbs) = map (text_of k) lbs" for k
    by (rule texts_of_sorted; use assms in blast)+
  moreover have "(\<forall>e \<in> set (map sorted_row evs). event_ok f e) \<longleftrightarrow> (\<forall>e \<in> set evs. event_ok f e)"
    "(\<forall>l \<in> set (map sorted_row lbs). label_ok l) \<longleftrightarrow> (\<forall>l \<in> set lbs. label_ok l)"
    "(\<forall>r \<in> set (map sorted_row rjs). rejected_ok r) \<longleftrightarrow> (\<forall>r \<in> set rjs. rejected_ok r)"
    using assms event_ok_sorted label_ok_sorted rejected_ok_sorted by (auto simp del: plain_json.simps)
  ultimately show ?thesis unfolding files_ok_def events_ok_def labels_ok_def by (simp only:)
qed

lemma type_counts_sorted:
  "(\<exists>cs. sorted_json v = JObj cs \<and> P (set (map fst cs)) \<and> (\<forall>(t, n) \<in> set cs. Q t (is_int n) (the_int n))
      \<and> sum_list (map (\<lambda>(t, n). the_int n) cs) = m)
   \<longleftrightarrow> (\<exists>cs. v = JObj cs \<and> P (set (map fst cs)) \<and> (\<forall>(t, n) \<in> set cs. Q t (is_int n) (the_int n))
      \<and> sum_list (map (\<lambda>(t, n). the_int n) cs) = m)"
proof (cases v)
  case (JObj d)
  let ?ds = "map (\<lambda>kv. (fst kv, sorted_json (snd kv))) d"
  have "sum_list (map f (sort_key fst xs)) = sum_list (map f xs)" for f :: "string \<times> json \<Rightarrow> int" and xs
    by (metis mset_map mset_sort sum_mset_sum_list)
  note this [of "\<lambda>(t, n). the_int n" ?ds]
  moreover have "map (\<lambda>(t, n). the_int n) ?ds = map (\<lambda>(t, n). the_int n) d" by (simp add: case_prod_unfold)
  moreover have "set (map fst (sort_key fst ?ds)) = set (map fst d)" by (simp add: image_image)
  moreover have "(\<forall>(t, n) \<in> set (sort_key fst ?ds). Q t (is_int n) (the_int n)) \<longleftrightarrow> (\<forall>(t, n) \<in> set d. Q t (is_int n) (the_int n))"
    by auto
  ultimately show ?thesis unfolding JObj sorted_json.simps json.inject by (simp only: ex_simps simp_thms) 
qed simp_all

lemma report_agrees_sorted:
  assumes "\<forall>d \<in> set evs \<union> set lbs \<union> set rjs. plain_json (JObj d)" "plain_json (JObj r)"
  shows "report_agrees (map sorted_row evs) (map sorted_row lbs) (map sorted_row rjs) (sorted_row r) \<longleftrightarrow> report_agrees evs lbs rjs r"
proof -
  have "map (text_of ''eventType'') (map sorted_row evs) = map (text_of ''eventType'') evs"
    "length (filter (\<lambda>l. the_bool (jget l k)) (map sorted_row lbs)) = length (filter (\<lambda>l. the_bool (jget l k)) lbs)" for k
    by (rule texts_of_sorted counts_sorted; use assms(1) in blast)+
  then show ?thesis
    unfolding report_agrees_def int_field_def length_map sorted_row_get [OF plain_distinct [OF assms(2)]] sorted_json_views
    using type_counts_sorted [of "jget r ''eventTypeCounts''" "\<lambda>S. S = set OUTPUT_TYPES"
        "\<lambda>t i n. i \<and> n = int (count_list (map (text_of ''eventType'') evs) t)" "int (length evs)"]
    by (simp only:)
qed

section \<open>The composition\<close>

lemma file_holds_unique: "file_holds env name file xs \<Longrightarrow> file_holds env name file ys \<Longrightarrow> xs = ys"
proof -
  have "inj_on (map Inr) UNIV" by (simp add: inj_on_def)
  then show "file_holds env name file xs \<Longrightarrow> file_holds env name file ys \<Longrightarrow> xs = ys"
    by (auto simp: file_holds_def dest: injD)
qed

lemma outputs_valid_files:
  assumes "file_holds env (va_events_name a) (vo_events env) evs" "file_holds env (va_labels_name a) (vo_labels env) lbs"
    "file_holds env (va_rejected_name a) (vo_rejected env) rjs"
  shows "(\<exists>v. validate env a = Inr v) \<longleftrightarrow> (\<exists>doc report m. vo_report env = Some doc \<and> vo_loads env doc = Some (JObj report)
     \<and> files_ok (vo_fromiso env) evs lbs rjs
     \<and> report_ok (va_require_non_default_salt a) report \<and> report_agrees evs lbs rjs report
     \<and> parse_max_ratio (va_max_reject_ratio a) = Inr m
     \<and> \<not> dec_greater (decimal_div (length rjs) (length evs + length rjs)) m)"
proof -
  have same: "file_holds env (va_events_name a) (vo_events env) es \<longleftrightarrow> es = evs"
    "file_holds env (va_labels_name a) (vo_labels env) ls \<longleftrightarrow> ls = lbs"
    "file_holds env (va_rejected_name a) (vo_rejected env) rs \<longleftrightarrow> rs = rjs" for es ls rs
    using assms file_holds_unique by blast+
  show ?thesis unfolding validate_iff outputs_valid_def same by blast
qed

text \<open>The validator is run on the four files that the preparation wrote.\<close>

definition prepared_files :: "prepare_state \<Rightarrow> jobj \<Rightarrow> validate_env \<Rightarrow> bool" where
  "prepared_files s rep env \<longleftrightarrow>
     vo_events env = Some (file_lines (jsonl_text (out_events s)))
     \<and> vo_labels env = Some (file_lines (jsonl_text (out_labels s)))
     \<and> vo_rejected env = Some (file_lines (jsonl_text (out_rejected s)))
     \<and> vo_report env = Some (dumps_indent 0 (JObj rep) @ [char_of (10 :: nat)])
     \<and> vo_loads env = json_loads"

lemma file_holdsI:
  "file = Some ls \<Longrightarrow> output_items (vo_loads env) name ls = map Inr nrows \<Longrightarrow> file_holds env name file (map snd nrows)"
  by (auto simp: file_holds_def)

lemma jsonl_file_holds:
  assumes "file = Some (file_lines (jsonl_text rows))" "vo_loads env = json_loads" "\<forall>row \<in> set rows. plain_json (JObj row)"
  shows "file_holds env name file (map sorted_row rows)"
  using file_holdsI [OF assms(1), of env name "enumerate 1 (map sorted_row rows)"] jsonl_file_read_back [OF assms(3)]
  by (simp add: assms(2) output_items_def)

lemma prepared_files_read:
  assumes "process penv pa = Inr (s, rep)" "prepared_files s rep env"
  shows "file_holds env (va_events_name a) (vo_events env) (map sorted_row (out_events s))"
    "file_holds env (va_labels_name a) (vo_labels env) (map sorted_row (out_labels s))"
    "file_holds env (va_rejected_name a) (vo_rejected env) (map sorted_row (out_rejected s))"
    "\<exists>doc. vo_report env = Some doc \<and> vo_loads env doc = Some (JObj (sorted_row rep))"
proof -
  have plain: "\<forall>row \<in> set (out_events s). plain_json (JObj row)" "\<forall>row \<in> set (out_labels s). plain_json (JObj row)"
    "\<forall>row \<in> set (out_rejected s). plain_json (JObj row)"
    by (rule outputs_plain [OF assms(1)]; simp)+
  show "file_holds env (va_events_name a) (vo_events env) (map sorted_row (out_events s))"
    "file_holds env (va_labels_name a) (vo_labels env) (map sorted_row (out_labels s))"
    "file_holds env (va_rejected_name a) (vo_rejected env) (map sorted_row (out_rejected s))"
    by (rule jsonl_file_holds; use assms(2) plain in \<open>simp add: prepared_files_def del: plain_json.simps dumps_indent.simps\<close>)+
  have "sorted_json (JObj rep) = JObj (sorted_row rep)" by (simp add: sorted_row_def)
  then show "\<exists>doc. vo_report env = Some doc \<and> vo_loads env doc = Some (JObj (sorted_row rep))"
    using loads_report [OF report_plain [OF assms(1)]] assms(2) unfolding prepared_files_def by (metis (no_types))
qed

lemma prepared_files_ok:
  fixes nrows :: "(nat \<times> csv_row) list" and t0 :: int and salt :: string
  defines "s \<equiv> run_state t0 salt nrows"
  assumes "distinct (map fst nrows)" "reads_utc fromiso"
  shows "files_ok fromiso (out_events s) (out_labels s) (out_rejected s) \<longleftrightarrow>
    (\<forall>e \<in> set (out_events s). jget e ''eventType'' \<in> {JStr ''PAYMENT'', JStr ''TRANSFER''}) \<and> (\<forall>r \<in> set (out_rejected s). rejected_ok r)"
proof -
  let ?acc = "accepted_of t0 salt nrows"
  have out: "out_events s = map fst ?acc" "out_labels s = map snd ?acc" by (simp_all add: s_def run_state_simps)
  note ids = prepared_ids_distinct [OF assms(2) refl, of t0 salt]
  have "event_ok fromiso (fst q) \<longleftrightarrow> jget (fst q) ''eventType'' \<in> {JStr ''PAYMENT'', JStr ''TRANSFER''}" "label_ok (snd q)"
    if "q \<in> set ?acc" for q
    using accepted_row [OF that] prepared_event_ok prepared_label_ok(1) assms(3) by blast+
  then have rows: "(\<forall>e \<in> set (map fst ?acc). event_ok fromiso e)
      \<longleftrightarrow> (\<forall>e \<in> set (map fst ?acc). jget e ''eventType'' \<in> {JStr ''PAYMENT'', JStr ''TRANSFER''})"
    "\<forall>l \<in> set (map snd ?acc). label_ok l" by auto
  show ?thesis
    unfolding files_ok_def events_ok_def labels_ok_def out using ids rows by metis
qed

lemma prepared_same_type:
  fixes nrows :: "(nat \<times> csv_row) list" and t0 :: int and salt :: string
  defines "s \<equiv> run_state t0 salt nrows"
  assumes "e \<in> set (out_events s)"
  obtains t where "jget e ''nativeEventType'' = JStr t" "normalized_type (mapping_for t) \<noteq> None"
    "jget e ''eventType'' = JStr (the (normalized_type (mapping_for t)))"
proof -
  have "e \<in> fst ` set (accepted_of t0 salt nrows)" using assms(2) by (simp add: s_def run_state_simps)
  then obtain q n row where "e = fst q" "normalize_row row n t0 salt = Inr (fst q, snd q)" using accepted_row by blast
  then obtain t nt where "check_type row = Inr (t, nt)" "jget e ''nativeEventType'' = JStr t" "jget e ''eventType'' = JStr nt"
    by (metis prepared_event)
  then show thesis using that [of t] by (simp add: check_type_Inr)
qed

lemma same_type_supported:
  "jget e ''nativeEventType'' = JStr t \<Longrightarrow> jget e ''eventType'' = JStr (the (normalized_type (mapping_for t))) \<Longrightarrow>
   normalized_type (mapping_for t) \<noteq> None \<Longrightarrow>
   jget e ''eventType'' \<in> {JStr ''PAYMENT'', JStr ''TRANSFER''} \<Longrightarrow> jget e ''eventType'' = jget e ''nativeEventType''"
  by (auto simp: normalized_type_mapping_for split: if_splits)

text \<open>What the validator refuses of a reject record: the reason for an unsupported type, which its list of reasons
  lacks, and a type column that holds a customer name, which the preparation copies into the record as it is.\<close>

definition reject_acceptable :: "jobj \<Rightarrow> bool" where
  "reject_acceptable r \<longleftrightarrow> jget r ''reason'' \<noteq> JStr ''UNSUPPORTED_NATIVE_TYPE:DEBIT''
     \<and> (is_str (jget r ''rawType'') \<longrightarrow> \<not> raw_identifier_search (the_str (jget r ''rawType'')))"

lemma prepared_reject_ok:
  assumes "r \<in> set (out_rejected (run_state t0 salt nrows))"
  shows "rejected_ok r \<longleftrightarrow> reject_acceptable r"
proof -
  obtain n rs m row where r: "(n, rs, m, row) \<in> set (refused_of t0 salt nrows)" "r = rejected_record n rs m row"
    using assms by (auto simp: run_state_simps)
  let ?v = "case row_get row ''type'' of Some (Some t) \<Rightarrow> JStr t | _ \<Rightarrow> JNull"
  have fields: "has_fields REJECTED_REQUIRED_FIELDS r" "jget r ''reason'' = JStr rs" "jget r ''rawType'' = ?v"
    unfolding r(2) rejected_record_def
    by (simp_all add: jget_or_Cons has_fields_def has_key_def REJECTED_REQUIRED_FIELDS_def)
  have debit: "''UNSUPPORTED_NATIVE_TYPE:DEBIT'' \<notin> set VALID_REJECT_REASONS" by (simp add: VALID_REJECT_REASONS_def)
  have reasons: "list_all (\<lambda>k. \<not> raw_identifier_search k) VALID_REJECT_REASONS" by code_simp
  have keys: "\<not> output_bad False False k" if "k \<in> {''rowNumber'', ''reason'', ''rawType'', ''message''}" for k
    using that by (auto simp: output_bad_def RAW_IDENTIFIER_FIELDS_def)
  have clean: "clean (output_bad False False) (JObj r) \<longleftrightarrow> \<not> raw_identifier_search rs \<and> clean (output_bad False False) ?v \<and> \<not> raw_identifier_search m"
    unfolding r(2) rejected_record_def clean_simps(1) list.set ball_simps prod.case by (simp add: keys)
  have val: "clean (output_bad False False) ?v \<longleftrightarrow> (is_str ?v \<longrightarrow> \<not> raw_identifier_search (the_str ?v))"
    by (simp split: option.split)
  show ?thesis
    using refused_rows [OF r(1)]
  proof
    assume ok: "rs \<in> set VALID_REJECT_REASONS \<and> no_CM m"
    then have "rs \<noteq> ''UNSUPPORTED_NATIVE_TYPE:DEBIT''" "\<not> raw_identifier_search rs" "\<not> raw_identifier_search m"
      using debit reasons no_CM_clean by (auto simp: list_all_iff)
    with ok show ?thesis
      unfolding rejected_ok_def reject_acceptable_def fields clean val by (simp add: fields(1) ok)
  next
    assume bad: "rs = ''UNSUPPORTED_NATIVE_TYPE:DEBIT'' \<and> row_get row ''type'' = Some (Some ''DEBIT'')"
    then show ?thesis
      unfolding rejected_ok_def reject_acceptable_def fields using debit by (simp del: list.inject)
  qed
qed

text \<open>C13: a prepared dataset passes the validator exactly when it has a row, all of its events are payments or
  transfers, no reject is for an unsupported native type or holds a raw identifier in its type column, the
  dataset and file names are the expected ones, no path and no salt source looks like a raw identifier, the
  salt is not the default one where that is asked, and the reject ratio is within the bound. All the other
  checks of the validator hold for every prepared dataset.\<close>

theorem prepared_dataset_validates:
  assumes "process penv pa = Inr (s, rep)" "prepared_files s rep env" "reads_utc (vo_fromiso env)"
  shows "(\<exists>v. validate env a = Inr v) \<longleftrightarrow>
    0 < total_rows s
    \<and> (\<forall>e \<in> set (out_events s). jget e ''eventType'' \<in> {JStr ''PAYMENT'', JStr ''TRANSFER''})
    \<and> (\<forall>r \<in> set (out_rejected s). reject_acceptable r)
    \<and> pa_dataset_slug pa = EXPECTED_DATASET \<and> pa_input_name pa = EXPECTED_RAW_FILE
    \<and> (let paths = output_paths (pa_output_dir pa) in
       \<forall>w \<in> {pa_input pa, text_of ''hashSaltSource'' rep, of_events paths, of_labels paths, of_rejected paths}. \<not> raw_identifier_search w)
    \<and> (va_require_non_default_salt a \<longrightarrow> text_of ''hashSaltSource'' rep \<noteq> ''default-local'')
    \<and> (\<exists>m. parse_max_ratio (va_max_reject_ratio a) = Inr m
         \<and> \<not> dec_greater (decimal_div (rejected_rows s) (total_rows s)) m)"
proof -
  obtain t0 salt source nrows where p: "resolve_salt pa (pe_getenv penv) = Inr (salt, source)"
    "nrows = taken (pa_limit pa) (enumerate 1 (dict_rows (pe_records penv)))"
    "s = run_state t0 salt nrows" "all_decided (pa_reject_policy pa) t0 salt nrows"
    "rep = prepare_report pa (hexdigest (sha256 (the (pe_bytes penv)))) t0 source (output_paths (pa_output_dir pa))
       (pe_started penv) (pe_finished penv) s"
    using assms(1) by (rule process_InrE)
  have source: "source \<noteq> []" "text_of ''hashSaltSource'' rep = source"
    using p(1) unfolding p(5) prepare_report_def by (auto simp: resolve_salt_def jget_or_Cons split: if_splits)
  have dist: "distinct (map fst nrows)" unfolding p(2) by (rule distinct_taken)
  note files = prepared_files_read [OF assms(1,2)]
  have plain: "\<forall>d \<in> set (out_events s) \<union> set (out_labels s) \<union> set (out_rejected s). plain_json (JObj d)"
    using outputs_plain [OF assms(1)] by blast
  note report = report_plain [OF assms(1)]
  have rejects: "(\<forall>r \<in> set (out_rejected s). rejected_ok r) \<longleftrightarrow> (\<forall>r \<in> set (out_rejected s). reject_acceptable r)"
    using prepared_reject_ok unfolding p(3) by blast
  have len: "total_rows s = length (out_events s) + length (out_rejected s)" "rejected_rows s = length (out_rejected s)"
    using p(4) by (auto simp: p(3) run_state_simps all_decided_def)
  have agrees: "report_agrees (out_events s) (out_labels s) (out_rejected s) rep \<longleftrightarrow> 0 < total_rows s"
    if types: "\<forall>e \<in> set (out_events s). jget e ''eventType'' \<in> {JStr ''PAYMENT'', JStr ''TRANSFER''}"
  proof
    assume "0 < total_rows s"
    then have "nrows \<noteq> []" by (auto simp: p(3))
    moreover have "\<forall>e \<in> set (out_events s). jget e ''eventType'' = jget e ''nativeEventType''"
      using types same_type_supported prepared_same_type unfolding p(3) by metis
    ultimately show "report_agrees (out_events s) (out_labels s) (out_rejected s) rep"
      using prepared_report_agrees [OF p(4)] p(5) unfolding p(3) by blast
  qed (simp add: report_agrees_def len)
  have ok: "files_ok (vo_fromiso env) (out_events s) (out_labels s) (out_rejected s) \<longleftrightarrow>
      (\<forall>e \<in> set (out_events s). jget e ''eventType'' \<in> {JStr ''PAYMENT'', JStr ''TRANSFER''}) \<and> (\<forall>r \<in> set (out_rejected s). rejected_ok r)"
    using prepared_files_ok [OF dist assms(3)] unfolding p(3) by blast
  have "(\<exists>v. validate env a = Inr v) \<longleftrightarrow> files_ok (vo_fromiso env) (out_events s) (out_labels s) (out_rejected s)
      \<and> report_ok (va_require_non_default_salt a) rep \<and> report_agrees (out_events s) (out_labels s) (out_rejected s) rep
      \<and> (\<exists>m. parse_max_ratio (va_max_reject_ratio a) = Inr m
         \<and> \<not> dec_greater (decimal_div (length (out_rejected s)) (length (out_events s) + length (out_rejected s))) m)"
    using outputs_valid_files [where a = a, OF files(1-3)] files(4)
    unfolding files_ok_sorted [OF plain] length_map
    by (auto simp: report_ok_sorted [OF report] report_agrees_sorted [OF plain report])
  then show ?thesis
    unfolding ok rejects Let_def len(2) source(2) prepared_report_ok [OF p(5) [unfolded p(3)] source(1)] len(1) [symmetric]
    using agrees by blast
qed

text \<open>A prepared dataset of one payment and one transfer that passes.\<close>

definition good_prepare_env :: prepare_env where
  "good_prepare_env = demo_prepare_env\<lparr>pe_records := [REQUIRED_COLUMNS, demo_row ''PAYMENT'' ''9.8'', demo_row ''TRANSFER'' ''0'']\<rparr>"

definition good_validate_env :: "prepare_state \<Rightarrow> jobj \<Rightarrow> validate_env" where
  "good_validate_env s rep =
    \<lparr>vo_events = Some (file_lines (jsonl_text (out_events s))), vo_labels = Some (file_lines (jsonl_text (out_labels s))),
     vo_rejected = Some (file_lines (jsonl_text (out_rejected s))),
     vo_report = Some (dumps_indent 0 (JObj rep) @ [char_of (10 :: nat)]),
     vo_loads = json_loads, vo_fromiso = (\<lambda>_. Some (Some 0))\<rparr>"

lemma good_run:
  obtains s rep where "process good_prepare_env default_prepare_args = Inr (s, rep)" "total_rows s = 2" "rejected_rows s = 0"
    "length (out_events s) = 2" "length (out_labels s) = 2" "out_rejected s = []"
    "\<forall>e \<in> set (out_events s). jget e ''eventType'' \<in> {JStr ''PAYMENT'', JStr ''TRANSFER''}"
    "text_of ''hashSaltSource'' rep = ''default-local''"
proof -
  obtain e1 l1 e2 l2 where rows:
    "normalize_row (demo_dict ''PAYMENT'' ''9.8'') 1 0 DEFAULT_LOCAL_SALT = Inr (e1, l1)"
    "normalize_row (demo_dict ''TRANSFER'' ''0'') 2 0 DEFAULT_LOCAL_SALT = Inr (e2, l2)"
    using demo_rows by metis
  have "check_type (demo_dict ''PAYMENT'' ''9.8'') = Inr (''PAYMENT'', ''PAYMENT'')"
    "check_type (demo_dict ''TRANSFER'' ''0'') = Inr (''TRANSFER'', ''TRANSFER'')" by code_simp+
  note kinds = this
  have types: "jget e1 ''eventType'' = JStr ''PAYMENT''" "jget e2 ''eventType'' = JStr ''TRANSFER''"
    by (rule prepared_event [OF rows(1)]; simp add: kinds) (rule prepared_event [OF rows(2)]; simp add: kinds)
  have dict: "dict_rows (pe_records good_prepare_env) = [demo_dict ''PAYMENT'' ''9.8'', demo_dict ''TRANSFER'' ''0'']"
    by (simp add: good_prepare_env_def dict_rows_def demo_row_def)
  have header: "read_header (pe_records good_prepare_env) None = None" by code_simp
  have args: "resolve_salt default_prepare_args (pe_getenv good_prepare_env) = Inr (DEFAULT_LOCAL_SALT, ''default-local'')"
    "pa_limit default_prepare_args = None" "pa_reject_policy default_prepare_args = ''row-level''"
    "pe_bytes good_prepare_env = Some []" "parse_base_time (pe_fromiso good_prepare_env) b = Inr 0" "pe_csv_fault good_prepare_env = None"
    "ensure_outputs (pe_exists good_prepare_env) p f = None" for b p f
    by (simp_all add: default_prepare_args_def good_prepare_env_def demo_prepare_env_def resolve_salt_def ensure_outputs_def parse_base_time_def max_instant_def)
  let ?s = "accept_row e2 l2 (accept_row e1 l1 init_prepare_state)"
  let ?rep = "prepare_report default_prepare_args (hexdigest (sha256 [])) 0 ''default-local'' (output_paths (pa_output_dir default_prepare_args))
    (pe_started good_prepare_env) (pe_finished good_prepare_env) ?s"
  have "process_rows None None ''row-level'' 0 DEFAULT_LOCAL_SALT 1 (dict_rows (pe_records good_prepare_env)) init_prepare_state = Inr ?s"
    using rows unfolding dict by (simp add: process_row_def numeral_eq_Suc)
  then have "process good_prepare_env default_prepare_args = Inr (?s, ?rep)" by (simp add: process_def args header Let_def)
  moreover have "text_of ''hashSaltSource'' ?rep = ''default-local''" by (simp add: prepare_report_def jget_or_Cons)
  moreover have "total_rows ?s = 2" "rejected_rows ?s = 0" "out_events ?s = [e1, e2]" "out_labels ?s = [l1, l2]" "out_rejected ?s = []"
    by (simp_all add: accept_row_def init_prepare_state_def)
  ultimately show thesis using types by (intro that [of ?s ?rep]) simp_all
qed

theorem prepared_dataset_validates_witness:
  "\<exists>s rep v. process good_prepare_env default_prepare_args = Inr (s, rep)
    \<and> validate (good_validate_env s rep) default_validate_args = Inr v"
proof -
  obtain s rep where s: "process good_prepare_env default_prepare_args = Inr (s, rep)" "total_rows s = 2" "rejected_rows s = 0"
    "length (out_events s) = 2" "length (out_labels s) = 2" "out_rejected s = []"
    "\<forall>e \<in> set (out_events s). jget e ''eventType'' \<in> {JStr ''PAYMENT'', JStr ''TRANSFER''}"
    "text_of ''hashSaltSource'' rep = ''default-local''"
    by (rule good_run)
  have files: "prepared_files s rep (good_validate_env s rep)"
    by (simp add: prepared_files_def good_validate_env_def)
  have paths: "list_all (\<lambda>w. \<not> raw_identifier_search w)
      (let p = output_paths (pa_output_dir default_prepare_args) in
       [pa_input default_prepare_args, ''default-local'', of_events p, of_labels p, of_rejected p])" by code_simp
  have names: "pa_dataset_slug default_prepare_args = EXPECTED_DATASET" "pa_input_name default_prepare_args = EXPECTED_RAW_FILE"
    "va_require_non_default_salt default_validate_args = False"
    "parse_max_ratio (va_max_reject_ratio default_validate_args) = Inr (DFin False 1 (- 2))"
    "\<not> dec_greater (decimal_div 0 2) (DFin False 1 (- 2))" by code_simp+
  have "reads_utc (vo_fromiso (good_validate_env s rep))" by (simp add: reads_utc_def good_validate_env_def)
  from prepared_dataset_validates [OF s(1) files this] s(2,3,6-8) paths names show ?thesis
    using s(1) by (auto simp: Let_def)
qed

end
