(* ===== verification/PyNumber.thy ===== *)
theory PyNumber
  imports PyValue
begin

text \<open>
  Arithmetic and comparison on JSON values as Python does them: an operation on two \<open>int\<close> instances is
  exact, one with a \<open>float\<close> converts the other side (which raises \<open>OverflowError\<close> for too large an
  \<open>int\<close>), and anything else raises \<open>TypeError\<close>. Comparisons of numbers are exact. (\<open>*\<close> of a
  text or a list and an \<open>int\<close> repeats it; the scripts at once subtract from the product, which
  raises \<open>TypeError\<close> as well.)
\<close>

definition is_num :: "json \<Rightarrow> bool" where
  "is_num v \<longleftrightarrow> num_val v \<noteq> None"

definition as_float :: "json \<Rightarrow> pyfloat res" where
  "as_float v = (if is_num v then py_float v else Inl TypeError)"

definition num_op :: "(int \<Rightarrow> int \<Rightarrow> int) \<Rightarrow> (pyfloat \<Rightarrow> pyfloat \<Rightarrow> pyfloat) \<Rightarrow> json \<Rightarrow> json \<Rightarrow> json res" where
  "num_op f g a b =
    (if \<not> is_num a \<or> \<not> is_num b then Inl TypeError
     else if is_int a \<and> is_int b then Inr (JInt (f (the_int a) (the_int b)))
     else bind_res (as_float a) (\<lambda>x. bind_res (as_float b) (\<lambda>y. Inr (JFloat (g x y)))))"

definition num_add :: "json \<Rightarrow> json \<Rightarrow> json res" where "num_add = num_op (+) fadd"

definition num_sub :: "json \<Rightarrow> json \<Rightarrow> json res" where "num_sub = num_op (-) fsub"

definition num_mul :: "json \<Rightarrow> json \<Rightarrow> json res" where "num_mul = num_op (*) fmul"

definition num_abs :: "json \<Rightarrow> json res" where
  "num_abs v = (case v of JFloat x \<Rightarrow> Inr (JFloat (fabs x)) | _ \<Rightarrow> if is_int v then Inr (JInt \<bar>the_int v\<bar>) else Inl TypeError)"

text \<open>\<open>a / b\<close>\<close>

definition num_div :: "json \<Rightarrow> json \<Rightarrow> pyfloat res" where
  "num_div a b =
    (if \<not> is_num a \<or> \<not> is_num b then Inl TypeError
     else if is_int a \<and> is_int b then true_div (the_int a) (the_int b)
     else bind_res (as_float a) (\<lambda>x. bind_res (as_float b) (\<lambda>y. fdiv x y)))"

text \<open>\<open>x // y\<close> on floats: the remainder of C's \<open>fmod\<close> is exact; the quotient is rounded to an integer.\<close>

definition fmod_rat :: "rat \<Rightarrow> rat \<Rightarrow> rat" where
  "fmod_rat x y = x - y * of_int (trunc_rat (x / y))"

definition float_floordiv :: "pyfloat \<Rightarrow> pyfloat \<Rightarrow> pyfloat res" where
  "float_floordiv x y =
    (case y of
       Fin b \<Rightarrow>
         if b = 0 then Inl ZeroDivisionError
         else (case x of
             Fin a \<Rightarrow>
               let m = fmod_rat a b; q = (case fdiv (fsub (Fin a) (Fin m)) (Fin b) of Inr z \<Rightarrow> z | Inl _ \<Rightarrow> NaN);
                   q1 = (if m \<noteq> 0 \<and> (b < 0) \<noteq> (m < 0) then fsub q (Fin 1) else q)
               in (case q1 of
                     Fin r \<Rightarrow> let f = of_int \<lfloor>r\<rfloor> in Inr (if r - f > 1 / 2 then fadd (Fin f) (Fin 1) else Fin f)
                   | _ \<Rightarrow> Inr q1)
           | _ \<Rightarrow> Inr NaN)
     | NaN \<Rightarrow> Inr NaN
     | _ \<Rightarrow> (case x of Fin a \<Rightarrow> Inr (if a \<noteq> 0 \<and> (y = NInf) \<noteq> (a < 0) then Fin (- 1) else Fin 0) | _ \<Rightarrow> Inr NaN))"

definition num_floordiv :: "json \<Rightarrow> json \<Rightarrow> json res" where
  "num_floordiv a b =
    (if \<not> is_num a \<or> \<not> is_num b then Inl TypeError
     else if is_int a \<and> is_int b
     then (if the_int b = 0 then Inl ZeroDivisionError else Inr (JInt (the_int a div the_int b)))
     else bind_res (as_float a) (\<lambda>x. bind_res (as_float b) (\<lambda>y. bind_res (float_floordiv x y) (\<lambda>z. Inr (JFloat z)))))"

text \<open>\<open>a < b\<close> and \<open>a <= b\<close> where one side is known to be a number\<close>

definition num_less :: "json \<Rightarrow> json \<Rightarrow> bool res" where
  "num_less a b = (case (num_val a, num_val b) of (Some x, Some y) \<Rightarrow> Inr (flt x y) | _ \<Rightarrow> Inl TypeError)"

definition num_le :: "json \<Rightarrow> json \<Rightarrow> bool res" where
  "num_le a b = (case (num_val a, num_val b) of (Some x, Some y) \<Rightarrow> Inr (fle x y) | _ \<Rightarrow> Inl TypeError)"

text \<open>\<open>a == b\<close>: numbers by value, lists element by element, dicts key by key.\<close>

fun py_eq :: "json \<Rightarrow> json \<Rightarrow> bool"
  and py_eq_list :: "json list \<Rightarrow> json list \<Rightarrow> bool"
  and py_eq_dict :: "jobj \<Rightarrow> jobj \<Rightarrow> bool"
where
  "py_eq (JList xs) (JList ys) = py_eq_list xs ys"
| "py_eq (JObj d) (JObj e) = (set (map fst d) = set (map fst e) \<and> py_eq_dict d e)"
| "py_eq (JStr s) (JStr t) = (s = t)"
| "py_eq JNull JNull = True"
| "py_eq a b = (case (num_val a, num_val b) of (Some x, Some y) \<Rightarrow> feq x y | _ \<Rightarrow> False)"
| "py_eq_list [] ys = (ys = [])"
| "py_eq_list (x # xs) ys = (case ys of [] \<Rightarrow> False | y # zs \<Rightarrow> py_eq x y \<and> py_eq_list xs zs)"
| "py_eq_dict [] e = True"
| "py_eq_dict ((k, v) # d) e = ((case map_of e k of None \<Rightarrow> False | Some w \<Rightarrow> py_eq v w) \<and> py_eq_dict d e)"

text \<open>The values a \<open>for\<close> loop over \<open>v\<close> takes.\<close>

definition iter_items :: "json \<Rightarrow> json list res" where
  "iter_items v = (case v of
     JList vs \<Rightarrow> Inr vs
   | JObj d \<Rightarrow> Inr (map (\<lambda>kv. JStr (fst kv)) d)
   | JStr s \<Rightarrow> Inr (map (\<lambda>c. JStr [c]) s)
   | _ \<Rightarrow> Inl TypeError)"

text \<open>\<open>v[k]\<close> for a text \<open>k\<close>\<close>

definition item :: "json \<Rightarrow> string \<Rightarrow> json res" where
  "item v k = (case v of JObj d \<Rightarrow> jitem d k | _ \<Rightarrow> Inl TypeError)"

text \<open>\<open>len(set(vs)) != len(vs)\<close>\<close>

fun all_different :: "json list \<Rightarrow> bool" where
  "all_different [] = True"
| "all_different (v # vs) = (list_all (\<lambda>w. \<not> py_eq v w) vs \<and> all_different vs)"

definition unique_or :: "json list \<Rightarrow> exn \<Rightarrow> exn option" where
  "unique_or vs x = (if list_all hashable vs then raise_if (\<not> all_different vs) x else Some TypeError)"

section \<open>Integers\<close>

lemma is_num_int [simp]: "is_num (JInt i)" "is_num (JBool b)" "is_num (JFloat x)" "\<not> is_num (JStr s)" "\<not> is_num JNull"
    "\<not> is_num (JList vs)" "\<not> is_num (JObj d)"
  by (simp_all add: is_num_def)

lemma is_int_num: "is_int v \<Longrightarrow> is_num v"
  by (cases v) simp_all

lemma num_op_int [simp]: "num_op f g (JInt i) (JInt j) = Inr (JInt (f i j))"
  by (simp add: num_op_def)

lemma num_op_ints: "is_int a \<Longrightarrow> is_int b \<Longrightarrow> num_op f g a b = Inr (JInt (f (the_int a) (the_int b)))"
  by (simp add: num_op_def is_int_num)

lemma num_less_int [simp]: "num_less (JInt i) (JInt j) = Inr (i < j)"
  by (simp add: num_less_def)

lemma num_le_int [simp]: "num_le (JInt i) (JInt j) = Inr (i \<le> j)"
  by (auto simp: num_le_def fle_def)

lemma eq_int_iff [simp]: "eq_int (JInt i) n \<longleftrightarrow> i = n"
  by (simp add: eq_int_def)

lemma py_eq_int: "is_int v \<Longrightarrow> py_eq v (JInt n) \<longleftrightarrow> the_int v = n"
  by (cases v) auto

lemma num_val_int: "is_int v \<Longrightarrow> num_val v = Some (Fin (of_int (the_int v)))"
  by (cases v) auto

end
