(* ===== verification/WorkloadManifest.thy ===== *)
theory WorkloadManifest
  imports PyNumber
begin

text \<open>
  \<open>scripts/data/validate_v3_workload_manifest.py\<close>: a workload manifest is checked against its JSON schema and
  then against the rules that tie its fields together.

  The validator of \<open>jsonschema\<close> is a parameter, \<open>schema\<close>: \<open>None\<close> when it accepts the manifest, else
  the \<open>ManifestError\<close> its callers make of what it raises. Nothing is assumed of the types of the fields after
  it: a missing field raises \<open>KeyError\<close> and a value of the wrong type \<open>TypeError\<close>, as in the source.
  Each \<open>validate_*\<close> function returns the exception it raises, if any.
\<close>

section \<open>Durations\<close>

text \<open>\<open>re.fullmatch(r"([1-9][0-9]*)(s|m|h)", value)\<close> and the same with \<open>[0-9]+\<close>: the number and the unit.\<close>

definition match_duration :: "bool \<Rightarrow> string \<Rightarrow> (nat \<times> char) option" where
  "match_duration positive s =
    (if s = [] \<or> last s \<notin> {CHR ''s'', CHR ''m'', CHR ''h''} \<or> butlast s = [] \<or> \<not> list_all is_digit (butlast s)
        \<or> positive \<and> hd s = CHR ''0''
     then None else Some (nat_of_digits (butlast s), last s))"

definition seconds_of :: "nat \<times> char \<Rightarrow> int" where
  "seconds_of p = (if snd p = CHR ''s'' then int (fst p) else if snd p = CHR ''m'' then int (fst p) * 60
     else int (fst p) * 60 * 60)"

definition parse_duration_seconds :: "json \<Rightarrow> int res" where
  "parse_duration_seconds v =
    (case v of
       JStr s \<Rightarrow> (case match_duration True s of
           None \<Rightarrow> Inl (ManifestError ''duration must use a positive s, m, or h suffix'')
         | Some p \<Rightarrow> Inr (seconds_of p))
     | _ \<Rightarrow> Inl TypeError)"

definition parse_non_negative_duration_seconds :: "json \<Rightarrow> int res" where
  "parse_non_negative_duration_seconds v =
    (case v of
       JStr s \<Rightarrow> (case match_duration False s of
           None \<Rightarrow> Inl (ManifestError ''duration must use a non-negative s, m, or h suffix'')
         | Some p \<Rightarrow> Inr (seconds_of p))
     | _ \<Rightarrow> Inl TypeError)"

section \<open>Fields\<close>

definition field_must :: "jobj \<Rightarrow> string \<Rightarrow> (json \<Rightarrow> bool) \<Rightarrow> string \<Rightarrow> exn option" where
  "field_must m k ok msg = with_val (jitem m k) (\<lambda>v. raise_if (\<not> ok v) (ManifestError msg))"

text \<open>\<open>abs(a - b) > 0.000001\<close>\<close>

definition TOLERANCE :: pyfloat where "TOLERANCE = to_double (1 / 1000000)"

definition drifts :: "json \<Rightarrow> json \<Rightarrow> bool res" where
  "drifts a b = bind_res (num_sub a b) (\<lambda>d. bind_res (num_abs d) (\<lambda>m. num_less (JFloat TOLERANCE) m))"

definition raise_when :: "bool res \<Rightarrow> string \<Rightarrow> exn option" where
  "raise_when c msg = with_val c (\<lambda>b. raise_if b (ManifestError msg))"

text \<open>\<open>v in S\<close> for a set of texts\<close>

definition in_roles :: "json \<Rightarrow> string list \<Rightarrow> bool res" where
  "in_roles v S = (if hashable v then Inr (in_strings v S) else Inl TypeError)"

section \<open>The distribution over partitions\<close>

definition add_share :: "string \<Rightarrow> pyfloat \<Rightarrow> string \<times> json \<Rightarrow> pyfloat res" where
  "add_share field acc kv =
    (case num_val (snd kv) of
       Some x \<Rightarrow>
         if is_bool (snd kv) then Inl (ManifestError (field @ '' must map string keys to numeric shares''))
         else if flt x (Fin 0) \<or> flt (Fin 1) x then Inl (ManifestError (field @ '' shares must be between 0 and 1''))
         else bind_res (as_float (snd kv)) (\<lambda>y. Inr (fadd acc y))
     | None \<Rightarrow> Inl (ManifestError (field @ '' must map string keys to numeric shares'')))"

definition validate_distribution :: "json \<Rightarrow> string \<Rightarrow> exn option" where
  "validate_distribution v field =
    (if v = JNull then None
     else if \<not> is_obj v \<or> the_obj v = [] then Some (ManifestError (field @ '' must be null or a non-empty object''))
     else with_val (foldM (add_share field) (Fin 0) (the_obj v)) (\<lambda>sum.
       raise_if (flt TOLERANCE (fabs (fsub sum (Fin 1)))) (ManifestError (field @ '' shares must sum to 1''))))"

section \<open>Stages\<close>

text \<open>\<open>int(target_eps * duration_seconds)\<close>, and \<open>max(a, b)\<close>, which keeps \<open>a\<close> unless \<open>b\<close> is greater\<close>

definition stage_events :: "json \<Rightarrow> int res" where
  "stage_events stage =
    bind_res (item stage ''targetEps'') (\<lambda>eps.
    bind_res (bind_res (item stage ''duration'') parse_duration_seconds) (\<lambda>seconds.
    bind_res (num_mul eps (JInt seconds)) py_int))"

definition py_max :: "json \<Rightarrow> json \<Rightarrow> json res" where
  "py_max a b = bind_res (num_less a b) (\<lambda>lt. Inr (if lt then b else a))"

definition add_stage :: "int \<times> json \<Rightarrow> json \<Rightarrow> (int \<times> json) res" where
  "add_stage acc stage =
    bind_res (stage_events stage) (\<lambda>n.
    bind_res (item stage ''targetEps'') (\<lambda>eps.
    bind_res (py_max (snd acc) eps) (\<lambda>m. Inr (fst acc + n, m))))"

definition validate_stages :: "jobj \<Rightarrow> exn option" where
  "validate_stages m =
    (if jget m ''stages'' = JNull
     then with_val (jitem m ''targetEps'') (\<lambda>eps.
          with_val (bind_res (jitem m ''duration'') parse_duration_seconds) (\<lambda>seconds.
          with_val (num_mul eps (JInt seconds)) (\<lambda>expected.
          with_val (jitem m ''eventLimit'') (\<lambda>limit.
            raise_when (drifts limit expected) ''eventLimit must equal targetEps * duration seconds''))))
     else with_val (bind_res (iter_items (jget m ''stages'')) (foldM add_stage (0, JInt 0))) (\<lambda>(expected, max_eps). first_fail
      [field_must m ''eventLimit'' (\<lambda>v. py_eq v (JInt expected)) ''eventLimit must equal the sum of stage targetEps * duration seconds'',
       field_must m ''targetEps'' (\<lambda>v. py_eq v max_eps) ''targetEps must equal the maximum stage targetEps'']))"

section \<open>Profiles\<close>

text \<open>The three rules that several roles share: no partition affinity, and a uniform distribution of users.\<close>

definition no_affinity :: "jobj \<Rightarrow> string \<Rightarrow> exn option" where
  "no_affinity m msg = with_val (jitem m ''targetPartitionDistribution'') (\<lambda>v.
     if v \<noteq> JNull then Some (ManifestError msg) else field_must m ''partitionAffinityStrategy'' (\<lambda>v. v = JNull) msg)"

definition uniform_users :: "jobj \<Rightarrow> string \<Rightarrow> exn option" where
  "uniform_users m msg = with_val (jitem m ''targetUserConcentration'') (\<lambda>v.
     if v \<noteq> JNull then Some (ManifestError msg) else field_must m ''heavyUserRatio'' (\<lambda>v. eq_int v 0) msg)"

text \<open>Late events: all of them or none, as the delay exceeds the allowed lateness or not.\<close>

definition validate_source_delay_profile :: "jobj \<Rightarrow> string \<Rightarrow> int option \<Rightarrow> exn option" where
  "validate_source_delay_profile m expected_profile expected_delay =
    (let profile = jget m ''sourceDelayProfile''; role = py_str (jget m ''workloadRole'') in first_fail
      [raise_if (profile = JNull) (ManifestError (role @ '' requires sourceDelayProfile'')),
       field_must m ''driverType'' (\<lambda>v. v = JStr ''HTTP_SOURCE_EMULATOR'') (role @ '' requires HTTP_SOURCE_EMULATOR''),
       field_must m ''sourceProfile'' (\<lambda>v. v = JStr expected_profile) (role @ '' requires '' @ expected_profile @ '' sourceProfile''),
       field_must m ''userDistribution'' (\<lambda>v. v = JStr ''UNIFORM'') (role @ '' requires UNIFORM userDistribution''),
       no_affinity m (role @ '' must not use partition affinity''),
       uniform_users m (role @ '' must keep user distribution uniform''),
       with_val (bind_res (item profile ''allowedLateness'') parse_duration_seconds) (\<lambda>allowed.
       with_val (bind_res (item profile ''sourceDelay'') parse_non_negative_duration_seconds) (\<lambda>delay. first_fail
         [raise_if (expected_delay \<noteq> None \<and> expected_delay \<noteq> Some delay)
            (ManifestError ''sourceDelay must match the expected source-delay policy''),
          field_must (the_obj profile) ''expectedSourceDelaySeconds'' (\<lambda>v. eq_int v delay) ''expectedSourceDelaySeconds must equal sourceDelay'',
          with_val (if allowed < delay then jitem m ''eventLimit'' else Inr (JInt 0)) (\<lambda>too_late.
          with_val (bind_res (jitem m ''eventLimit'') (\<lambda>limit. num_sub limit too_late)) (\<lambda>accepted. first_fail
            [field_must (the_obj profile) ''expectedTooLateEvents'' (\<lambda>v. py_eq v too_late)
               ''expectedTooLateEvents must match sourceDelay and allowedLateness'',
             field_must (the_obj profile) ''expectedAcceptedEvents'' (\<lambda>v. py_eq v accepted)
               ''expectedAcceptedEvents must match eventLimit and expectedTooLateEvents'']))]))])"

definition validate_partition_skew :: "jobj \<Rightarrow> exn option" where
  "validate_partition_skew m = first_fail
    [field_must m ''eventTimeMode'' (\<lambda>v. v = JStr ''REBASE_TO_ARRIVAL'') ''PARTITION_SKEW requires REBASE_TO_ARRIVAL'',
     field_must m ''sourceProfile'' (\<lambda>v. v = JStr ''NORMAL'') ''PARTITION_SKEW requires NORMAL sourceProfile'',
     field_must m ''targetUserConcentration'' (\<lambda>v. v = JNull) ''PARTITION_SKEW must not use targetUserConcentration'',
     field_must m ''heavyUserRatio'' (\<lambda>v. eq_int v 0) ''PARTITION_SKEW must keep heavyUserRatio at 0'',
     field_must m ''partitionAffinityStrategy'' (\<lambda>v. v = JStr ''KAFKA_MURMUR2_LOCAL_6_PARTITIONS'')
       ''unsupported partitionAffinityStrategy for PARTITION_SKEW'',
     with_val (mapM (\<lambda>kv. py_int (JStr (fst kv))) (the_obj (jget m ''targetPartitionDistribution''))) (\<lambda>ps. first_fail
       [raise_if (sort ps \<noteq> [0..int (length ps) - 1])
          (ManifestError ''targetPartitionDistribution must use contiguous partitions from 0''),
        raise_if (length ps \<noteq> 6) (ManifestError ''KAFKA_MURMUR2_LOCAL_6_PARTITIONS requires exactly 6 partitions'')])]"

definition REDELIVERY_FIELDS :: "string list" where
  "REDELIVERY_FIELDS = [''redeliveryDrillTargetIndex'', ''redeliveryDrillNextIndex'', ''expectedNextEventTransactionCount'',
     ''expectedNextEventAmountSum'', ''expectedNextEventRiskScore'', ''expectedNextEventMatchedRule'']"

definition validate_stateful_redelivery_profile :: "jobj \<Rightarrow> jobj \<Rightarrow> exn option" where
  "validate_stateful_redelivery_profile m profile =
    (let missing = filter (\<lambda>k. \<not> has_key profile k) REDELIVERY_FIELDS;
         target_index = jget profile ''redeliveryDrillTargetIndex''; next_index = jget profile ''redeliveryDrillNextIndex'' in first_fail
      [raise_if (missing \<noteq> []) (ManifestError (''STATEFUL_REDELIVERY requires '' @ join '', '' missing)),
       raise_when (num_less target_index (JInt 3)) ''redeliveryDrillTargetIndex must be at least 3 for threshold-adjacent evidence'',
       raise_when (bind_res (jitem m ''eventLimit'') (\<lambda>limit. num_le limit target_index))
         ''redeliveryDrillTargetIndex must be less than eventLimit'',
       raise_when (bind_res (jitem m ''eventLimit'') (\<lambda>limit. num_le limit next_index))
         ''redeliveryDrillNextIndex must be less than eventLimit'',
       raise_when (num_le next_index target_index) ''redeliveryDrillNextIndex must be after redeliveryDrillTargetIndex'',
       with_val (num_add next_index (JInt 1)) (\<lambda>next_count. first_fail
         [raise_if (\<not> py_eq (jget profile ''expectedNextEventTransactionCount'') next_count)
            (ManifestError ''expectedNextEventTransactionCount must equal redeliveryDrillNextIndex + 1''),
          with_val (bind_res (jitem profile ''eventAmount'') (num_mul next_count)) (\<lambda>next_amount.
            raise_when (drifts (jget profile ''expectedNextEventAmountSum'') next_amount)
              ''expectedNextEventAmountSum must equal expectedNextEventTransactionCount * eventAmount'')])])"

text \<open>\<open>(eventLimit + userCardinality - 1) // userCardinality\<close>\<close>

definition ceil_div :: "json \<Rightarrow> json \<Rightarrow> json res" where
  "ceil_div a b = bind_res (num_add a b) (\<lambda>x. bind_res (num_sub x (JInt 1)) (\<lambda>y. num_floordiv y b))"

definition validate_stateful_window_profile :: "jobj \<Rightarrow> exn option" where
  "validate_stateful_window_profile m =
    with_val (jitem m ''statefulWindowProfile'') (\<lambda>profile.
      if profile = JNull then Some (ManifestError ''stateful workload roles require statefulWindowProfile'')
      else with_val (bind_res (jitem m ''duration'') parse_duration_seconds) (\<lambda>duration.
        with_val (bind_res (item profile ''runtimeWindow'') parse_duration_seconds) (\<lambda>window. first_fail
         [raise_if (window < duration) (ManifestError ''stateful workload duration must fit inside runtimeWindow''),
          with_val (jitem m ''eventLimit'') (\<lambda>limit.
          with_val (jitem m ''userCardinality'') (\<lambda>users.
          with_val (num_div limit users) (\<lambda>average.
          with_val (ceil_div limit users) (\<lambda>most. first_fail
           [raise_when (bind_res (item profile ''expectedEventsPerUserInWindow'') (\<lambda>v. drifts v (JFloat average)))
              ''expectedEventsPerUserInWindow must equal eventLimit / userCardinality'',
            field_must (the_obj profile) ''expectedMaxEventsPerUserInWindow'' (\<lambda>v. py_eq v most)
              ''expectedMaxEventsPerUserInWindow must equal ceil(eventLimit / userCardinality)'',
            with_val (bind_res (item profile ''eventAmount'') (num_mul (JFloat average))) (\<lambda>amount_sum.
              raise_when (bind_res (item profile ''expectedAmountSumPerUserInWindow'') (\<lambda>v. drifts v amount_sum))
                ''expectedAmountSumPerUserInWindow must equal expectedEventsPerUserInWindow * eventAmount''),
            with_val (jitem m ''workloadRole'') (\<lambda>role.
              if role = JStr ''STATEFUL_REDELIVERY'' then validate_stateful_redelivery_profile m (the_obj profile) else None)]))))])))"

section \<open>Late and out-of-order events\<close>

text \<open>\<open>count_late\<close> counts the buckets beyond the allowed lateness and the others.\<close>

definition bucket_lateness :: "json \<Rightarrow> int res" where
  "bucket_lateness b = bind_res (item b ''lateness'') parse_non_negative_duration_seconds"

definition count_late :: "int \<Rightarrow> json list \<Rightarrow> int \<times> int \<Rightarrow> (int \<times> int) res" where
  "count_late allowed buckets acc = foldM (\<lambda>(late, ok) b.
     bind_res (bucket_lateness b) (\<lambda>s. Inr (if allowed < s then (late + 1, ok) else (late, ok + 1)))) acc buckets"

text \<open>The events go to the buckets in turn: \<open>divmod(eventLimit, len(buckets))\<close> full cycles, and the rest to the
  first buckets. A \<open>float\<close> limit raises where the buckets are sliced.\<close>

definition expected_late :: "int \<Rightarrow> json list \<Rightarrow> json \<Rightarrow> int \<times> int \<Rightarrow> (int \<times> int) res" where
  "expected_late allowed buckets limit counts =
    (if \<not> is_num limit then Inl TypeError
     else if buckets = [] then Inl ZeroDivisionError
     else if \<not> is_int limit then Inl TypeError
     else (let cycles = the_int limit div int (length buckets); r = nat (the_int limit mod int (length buckets)) in
           count_late allowed (take r buckets) (fst counts * cycles, snd counts * cycles)))"

definition pattern_lateness :: "json list \<Rightarrow> json list \<Rightarrow> int list res" where
  "pattern_lateness pattern buckets =
    bind_res (mapM (\<lambda>name. bind_res (mapM (\<lambda>b. item b ''name'') buckets)
        (\<lambda>ns. mapM bucket_lateness (map snd (filter (\<lambda>(n, _). py_eq n name) (zip ns buckets))))) pattern)
      (\<lambda>xss. Inr (concat xss))"

definition check_pattern :: "json list \<Rightarrow> json list \<Rightarrow> json list \<Rightarrow> exn option" where
  "check_pattern pattern names buckets = first_fail
    [unique_or pattern (ManifestError ''outOfOrderPattern bucket names must be unique''),
     raise_if (list_ex (\<lambda>p. \<not> list_ex (py_eq p) names) pattern)
       (ManifestError ''outOfOrderPattern must reference latenessProfile bucket names''),
     with_val (pattern_lateness pattern buckets) (\<lambda>ls.
       raise_if (ls = sort ls) (ManifestError ''outOfOrderPattern must contain a non-monotonic lateness sequence''))]"

definition validate_lateness_profile :: "jobj \<Rightarrow> exn option" where
  "validate_lateness_profile m =
    with_val (jitem m ''latenessProfile'') (\<lambda>profile. first_fail
     [raise_if (profile = JNull) (ManifestError ''LATE_OUT_OF_ORDER requires latenessProfile''),
      with_val (bind_res (jitem m ''sourceProfile'') (\<lambda>v. in_roles v [''SLOW_SOURCE'', ''BATCH_CATCHUP''])) (\<lambda>ok.
        raise_if (\<not> ok) (ManifestError ''LATE_OUT_OF_ORDER requires SLOW_SOURCE or BATCH_CATCHUP sourceProfile'')),
      no_affinity m ''LATE_OUT_OF_ORDER must not use partition affinity'',
      uniform_users m ''LATE_OUT_OF_ORDER must keep user distribution uniform'',
      with_val (bind_res (item profile ''allowedLateness'') parse_duration_seconds) (\<lambda>allowed.
      with_val (bind_res (item profile ''tooLateAge'') parse_duration_seconds) (\<lambda>age. first_fail
       [raise_if (age \<le> allowed) (ManifestError ''tooLateAge must be greater than allowedLateness''),
        with_val (bind_res (item profile ''buckets'') iter_items) (\<lambda>buckets.
        with_val (mapM (\<lambda>b. item b ''name'') buckets) (\<lambda>names. first_fail
         [unique_or names (ManifestError ''latenessProfile bucket names must be unique''),
          with_val (count_late allowed buckets (0, 0)) (\<lambda>counts. with_val (jitem m ''eventLimit'') (\<lambda>limit.
          with_val (expected_late allowed buckets limit counts) (\<lambda>(late, ok). first_fail
           [field_must (the_obj profile) ''expectedTooLateEvents'' (\<lambda>v. eq_int v late)
              ''expectedTooLateEvents must match buckets, eventLimit, and allowedLateness'',
            field_must (the_obj profile) ''expectedAcceptedLateEvents'' (\<lambda>v. eq_int v ok)
              ''expectedAcceptedLateEvents must match buckets, eventLimit, and allowedLateness'',
            (if jget (the_obj profile) ''outOfOrderPattern'' = JNull then None
             else with_val (iter_items (jget (the_obj profile) ''outOfOrderPattern'')) (\<lambda>pattern.
               check_pattern pattern names buckets))])))]))]))])"

section \<open>Replays\<close>

definition fields_differ :: "json \<Rightarrow> string \<Rightarrow> string \<Rightarrow> string \<Rightarrow> exn option" where
  "fields_differ profile a b msg =
    with_val (item profile a) (\<lambda>x. with_val (item profile b) (\<lambda>y. raise_if (py_eq x y) (ManifestError msg)))"

definition validate_replay_isolation_profile :: "jobj \<Rightarrow> exn option" where
  "validate_replay_isolation_profile m =
    (let profile = jget m ''replayIsolationProfile'' in first_fail
      [raise_if (profile = JNull) (ManifestError ''HISTORICAL_REPLAY requires replayIsolationProfile''),
       field_must m ''sourceProfile'' (\<lambda>v. v = JStr ''HISTORICAL'') ''HISTORICAL_REPLAY requires HISTORICAL sourceProfile'',
       field_must m ''driverType'' (\<lambda>v. v = JStr ''HTTP_K6'') ''HISTORICAL_REPLAY requires HTTP_K6 for the app-api replay-topic route'',
       with_val (jitem m ''replayRate'') (\<lambda>rate.
         field_must m ''targetEps'' (py_eq rate) ''HISTORICAL_REPLAY replayRate must equal targetEps''),
       no_affinity m ''HISTORICAL_REPLAY must not use partition affinity'',
       uniform_users m ''HISTORICAL_REPLAY must keep user distribution uniform'',
       fields_differ profile ''liveTopic'' ''replayTopic'' ''replayTopic must be different from liveTopic'',
       fields_differ profile ''liveConsumerGroup'' ''replayConsumerGroup''
         ''replayConsumerGroup must be different from liveConsumerGroup'',
       fields_differ profile ''liveRedisNamespace'' ''replayRedisNamespace''
         ''replayRedisNamespace must be different from liveRedisNamespace'',
       field_must (the_obj profile) ''expectedLiveRedisCollisionKeys'' (\<lambda>v. eq_int v 0)
         ''expectedLiveRedisCollisionKeys must be 0 for isolated replay'',
       with_val (item profile ''expectedReplayAcceptedEvents'') (\<lambda>v.
         field_must m ''eventLimit'' (py_eq v) ''expectedReplayAcceptedEvents must equal eventLimit'')])"

section \<open>The manifest\<close>

definition STATEFUL_WINDOW_ROLES :: "string list" where
  "STATEFUL_WINDOW_ROLES = [''STATEFUL_WINDOW_SCALING'', ''STATEFUL_REDELIVERY'']"

definition check_time_mode :: "json \<Rightarrow> json \<Rightarrow> exn option" where
  "check_time_mode role mode = first_fail
    [with_val (in_roles role [''NORMAL_CAPACITY'', ''ORGANIC_BURST'']) (\<lambda>b.
       raise_if (b \<and> mode \<noteq> JStr ''REBASE_TO_ARRIVAL'') (ManifestError (py_str role @ '' requires REBASE_TO_ARRIVAL''))),
     raise_if (role = JStr ''HISTORICAL_REPLAY'' \<and> mode \<noteq> JStr ''PRESERVE_SOURCE_TIME'')
       (ManifestError ''HISTORICAL_REPLAY requires PRESERVE_SOURCE_TIME''),
     with_val (in_roles role [''CATCH_UP_BURST'', ''LATE_OUT_OF_ORDER'']) (\<lambda>b.
       raise_if (b \<and> mode \<noteq> JStr ''CONTROLLED_LATENESS'') (ManifestError (py_str role @ '' requires CONTROLLED_LATENESS'')))]"

definition check_skew_role :: "jobj \<Rightarrow> json \<Rightarrow> exn option" where
  "check_skew_role m role = first_fail
    [(if role = JStr ''PARTITION_SKEW'' then first_fail
       [field_must m ''userDistribution'' (\<lambda>v. v = JStr ''PARTITION_AFFINITY'') ''PARTITION_SKEW requires PARTITION_AFFINITY'',
        field_must m ''targetPartitionDistribution'' (\<lambda>v. v \<noteq> JNull) ''PARTITION_SKEW requires target distribution and affinity strategy'',
        field_must m ''partitionAffinityStrategy'' truthy ''PARTITION_SKEW requires target distribution and affinity strategy'',
        validate_partition_skew m] else None),
     (if role = JStr ''USER_SKEW''
      then field_must m ''targetUserConcentration'' (\<lambda>v. v \<noteq> JNull) ''USER_SKEW requires targetUserConcentration'' else None)]"

definition check_source_delay_role :: "jobj \<Rightarrow> json \<Rightarrow> exn option" where
  "check_source_delay_role m role =
    (if role = JStr ''ORGANIC_BURST''
     then (if jget m ''sourceDelayProfile'' \<noteq> JNull then validate_source_delay_profile m ''NORMAL'' (Some 0) else None)
     else if role = JStr ''CATCH_UP_BURST'' then validate_source_delay_profile m ''BATCH_CATCHUP'' None
     else raise_if (jget m ''sourceDelayProfile'' \<noteq> JNull)
       (ManifestError ''sourceDelayProfile is only allowed for ORGANIC_BURST or CATCH_UP_BURST workloads''))"

definition check_profile_roles :: "jobj \<Rightarrow> json \<Rightarrow> exn option" where
  "check_profile_roles m role = first_fail
    [with_val (in_roles role STATEFUL_WINDOW_ROLES) (\<lambda>b. if b then validate_stateful_window_profile m
       else field_must m ''statefulWindowProfile'' (\<lambda>v. v = JNull) ''statefulWindowProfile is only allowed for stateful workload roles''),
     (if role = JStr ''LATE_OUT_OF_ORDER'' then validate_lateness_profile m
      else field_must m ''latenessProfile'' (\<lambda>v. v = JNull) ''latenessProfile is only allowed for LATE_OUT_OF_ORDER workloads''),
     (if role = JStr ''HISTORICAL_REPLAY'' then validate_replay_isolation_profile m
      else raise_if (jget m ''replayIsolationProfile'' \<noteq> JNull)
        (ManifestError ''replayIsolationProfile is only allowed for HISTORICAL_REPLAY workloads''))]"

definition validate_manifest :: "(jobj \<Rightarrow> exn option) \<Rightarrow> jobj \<Rightarrow> exn option" where
  "validate_manifest schema m = first_fail
    [schema m,
     with_val (jitem m ''targetPartitionDistribution'') (\<lambda>v. validate_distribution v ''targetPartitionDistribution''),
     validate_stages m,
     with_val (jitem m ''eventTimeMode'') (\<lambda>mode. with_val (jitem m ''workloadRole'') (\<lambda>role. first_fail
       [check_time_mode role mode, check_skew_role m role, check_source_delay_role m role, check_profile_roles m role]))]"

text \<open>\<open>read path\<close> is the value the file holds, \<open>None\<close> when it cannot be read or is no JSON.\<close>

definition load_and_validate :: "(jobj \<Rightarrow> exn option) \<Rightarrow> (string \<Rightarrow> json option) \<Rightarrow> string \<Rightarrow> jobj res" where
  "load_and_validate schema read path =
    (case read path of
       None \<Rightarrow> Inl (ManifestError ''cannot read manifest'')
     | Some (JObj m) \<Rightarrow> check_then (validate_manifest schema m) (Inr m)
     | Some _ \<Rightarrow> Inl (ManifestError ''manifest root must be an object''))"

text \<open>\<open>main\<close>: the exit status, or the exception that is not a \<open>ManifestError\<close>.\<close>

fun manifest_main :: "(jobj \<Rightarrow> exn option) \<Rightarrow> (string \<Rightarrow> json option) \<Rightarrow> string list \<Rightarrow> int res" where
  "manifest_main schema read [] = Inr 0"
| "manifest_main schema read (path # paths) =
    (case load_and_validate schema read path of
       Inl (ManifestError msg) \<Rightarrow> Inr 1
     | Inl x \<Rightarrow> Inl x
     | Inr m \<Rightarrow> bind_res (jitem m ''workloadId'') (\<lambda>_. bind_res (jitem m ''workloadVersion'') (\<lambda>_.
         manifest_main schema read paths)))"

end
