(* ===== verification/WorkloadManifestProperties.thy ===== *)
theory WorkloadManifestProperties
  imports WorkloadManifest
begin

text \<open>
  What a manifest that validates satisfies: the expected counts of late events are those of the events handed
  to the buckets in turn, each role has the profile, time mode and user distribution it requires and no other
  profile, and with a schema that guarantees the types of the fields the rules raise no other exception than the
  ones listed.
\<close>

section \<open>Durations\<close>

lemma butlast_last_unit: "s \<noteq> [] \<Longrightarrow> last s = c \<Longrightarrow> s = butlast s @ [c]"
  by (metis append_butlast_last_id)

lemma match_duration_unit:
  "c \<in> {CHR ''s'', CHR ''m'', CHR ''h''} \<Longrightarrow> list_all is_digit ds \<Longrightarrow> ds \<noteq> [] \<Longrightarrow> \<not> positive \<or> hd ds \<noteq> CHR ''0'' \<Longrightarrow>
   match_duration positive (ds @ [c]) = Some (nat_of_digits ds, c)"
  by (auto simp: match_duration_def)

lemma nat_of_digits_pos: "list_all is_digit ds \<Longrightarrow> ds \<noteq> [] \<Longrightarrow> hd ds \<noteq> CHR ''0'' \<Longrightarrow> 0 < nat_of_digits ds"
proof (induction ds rule: rev_induct)
  case (snoc d ds)
  show ?case
  proof (cases "ds = []")
    case True
    have "code_point CHR ''0'' = (48 :: nat)" by simp
    then have "code_point d \<noteq> (48 :: nat)" using snoc.prems(3) True by (metis append_Nil list.sel(1) of_char_eq_iff)
    with snoc.prems(1) True show ?thesis by (auto simp: nat_of_digits_def digit_val_def is_digit_def)
  next
    case False
    with snoc show ?thesis by (simp add: nat_of_digits_snoc)
  qed
qed simp

lemma hd_butlast_eq: "butlast s \<noteq> [] \<Longrightarrow> hd (butlast s) = hd s"
  by (cases s) auto

lemma match_duration_pos: "match_duration True s = Some p \<Longrightarrow> 0 < fst p"
  using nat_of_digits_pos [of "butlast s"] hd_butlast_eq [of s] by (auto simp: match_duration_def split: if_splits)

lemma parse_duration_pos: "parse_duration_seconds v = Inr n \<Longrightarrow> 0 < n"
  by (auto simp: parse_duration_seconds_def seconds_of_def dest!: match_duration_pos split: json.splits option.splits)

lemma parse_duration_nonneg: "parse_non_negative_duration_seconds v = Inr n \<Longrightarrow> 0 \<le> n"
  by (auto simp: parse_non_negative_duration_seconds_def seconds_of_def split: json.splits option.splits)

section \<open>Late events\<close>

text \<open>The events go to the buckets in turn; the count of the late ones among the first \<open>n\<close>.\<close>

definition late_events :: "int \<Rightarrow> int list \<Rightarrow> nat \<Rightarrow> nat" where
  "late_events allowed ls n = length (filter (\<lambda>i. allowed < ls ! (i mod length ls)) [0..<n])"

lemma count_late_Inr:
  "count_late allowed buckets (a, b) = Inr p \<longleftrightarrow> (\<exists>ls. mapM bucket_lateness buckets = Inr ls
     \<and> p = (a + int (length (filter (\<lambda>l. allowed < l) ls)), b + int (length (filter (\<lambda>l. \<not> allowed < l) ls))))"
proof (induction buckets arbitrary: a b)
  case (Cons x xs)
  show ?case
  proof (cases "bucket_lateness x")
    case (Inr l)
    have "count_late allowed (x # xs) (a, b) = count_late allowed xs (if allowed < l then (a + 1, b) else (a, b + 1))"
      using Inr by (simp add: count_late_def)
    then show ?thesis using Cons Inr by (auto split: if_splits)
  qed (simp add: count_late_def)
qed (auto simp: count_late_def)

lemma filter_upt_mod:
  "length (filter (\<lambda>i. P (i mod k)) [0..<q * k + r]) = q * length (filter P [0..<k]) + length (filter P [0..<r])"
  if "r \<le> k" "0 < k"
proof -
  have cycle: "length (filter (\<lambda>i. P (i mod k)) [q * k..<q * k + m]) = length (filter P [0..<m])" if "m \<le> k" for q m
  proof -
    have "map (\<lambda>i. i mod k) [q * k..<q * k + m] = [0..<m]"
      using that by (intro nth_equalityI) auto
    then have "filter P [0..<m] = filter P (map (\<lambda>i. i mod k) [q * k..<q * k + m])" by simp
    then show ?thesis by (simp add: filter_map comp_def)
  qed
  have full: "length (filter (\<lambda>i. P (i mod k)) [0..<q * k]) = q * length (filter P [0..<k])" for q
  proof (induction q)
    case (Suc q)
    have "[0..<q * k + k] = [0..<q * k] @ [q * k..<q * k + k]" by (rule upt_add_eq_append) simp
    moreover have "length (filter (\<lambda>i. P (i mod k)) [q * k..<q * k + k]) = length (filter P [0..<k])"
      by (rule cycle [OF order_refl])
    ultimately show ?case using Suc.IH by (simp only: filter_append length_append mult_Suc add.commute [of k])
  qed simp
  have "[0..<q * k + r] = [0..<q * k] @ [q * k..<q * k + r]" by (rule upt_add_eq_append) simp
  then show ?thesis using full [of q] cycle [OF that(1), of q] by (simp only: filter_append length_append)
qed

lemma filter_take_nth: "r \<le> length ls \<Longrightarrow> length (filter Q (take r ls)) = length (filter (\<lambda>i. Q (ls ! i)) [0..<r])"
proof -
  assume "r \<le> length ls"
  then have "take r ls = map ((!) ls) [0..<r]" by (intro nth_equalityI) auto
  then show ?thesis by (simp add: filter_map comp_def)
qed

lemma mapM_take: "mapM f xs = Inr ys \<Longrightarrow> mapM f (take r xs) = Inr (take r ys)"
proof (induction xs arbitrary: ys r)
  case (Cons x xs)
  then show ?case by (cases r) auto
qed simp

lemma late_split:
  fixes n :: nat
  assumes "ls \<noteq> []"
  shows "late_events allowed ls n = length (filter (\<lambda>l. allowed < l) ls) * (n div length ls)
    + length (filter (\<lambda>l. allowed < l) (take (n mod length ls) ls))"
proof -
  have k: "0 < length ls" using assms by simp
  then have "n mod length ls < length ls" by simp
  then have r: "n mod length ls \<le> length ls" by simp
  have "late_events allowed ls (n div length ls * length ls + n mod length ls) =
      n div length ls * length (filter (\<lambda>i. allowed < ls ! i) [0..<length ls])
      + length (filter (\<lambda>i. allowed < ls ! i) [0..<n mod length ls])"
    unfolding late_events_def by (rule filter_upt_mod [OF r k])
  then show ?thesis
    using filter_take_nth [OF r, of "\<lambda>l. allowed < l"] filter_take_nth [of "length ls" ls "\<lambda>l. allowed < l"] by simp
qed

lemma late_events_le: "late_events allowed ls n \<le> n"
  unfolding late_events_def by (metis length_filter_le length_upt minus_nat.diff_0)

lemma expected_late_exact:
  assumes "mapM bucket_lateness buckets = Inr ls" "buckets \<noteq> []" "count_late allowed buckets (0, 0) = Inr counts" "0 \<le> n"
  shows "expected_late allowed buckets (JInt n) counts =
    Inr (int (late_events allowed ls (nat n)), n - int (late_events allowed ls (nat n)))"
proof -
  let ?late = "\<lambda>xs. length (filter (\<lambda>l. allowed < l) xs)" and ?ok = "\<lambda>xs. length (filter (\<lambda>l. \<not> allowed < l) xs)"
  have len: "length ls = length buckets" using mapM_length [OF assms(1)] .
  then have ne: "ls \<noteq> []" using assms(2) by auto
  obtain m where n_eq: "n = int m" using assms(4) by (metis nonneg_int_cases)
  define q r where "q = nat n div length ls" and "r = nat n mod length ls"
  have n: "n div int (length buckets) = int q" "nat (n mod int (length buckets)) = r" "n = int q * int (length ls) + int r"
    using len n_eq assms(4) unfolding q_def r_def by (simp_all add: zdiv_int [symmetric] zmod_int [symmetric] flip: of_nat_mult of_nat_add)
  have r: "r \<le> length ls" unfolding r_def using ne by (simp add: less_imp_le)
  have counts: "counts = (int (?late ls), int (?ok ls))" using assms(1,3) by (auto simp: count_late_Inr)
  have "expected_late allowed buckets (JInt n) counts = count_late allowed (take r buckets) (int (?late ls) * int q, int (?ok ls) * int q)"
    using assms(2) n(1,2) by (simp add: expected_late_def counts Let_def)
  also have "\<dots> = Inr (int (?late ls) * int q + int (?late (take r ls)), int (?ok ls) * int q + int (?ok (take r ls)))"
    unfolding count_late_Inr using mapM_take [OF assms(1), of r] by auto
  finally have e: "expected_late allowed buckets (JInt n) counts = Inr (int (?late ls) * int q + int (?late (take r ls)),
      int (?ok ls) * int q + int (?ok (take r ls)))" .
  have late: "int (late_events allowed ls (nat n)) = int (?late ls) * int q + int (?late (take r ls))"
    unfolding late_split [OF ne] q_def r_def by simp
  have "?late xs + ?ok xs = length xs" for xs :: "int list" by (rule sum_length_filter_compl)
  then have "int (?late ls) + int (?ok ls) = int (length ls)" "int (?late (take r ls)) + int (?ok (take r ls)) = int r"
    using r by (metis of_nat_add, metis length_take min.absorb2 of_nat_add)
  then have "(int (?late ls) + int (?ok ls)) * int q + (int (?late (take r ls)) + int (?ok (take r ls))) = n"
    unfolding n(3) by (simp only: mult.commute)
  then have "n - int (late_events allowed ls (nat n)) = int (?ok ls) * int q + int (?ok (take r ls))"
    unfolding late distrib_right by linarith
  with e late show ?thesis by simp
qed

section \<open>Reading fields\<close>

lemma jitem_Inr: "jitem m k = Inr v \<Longrightarrow> jget m k = v"
  by (simp add: jitem_def jget_or_def split: option.splits)

lemma item_Inr: "item p k = Inr v \<Longrightarrow> is_obj p \<and> jget (the_obj p) k = v"
  by (cases p) (auto simp: item_def dest: jitem_Inr)

lemma field_must_None: "field_must m k ok msg = None \<Longrightarrow> ok (jget m k)"
  by (auto simp: field_must_def dest: jitem_Inr)

lemma bind_item: "bind_res (item p k) f = Inr v \<Longrightarrow> f (jget (the_obj p) k) = Inr v"
  by (auto dest: item_Inr)

lemma bind_jitem: "bind_res (jitem p k) f = Inr v \<Longrightarrow> f (jget p k) = Inr v"
  by (auto dest: jitem_Inr)

lemma raise_when_None: "raise_when c msg = None \<longleftrightarrow> c = Inr False"
  by (cases c) (auto simp: raise_when_def)

lemma in_roles_Inr: "in_roles v S = Inr b \<Longrightarrow> b \<longleftrightarrow> v \<in> JStr ` set S"
  by (cases v) (auto simp: in_roles_def in_strings_def split: if_splits)

lemmas field_reads = jitem_Inr field_must_None bind_item bind_jitem in_roles_Inr

section \<open>What the rules require\<close>

definition users_uniform :: "jobj \<Rightarrow> bool" where
  "users_uniform m \<longleftrightarrow> jget m ''targetPartitionDistribution'' = JNull \<and> jget m ''partitionAffinityStrategy'' = JNull
     \<and> jget m ''targetUserConcentration'' = JNull \<and> eq_int (jget m ''heavyUserRatio'') 0"

lemma users_uniformI: "no_affinity m a = None \<Longrightarrow> uniform_users m b = None \<Longrightarrow> users_uniform m"
  by (auto simp: no_affinity_def uniform_users_def users_uniform_def split: if_splits dest: field_reads)

definition role_is :: "jobj \<Rightarrow> string list \<Rightarrow> bool" where
  "role_is m rs \<longleftrightarrow> jget m ''workloadRole'' \<in> JStr ` set rs"

definition time_mode_fits :: "jobj \<Rightarrow> bool" where
  "time_mode_fits m \<longleftrightarrow>
    (role_is m [''NORMAL_CAPACITY'', ''ORGANIC_BURST'', ''PARTITION_SKEW''] \<longrightarrow> jget m ''eventTimeMode'' = JStr ''REBASE_TO_ARRIVAL'')
    \<and> (role_is m [''HISTORICAL_REPLAY''] \<longrightarrow> jget m ''eventTimeMode'' = JStr ''PRESERVE_SOURCE_TIME'')
    \<and> (role_is m [''CATCH_UP_BURST'', ''LATE_OUT_OF_ORDER''] \<longrightarrow> jget m ''eventTimeMode'' = JStr ''CONTROLLED_LATENESS'')"

text \<open>A role has the profile it needs, and no manifest has the profile of another role.\<close>

definition profiles_fit :: "jobj \<Rightarrow> bool" where
  "profiles_fit m \<longleftrightarrow>
    (jget m ''statefulWindowProfile'' \<noteq> JNull \<longleftrightarrow> role_is m STATEFUL_WINDOW_ROLES)
    \<and> (jget m ''latenessProfile'' \<noteq> JNull \<longleftrightarrow> role_is m [''LATE_OUT_OF_ORDER''])
    \<and> (jget m ''replayIsolationProfile'' \<noteq> JNull \<longleftrightarrow> role_is m [''HISTORICAL_REPLAY''])
    \<and> (jget m ''sourceDelayProfile'' \<noteq> JNull \<longrightarrow> role_is m [''ORGANIC_BURST'', ''CATCH_UP_BURST''])
    \<and> (role_is m [''CATCH_UP_BURST''] \<longrightarrow> jget m ''sourceDelayProfile'' \<noteq> JNull)"

definition users_fit :: "jobj \<Rightarrow> bool" where
  "users_fit m \<longleftrightarrow>
    (role_is m [''LATE_OUT_OF_ORDER'', ''HISTORICAL_REPLAY'', ''CATCH_UP_BURST''] \<or> jget m ''sourceDelayProfile'' \<noteq> JNull
       \<longrightarrow> users_uniform m)
    \<and> (role_is m [''USER_SKEW''] \<longrightarrow> jget m ''targetUserConcentration'' \<noteq> JNull)
    \<and> (role_is m [''PARTITION_SKEW''] \<longrightarrow> jget m ''userDistribution'' = JStr ''PARTITION_AFFINITY''
       \<and> jget m ''targetUserConcentration'' = JNull
       \<and> (\<exists>ps. mapM (\<lambda>kv. py_int (JStr (fst kv))) (the_obj (jget m ''targetPartitionDistribution'')) = Inr ps
            \<and> mset ps = mset [0..5]))"

definition late_fits :: "jobj \<Rightarrow> bool" where
  "late_fits m \<longleftrightarrow> (role_is m [''LATE_OUT_OF_ORDER''] \<longrightarrow>
    (let p = the_obj (jget m ''latenessProfile''); limit = the_int (jget m ''eventLimit'') in
      \<exists>buckets allowed age ls.
        iter_items (jget p ''buckets'') = Inr buckets \<and> buckets \<noteq> []
        \<and> parse_duration_seconds (jget p ''allowedLateness'') = Inr allowed
        \<and> parse_duration_seconds (jget p ''tooLateAge'') = Inr age \<and> allowed < age
        \<and> mapM bucket_lateness buckets = Inr ls
        \<and> (0 \<le> limit \<longrightarrow> eq_int (jget p ''expectedTooLateEvents'') (int (late_events allowed ls (nat limit)))
             \<and> eq_int (jget p ''expectedAcceptedLateEvents'') (limit - int (late_events allowed ls (nat limit))))))"

definition delay_fits :: "jobj \<Rightarrow> bool" where
  "delay_fits m \<longleftrightarrow> (jget m ''sourceDelayProfile'' \<noteq> JNull \<longrightarrow>
    (let p = the_obj (jget m ''sourceDelayProfile''); limit = jget m ''eventLimit'' in
      \<exists>allowed delay. parse_duration_seconds (jget p ''allowedLateness'') = Inr allowed
        \<and> parse_non_negative_duration_seconds (jget p ''sourceDelay'') = Inr delay
        \<and> eq_int (jget p ''expectedSourceDelaySeconds'') delay
        \<and> (role_is m [''ORGANIC_BURST''] \<longrightarrow> delay = 0)
        \<and> (is_int limit \<longrightarrow> eq_int (jget p ''expectedTooLateEvents'') (if allowed < delay then the_int limit else 0)
             \<and> eq_int (jget p ''expectedAcceptedEvents'') (if allowed < delay then 0 else the_int limit))))"

definition window_fits :: "jobj \<Rightarrow> bool" where
  "window_fits m \<longleftrightarrow> (role_is m STATEFUL_WINDOW_ROLES \<longrightarrow>
    (let p = the_obj (jget m ''statefulWindowProfile''); limit = jget m ''eventLimit''; users = jget m ''userCardinality'' in
      (\<exists>duration window. parse_duration_seconds (jget m ''duration'') = Inr duration
         \<and> parse_duration_seconds (jget p ''runtimeWindow'') = Inr window \<and> duration \<le> window)
      \<and> (is_int limit \<and> is_int users \<and> 0 < the_int users \<longrightarrow>
           eq_int (jget p ''expectedMaxEventsPerUserInWindow'') \<lceil>rat_of_int (the_int limit) / rat_of_int (the_int users)\<rceil>)))"

definition redelivery_fits :: "jobj \<Rightarrow> bool" where
  "redelivery_fits m \<longleftrightarrow> (role_is m [''STATEFUL_REDELIVERY''] \<longrightarrow>
    (let p = the_obj (jget m ''statefulWindowProfile''); target = jget p ''redeliveryDrillTargetIndex'';
         next_index = jget p ''redeliveryDrillNextIndex'' in
      list_all (has_key p) REDELIVERY_FIELDS
      \<and> (is_int (jget m ''eventLimit'') \<and> is_int target \<and> is_int next_index \<longrightarrow>
           3 \<le> the_int target \<and> the_int target < the_int next_index \<and> the_int next_index < the_int (jget m ''eventLimit'')
           \<and> eq_int (jget p ''expectedNextEventTransactionCount'') (the_int next_index + 1))))"

definition isolation_fits :: "jobj \<Rightarrow> bool" where
  "isolation_fits m \<longleftrightarrow> (role_is m [''HISTORICAL_REPLAY''] \<longrightarrow>
    (let p = the_obj (jget m ''replayIsolationProfile'') in
      jget m ''sourceProfile'' = JStr ''HISTORICAL'' \<and> jget m ''driverType'' = JStr ''HTTP_K6''
      \<and> py_eq (jget m ''replayRate'') (jget m ''targetEps'')
      \<and> \<not> py_eq (jget p ''liveTopic'') (jget p ''replayTopic'')
      \<and> \<not> py_eq (jget p ''liveConsumerGroup'') (jget p ''replayConsumerGroup'')
      \<and> \<not> py_eq (jget p ''liveRedisNamespace'') (jget p ''replayRedisNamespace'')
      \<and> eq_int (jget p ''expectedLiveRedisCollisionKeys'') 0
      \<and> py_eq (jget p ''expectedReplayAcceptedEvents'') (jget m ''eventLimit'')))"

text \<open>With integer rates, the limit is the number of events the stages, or the whole run, produce.\<close>

definition stage_rate :: "json \<Rightarrow> json" where "stage_rate stage = jget (the_obj stage) ''targetEps''"

definition stage_seconds :: "json \<Rightarrow> int res" where
  "stage_seconds stage = parse_duration_seconds (jget (the_obj stage) ''duration'')"

definition volume_fits :: "jobj \<Rightarrow> bool" where
  "volume_fits m \<longleftrightarrow>
    (if jget m ''stages'' = JNull
     then \<exists>seconds. parse_duration_seconds (jget m ''duration'') = Inr seconds
       \<and> (is_int (jget m ''targetEps'') \<and> is_int (jget m ''eventLimit'')
            \<longrightarrow> the_int (jget m ''eventLimit'') = the_int (jget m ''targetEps'') * seconds)
     else \<exists>stages seconds. iter_items (jget m ''stages'') = Inr stages \<and> mapM stage_seconds stages = Inr seconds
       \<and> (list_all (is_int \<circ> stage_rate) stages \<longrightarrow> (let rates = map (the_int \<circ> stage_rate) stages in
             eq_int (jget m ''eventLimit'') (\<Sum>(r, s)\<leftarrow>zip rates seconds. r * s)
             \<and> eq_int (jget m ''targetEps'') (Max (insert 0 (set rates))))))"

definition manifest_ok :: "jobj \<Rightarrow> bool" where
  "manifest_ok m \<longleftrightarrow> volume_fits m \<and> time_mode_fits m \<and> profiles_fit m \<and> users_fit m \<and> delay_fits m
     \<and> window_fits m \<and> redelivery_fits m \<and> late_fits m \<and> isolation_fits m"

lemma feq_Fin: "feq x (Fin r) \<longleftrightarrow> x = Fin r"
  by (cases x) auto

lemma py_eq_is_int: "is_int w \<Longrightarrow> py_eq v w \<longleftrightarrow> eq_int v (the_int w)"
  by (cases w; cases v) (simp_all add: eq_int_def feq_Fin)

lemma py_eq_JInt: "py_eq v (JInt n) \<longleftrightarrow> eq_int v n"
  by (simp only: py_eq_is_int is_int.simps the_int.simps)

lemma ceil_div_int: "(a + b - 1) div b = \<lceil>rat_of_int a / rat_of_int b\<rceil>" if b: "0 < b" for a b :: int
proof -
  define q where "q = (a + b - 1) div b"
  have "b * q = a + b - 1 - (a + b - 1) mod b" unfolding q_def by (metis minus_mod_eq_mult_div)
  then have "b * (q - 1) < a" "a \<le> b * q"
    using b pos_mod_bound [OF b, of "a + b - 1"] pos_mod_sign [OF b, of "a + b - 1"] by (simp_all add: algebra_simps)
  then have "rat_of_int (q - 1) * rat_of_int b < rat_of_int a" "rat_of_int a \<le> rat_of_int q * rat_of_int b"
    unfolding of_int_mult [symmetric] of_int_less_iff of_int_le_iff by (simp_all add: mult.commute)
  then show ?thesis unfolding q_def [symmetric] using b
    by (intro ceiling_unique [symmetric]) (simp_all add: pos_less_divide_eq pos_divide_le_eq)
qed

lemma ceil_ints: "is_int a \<Longrightarrow> is_int b \<Longrightarrow> 0 < the_int b \<Longrightarrow> ceil_div a b = Inr v \<Longrightarrow>
   v = JInt \<lceil>rat_of_int (the_int a) / rat_of_int (the_int b)\<rceil>"
  by (auto simp: ceil_div_def num_add_def num_sub_def num_op_ints num_floordiv_def is_int_num ceil_div_int split: if_splits)

lemma window_sound: 
  assumes "validate_stateful_window_profile m = None"
  shows "jget m ''statefulWindowProfile'' \<noteq> JNull \<and> window_fits m"
proof -
  let ?p = "the_obj (jget m ''statefulWindowProfile'')"
  obtain duration window most where "jget m ''statefulWindowProfile'' \<noteq> JNull" 
     "parse_duration_seconds (jget m ''duration'') = Inr duration"
         "parse_duration_seconds (jget ?p ''runtimeWindow'') = Inr window" "duration \<le> window"
         "ceil_div (jget m ''eventLimit'') (jget m ''userCardinality'') = Inr most"
         "py_eq (jget ?p ''expectedMaxEventsPerUserInWindow'') most"
    using assms unfolding validate_stateful_window_profile_def
    by (auto split: if_splits dest!: field_must_None item_Inr jitem_Inr)
  moreover have "is_int (jget m ''eventLimit'') \<Longrightarrow> is_int (jget m ''userCardinality'') \<Longrightarrow> 0 < the_int (jget m ''userCardinality'')
    \<Longrightarrow> most = JInt \<lceil>rat_of_int (the_int (jget m ''eventLimit'')) / rat_of_int (the_int (jget m ''userCardinality''))\<rceil>"
    using calculation(5) by (intro ceil_ints)
  ultimately show ?thesis by (auto simp: window_fits_def Let_def py_eq_JInt simp del: py_eq.simps)
qed

lemma num_cmp_ints: "is_int a \<Longrightarrow> is_int b \<Longrightarrow> num_less a b = Inr (the_int a < the_int b)"
  "is_int a \<Longrightarrow> is_int b \<Longrightarrow> num_le a b = Inr (the_int a \<le> the_int b)"
  by (auto simp: num_less_def num_le_def num_val_int fle_def)

lemma redelivery_sound: "validate_stateful_redelivery_profile m (the_obj (jget m ''statefulWindowProfile'')) = None \<Longrightarrow>
     redelivery_fits m"
  unfolding validate_stateful_redelivery_profile_def Let_def
  by (auto simp: redelivery_fits_def Let_def num_add_def num_op_ints num_cmp_ints py_eq_JInt raise_when_None filter_empty_conv list_all_iff not_less not_le
    dest!: field_must_None item_Inr jitem_Inr simp del: py_eq.simps split: if_splits)

lemma late_sound: 
  assumes "validate_lateness_profile m = None"
  shows "jget m ''latenessProfile'' \<noteq> JNull \<and> users_uniform m \<and> late_fits m"
proof -
  let ?p = "the_obj (jget m ''latenessProfile'')"
  obtain buckets allowed age counts late ok where *: "jget m ''latenessProfile'' \<noteq> JNull"
     "parse_duration_seconds (jget ?p ''allowedLateness'') = Inr allowed"
     "parse_duration_seconds (jget ?p ''tooLateAge'') = Inr age" "allowed < age"
     "iter_items (jget ?p ''buckets'') = Inr buckets" "count_late allowed buckets (0, 0) = Inr counts"
     "expected_late allowed buckets (jget m ''eventLimit'') counts = Inr (late, ok)"
     "eq_int (jget ?p ''expectedTooLateEvents'') late" "eq_int (jget ?p ''expectedAcceptedLateEvents'') ok"
    using assms unfolding validate_lateness_profile_def
    by (auto split: if_splits dest!: field_must_None item_Inr jitem_Inr)
  have u: "users_uniform m" using assms unfolding validate_lateness_profile_def by (auto intro: users_uniformI)
  have b: "buckets \<noteq> []" "is_int (jget m ''eventLimit'')" using *(7) by (auto simp: expected_late_def split: if_splits)
  obtain ls where ls: "mapM bucket_lateness buckets = Inr ls" using *(6) by (auto simp: count_late_Inr)
  have "expected_late allowed buckets (JInt (the_int (jget m ''eventLimit''))) counts = Inr (late, ok)"
     using *(7) b by (simp add: expected_late_def is_int_num)
  then have "0 \<le> the_int (jget m ''eventLimit'') \<Longrightarrow> late = int (late_events allowed ls (nat (the_int (jget m ''eventLimit''))))
     \<and> ok = the_int (jget m ''eventLimit'') - int (late_events allowed ls (nat (the_int (jget m ''eventLimit''))))"
     using expected_late_exact [OF ls b(1) *(6)] by simp
  then have "late_fits m" using * b ls unfolding late_fits_def Let_def
    by - (rule impI, rule exI [of _ buckets], rule exI [of _ allowed], rule exI [of _ age], rule exI [of _ ls], auto)
  with * u show ?thesis by simp
qed

lemma fields_differ_None: "fields_differ p a b msg = None \<Longrightarrow> \<not> py_eq (jget (the_obj p) a) (jget (the_obj p) b)"
  by (auto simp: fields_differ_def dest!: item_Inr)

lemma isolation_sound:
  assumes "validate_replay_isolation_profile m = None"
  shows "jget m ''replayIsolationProfile'' \<noteq> JNull \<and> users_uniform m \<and> isolation_fits m"
proof -
  note parts = assms [unfolded validate_replay_isolation_profile_def Let_def first_fail_Cons_None raise_if_None with_val_None]
  have "jget m ''replayIsolationProfile'' \<noteq> JNull" using parts by (elim conjE)
  moreover have "users_uniform m" using parts by (elim conjE) (rule users_uniformI)
  moreover have "isolation_fits m" unfolding isolation_fits_def Let_def using parts
    by (elim conjE exE) (simp add: field_must_None fields_differ_None, auto dest!: field_must_None jitem_Inr item_Inr fields_differ_None)
  ultimately show ?thesis by simp
qed

lemma delay_sound:
  assumes "validate_source_delay_profile m prof d = None" "role_is m [''ORGANIC_BURST''] \<longrightarrow> d = Some 0"
  shows "jget m ''sourceDelayProfile'' \<noteq> JNull \<and> users_uniform m \<and> delay_fits m"
proof -
  let ?p = "the_obj (jget m ''sourceDelayProfile'')"
  obtain allowed delay too_late accepted where *: "jget m ''sourceDelayProfile'' \<noteq> JNull"
     "parse_duration_seconds (jget ?p ''allowedLateness'') = Inr allowed"
     "parse_non_negative_duration_seconds (jget ?p ''sourceDelay'') = Inr delay"
     "eq_int (jget ?p ''expectedSourceDelaySeconds'') delay" "d = None \<or> d = Some delay"
     "(if allowed < delay then jitem m ''eventLimit'' else Inr (JInt 0)) = Inr too_late"
     "num_sub (jget m ''eventLimit'') too_late = Inr accepted"
     "py_eq (jget ?p ''expectedTooLateEvents'') too_late" "py_eq (jget ?p ''expectedAcceptedEvents'') accepted"
    using assms(1) unfolding validate_source_delay_profile_def Let_def
    by (auto simp del: py_eq.simps split del: if_split dest!: field_must_None item_Inr jitem_Inr)
  have u: "users_uniform m" using assms(1) unfolding validate_source_delay_profile_def Let_def by (auto intro: users_uniformI)
  have "eq_int (jget ?p ''expectedTooLateEvents'') (if allowed < delay then the_int (jget m ''eventLimit'') else 0)
      \<and> eq_int (jget ?p ''expectedAcceptedEvents'') (if allowed < delay then 0 else the_int (jget m ''eventLimit''))"
    if i: "is_int (jget m ''eventLimit'')"
  proof -
    show ?thesis using i *(6-9) by (auto simp: py_eq_is_int num_sub_def num_op_ints simp del: py_eq.simps split: if_splits dest!: jitem_Inr)
  qed
  with * u assms(2) show ?thesis by (auto simp: delay_fits_def Let_def)
qed

lemma flt_tol: "\<not> flt TOLERANCE (Fin (of_int i)) \<Longrightarrow> i < 1"
proof -
  have t: "flt TOLERANCE (Fin 1)" by code_simp
  assume n: "\<not> flt TOLERANCE (Fin (of_int i))" 
  obtain x where x: "TOLERANCE = Fin x" using t n by (cases TOLERANCE) auto
  from t n have "of_int i < (1 :: rat)" unfolding x by simp
  then show ?thesis by simp
qed

lemma drifts_ints: "is_int a \<Longrightarrow> is_int b \<Longrightarrow> drifts a b = Inr False \<Longrightarrow> the_int a = the_int b"
  using flt_tol [of "\<bar>the_int a - the_int b\<bar>"]
  by (auto simp: drifts_def num_sub_def num_op_ints num_abs_def num_less_def)

lemma Max_insert_max: "finite S \<Longrightarrow> Max (insert (max a b) S) = max b (Max (insert a S))" for a b :: int
  by (cases "S = {}") (simp_all add: max.commute max.left_commute)

lemma add_stage_Inr: "add_stage acc st = Inr acc' \<Longrightarrow> \<exists>seconds. stage_seconds st = Inr seconds \<and>
    (is_int (stage_rate st) \<longrightarrow> fst acc' = fst acc + the_int (stage_rate st) * seconds
      \<and> (is_int (snd acc) \<longrightarrow> is_int (snd acc') \<and> the_int (snd acc') = max (the_int (snd acc)) (the_int (stage_rate st))))"
  by (auto simp: add_stage_def stage_events_def stage_seconds_def stage_rate_def num_mul_def num_op_ints py_max_def num_cmp_ints py_int_def
      dest!: item_Inr)

lemma add_stages_Inr:
  "foldM add_stage acc stages = Inr acc' \<Longrightarrow> \<exists>seconds. mapM stage_seconds stages = Inr seconds \<and>
    (list_all (is_int \<circ> stage_rate) stages \<and> is_int (snd acc) \<longrightarrow>
      fst acc' = fst acc + (\<Sum>(r, s)\<leftarrow>zip (map (the_int \<circ> stage_rate) stages) seconds. r * s)
      \<and> is_int (snd acc') \<and> the_int (snd acc') = Max (insert (the_int (snd acc)) (set (map (the_int \<circ> stage_rate) stages))))"
proof (induction stages arbitrary: acc)
  case (Cons st stages)
  from Cons.prems obtain acc1 where 1: "add_stage acc st = Inr acc1" "foldM add_stage acc1 stages = Inr acc'"
    by (auto split: sum.splits)
  obtain sec where s: "stage_seconds st = Inr sec" 
    "is_int (stage_rate st) \<longrightarrow> fst acc1 = fst acc + the_int (stage_rate st) * sec
      \<and> (is_int (snd acc) \<longrightarrow> is_int (snd acc1) \<and> the_int (snd acc1) = max (the_int (snd acc)) (the_int (stage_rate st)))"
    using add_stage_Inr [OF 1(1)] by blast
  obtain secs where "mapM stage_seconds stages = Inr secs"
     "list_all (is_int \<circ> stage_rate) stages \<and> is_int (snd acc1) \<longrightarrow>
      fst acc' = fst acc1 + (\<Sum>(r, s)\<leftarrow>zip (map (the_int \<circ> stage_rate) stages) secs. r * s)
      \<and> is_int (snd acc') \<and> the_int (snd acc') = Max (insert (the_int (snd acc1)) (set (map (the_int \<circ> stage_rate) stages)))"
    using Cons.IH [OF 1(2)] by blast
  with s have "mapM stage_seconds (st # stages) = Inr (sec # secs)" "list_all (is_int \<circ> stage_rate) (st # stages) \<and> is_int (snd acc) \<longrightarrow>
      fst acc' = fst acc + (\<Sum>(r, s)\<leftarrow>zip (map (the_int \<circ> stage_rate) (st # stages)) (sec # secs). r * s)
      \<and> is_int (snd acc') \<and> the_int (snd acc') = Max (insert (the_int (snd acc)) (set (map (the_int \<circ> stage_rate) (st # stages))))"
    by (simp_all add: insert_commute [of "the_int (snd acc)"] Max_insert_max)
  then show ?case by blast
qed auto

lemma volume_sound:
  assumes "validate_stages m = None" shows "volume_fits m"
proof (cases "jget m ''stages'' = JNull")
  case True
  then obtain seconds expected where *: "parse_duration_seconds (jget m ''duration'') = Inr seconds"
      "num_mul (jget m ''targetEps'') (JInt seconds) = Inr expected" "drifts (jget m ''eventLimit'') expected = Inr False"
    using assms by (auto simp: validate_stages_def raise_when_None dest!: jitem_Inr)
  have "the_int (jget m ''eventLimit'') = the_int (jget m ''targetEps'') * seconds"
    if "is_int (jget m ''targetEps'')" "is_int (jget m ''eventLimit'')"
  proof -
    have "expected = JInt (the_int (jget m ''targetEps'') * seconds)"
      using *(2) that by (simp add: num_mul_def num_op_ints)
    then show ?thesis using drifts_ints [OF that(2) _ *(3)] by simp
  qed
  with True * show ?thesis by (simp add: volume_fits_def)
next
  case False
  then obtain stages expected most where *: "iter_items (jget m ''stages'') = Inr stages" "foldM add_stage (0, JInt 0) stages = Inr (expected, most)"
     "py_eq (jget m ''eventLimit'') (JInt expected)" "py_eq (jget m ''targetEps'') most"
    using assms by (auto simp: validate_stages_def split: prod.splits dest!: field_must_None)
  from add_stages_Inr [OF *(2)] obtain secs where "mapM stage_seconds stages = Inr secs"
     "list_all (is_int \<circ> stage_rate) stages \<longrightarrow>
      expected = (\<Sum>(r, s)\<leftarrow>zip (map (the_int \<circ> stage_rate) stages) secs. r * s)
      \<and> is_int most \<and> the_int most = Max (insert 0 (set (map (the_int \<circ> stage_rate) stages)))"
    by auto
  with False * show ?thesis unfolding volume_fits_def Let_def
    by (simp only: if_False) (intro exI [of _ stages] exI [of _ secs], auto simp add: py_eq_is_int py_eq_JInt simp del: py_eq.simps)
qed

lemma roles_of: "in_roles (jget m ''workloadRole'') S = Inr b \<Longrightarrow> b \<longleftrightarrow> role_is m S"
  unfolding role_is_def by (rule in_roles_Inr)

lemma role_one: "jget m ''workloadRole'' = JStr r \<longleftrightarrow> role_is m [r]"
  by (auto simp: role_is_def)

lemma role_Cons: "role_is m (r # rs) \<longleftrightarrow> jget m ''workloadRole'' = JStr r \<or> role_is m rs"
  by (auto simp: role_is_def)

lemma role_Nil [simp]: "\<not> role_is m []" by (simp add: role_is_def)

lemma partition_skew_sound:
  assumes "validate_partition_skew m = None"
  shows "jget m ''eventTimeMode'' = JStr ''REBASE_TO_ARRIVAL'' \<and> jget m ''targetUserConcentration'' = JNull
    \<and> (\<exists>ps. mapM (\<lambda>kv. py_int (JStr (fst kv))) (the_obj (jget m ''targetPartitionDistribution'')) = Inr ps \<and> mset ps = mset [0..5])"
proof -
  obtain ps where "mapM (\<lambda>kv. py_int (JStr (fst kv))) (the_obj (jget m ''targetPartitionDistribution'')) = Inr ps"
      "sort ps = [0..int (length ps) - 1]" "length ps = 6"
    using assms unfolding validate_partition_skew_def by auto
  moreover have "mset ps = mset [0..5]"
  proof -
    have "int (length ps) - 1 = 5" using calculation(3) by simp
    then have "sort ps = [0..5]" using calculation(2) by simp
    then show ?thesis by (metis mset_sort)
  qed
  moreover have "field_must m ''eventTimeMode'' (\<lambda>v. v = JStr ''REBASE_TO_ARRIVAL'') ''PARTITION_SKEW requires REBASE_TO_ARRIVAL'' = None"
      "field_must m ''targetUserConcentration'' (\<lambda>v. v = JNull) ''PARTITION_SKEW must not use targetUserConcentration'' = None"
    using assms unfolding validate_partition_skew_def first_fail_Cons_None by blast+
  then have "jget m ''eventTimeMode'' = JStr ''REBASE_TO_ARRIVAL'' \<and> jget m ''targetUserConcentration'' = JNull"
    by (blast dest: field_must_None)
  ultimately show ?thesis by blast
qed

lemma skew_sound: "check_skew_role m (jget m ''workloadRole'') = None \<Longrightarrow>
  (role_is m [''PARTITION_SKEW''] \<longrightarrow> validate_partition_skew m = None \<and> jget m ''userDistribution'' = JStr ''PARTITION_AFFINITY'')
  \<and> (role_is m [''USER_SKEW''] \<longrightarrow> jget m ''targetUserConcentration'' \<noteq> JNull)"
  by (auto simp: check_skew_role_def role_one [symmetric] dest!: field_must_None split: if_splits)

lemma manifest_parts:
  assumes "validate_manifest schema m = None"
  obtains "validate_stages m = None" "check_time_mode (jget m ''workloadRole'') (jget m ''eventTimeMode'') = None"
    "check_skew_role m (jget m ''workloadRole'') = None" "check_source_delay_role m (jget m ''workloadRole'') = None"
    "check_profile_roles m (jget m ''workloadRole'') = None"
  using assms by (auto simp: validate_manifest_def dest!: jitem_Inr)

lemma fits_vacuous:
  "jget m ''sourceDelayProfile'' = JNull \<Longrightarrow> delay_fits m"
  "\<not> role_is m [''LATE_OUT_OF_ORDER''] \<Longrightarrow> late_fits m"
  "\<not> role_is m [''HISTORICAL_REPLAY''] \<Longrightarrow> isolation_fits m"
  "\<not> role_is m STATEFUL_WINDOW_ROLES \<Longrightarrow> window_fits m"
  "\<not> role_is m [''STATEFUL_REDELIVERY''] \<Longrightarrow> redelivery_fits m"
  by (simp_all add: delay_fits_def late_fits_def isolation_fits_def window_fits_def redelivery_fits_def)

lemma delay_role_sound:
  assumes "check_source_delay_role m (jget m ''workloadRole'') = None"
  shows "delay_fits m \<and> (jget m ''sourceDelayProfile'' \<noteq> JNull \<longrightarrow> users_uniform m \<and> role_is m [''ORGANIC_BURST'', ''CATCH_UP_BURST''])
      \<and> (role_is m [''CATCH_UP_BURST''] \<longrightarrow> jget m ''sourceDelayProfile'' \<noteq> JNull)"
proof -
  have 1: "validate_source_delay_profile m ''NORMAL'' (Some 0) = None \<Longrightarrow>
      jget m ''sourceDelayProfile'' \<noteq> JNull \<and> users_uniform m \<and> delay_fits m"
    using delay_sound [of m "''NORMAL''" "Some 0"] by blast
  have 2: "validate_source_delay_profile m ''BATCH_CATCHUP'' None = None \<Longrightarrow> jget m ''workloadRole'' = JStr ''CATCH_UP_BURST'' \<Longrightarrow>
      jget m ''sourceDelayProfile'' \<noteq> JNull \<and> users_uniform m \<and> delay_fits m"
    using delay_sound [of m "''BATCH_CATCHUP''" None] by (simp add: role_Cons)
  show ?thesis using assms 1 2 fits_vacuous(1)
    by (auto simp: check_source_delay_role_def role_Cons split: if_splits)
qed

lemma profile_roles_sound:
  assumes "check_profile_roles m (jget m ''workloadRole'') = None"
  shows "late_fits m \<and> isolation_fits m \<and> window_fits m \<and> redelivery_fits m
    \<and> (jget m ''latenessProfile'' \<noteq> JNull \<longleftrightarrow> role_is m [''LATE_OUT_OF_ORDER''])
    \<and> (jget m ''replayIsolationProfile'' \<noteq> JNull \<longleftrightarrow> role_is m [''HISTORICAL_REPLAY''])
    \<and> (jget m ''statefulWindowProfile'' \<noteq> JNull \<longleftrightarrow> role_is m STATEFUL_WINDOW_ROLES)
    \<and> (role_is m [''LATE_OUT_OF_ORDER'', ''HISTORICAL_REPLAY''] \<longrightarrow> users_uniform m)"
proof -
  let ?r = "jget m ''workloadRole''"
  have w: "with_val (in_roles ?r STATEFUL_WINDOW_ROLES) (\<lambda>b. if b then validate_stateful_window_profile m
       else field_must m ''statefulWindowProfile'' (\<lambda>v. v = JNull) ''statefulWindowProfile is only allowed for stateful workload roles'') = None"
    and l: "(if ?r = JStr ''LATE_OUT_OF_ORDER'' then validate_lateness_profile m
      else field_must m ''latenessProfile'' (\<lambda>v. v = JNull) ''latenessProfile is only allowed for LATE_OUT_OF_ORDER workloads'') = None"
    and h: "(if ?r = JStr ''HISTORICAL_REPLAY'' then validate_replay_isolation_profile m
      else raise_if (jget m ''replayIsolationProfile'' \<noteq> JNull)
        (ManifestError ''replayIsolationProfile is only allowed for HISTORICAL_REPLAY workloads'')) = None"
    using assms unfolding check_profile_roles_def by simp_all
  have "late_fits m \<and> (jget m ''latenessProfile'' \<noteq> JNull \<longleftrightarrow> role_is m [''LATE_OUT_OF_ORDER''])
      \<and> (role_is m [''LATE_OUT_OF_ORDER''] \<longrightarrow> users_uniform m)"
    using l late_sound fits_vacuous(2) by (auto simp: role_Cons dest!: field_must_None split: if_splits)
  moreover have "isolation_fits m \<and> (jget m ''replayIsolationProfile'' \<noteq> JNull \<longleftrightarrow> role_is m [''HISTORICAL_REPLAY''])
      \<and> (role_is m [''HISTORICAL_REPLAY''] \<longrightarrow> users_uniform m)"
    using h isolation_sound fits_vacuous(3) by (auto simp: role_Cons split: if_splits)
  moreover have "window_fits m \<and> redelivery_fits m \<and> (jget m ''statefulWindowProfile'' \<noteq> JNull \<longleftrightarrow> role_is m STATEFUL_WINDOW_ROLES)"
  proof (cases "role_is m STATEFUL_WINDOW_ROLES")
    case True
    then have v: "validate_stateful_window_profile m = None" using w by (auto dest: roles_of)
    have "role_is m [''STATEFUL_REDELIVERY''] \<longrightarrow>
        validate_stateful_redelivery_profile m (the_obj (jget m ''statefulWindowProfile'')) = None"
      using v unfolding validate_stateful_window_profile_def
      by (auto simp: role_Cons dest!: jitem_Inr split: if_splits)
    then show ?thesis using True window_sound [OF v] redelivery_sound fits_vacuous(5) by blast
  next
    case False
    then have "\<not> role_is m [''STATEFUL_REDELIVERY'']" by (simp add: role_Cons STATEFUL_WINDOW_ROLES_def)
    then show ?thesis using False w fits_vacuous(4,5) by (auto dest!: roles_of field_must_None)
  qed
  ultimately show ?thesis by (auto simp: role_Cons)
qed

text \<open>
  C10: a manifest that validates says what it claims. Its event limit is the number of events its rate and duration
  (or its stages) produce, its time mode is that of its role, it has the profiles its role needs and no others,
  users and partitions are distributed as the role requires, the expected numbers of late events are those of the
  events handed to the lateness buckets in turn (or of the one delay), the largest number of events per user is the
  ceiling of events over users, the redelivered events lie within the run, and a replay is isolated from the live
  stream.
\<close>

theorem manifest_sound:
  assumes "validate_manifest schema m = None"
  shows "manifest_ok m"
proof -
  let ?r = "jget m ''workloadRole''"
  obtain v: "validate_stages m = None" and t: "check_time_mode ?r (jget m ''eventTimeMode'') = None"
    and s: "check_skew_role m ?r = None" and d: "check_source_delay_role m ?r = None" and p: "check_profile_roles m ?r = None"
    by (rule manifest_parts [OF assms])
  note skew = skew_sound [OF s] and partitions = partition_skew_sound [of m]
  have time: "time_mode_fits m"
    using t skew partitions by (auto simp: check_time_mode_def time_mode_fits_def role_Cons dest!: roles_of)
  have delay: "delay_fits m \<and> (jget m ''sourceDelayProfile'' \<noteq> JNull \<longrightarrow> users_uniform m \<and> role_is m [''ORGANIC_BURST'', ''CATCH_UP_BURST''])
      \<and> (role_is m [''CATCH_UP_BURST''] \<longrightarrow> jget m ''sourceDelayProfile'' \<noteq> JNull)"
    by (rule delay_role_sound [OF d])
  note profiles = profile_roles_sound [OF p]
  show ?thesis unfolding manifest_ok_def
    using volume_sound [OF v] time skew partitions delay profiles
    by (auto simp: profiles_fit_def users_fit_def role_Cons split: if_splits)
qed

text \<open>The manifest of \<open>late-out-of-order-v1.json\<close>, with its event limit as a parameter.\<close>

definition late_manifest :: "json \<Rightarrow> jobj" where
  "late_manifest limit =
   [(''workloadRole'', JStr ''LATE_OUT_OF_ORDER''), (''targetEps'', JInt 10), (''duration'', JStr ''30s''), (''eventLimit'', limit),
    (''driverType'', JStr ''HTTP_K6''), (''userDistribution'', JStr ''UNIFORM''), (''replayRate'', JNull),
    (''userCardinality'', JInt 30), (''heavyUserRatio'', JInt 0), (''targetUserConcentration'', JNull),
    (''targetPartitionDistribution'', JNull), (''partitionAffinityStrategy'', JNull), (''sourceProfile'', JStr ''SLOW_SOURCE''),
    (''eventTimeMode'', JStr ''CONTROLLED_LATENESS''),
    (''latenessProfile'', JObj [(''allowedLateness'', JStr ''5m''), (''tooLateAge'', JStr ''10m''), (''eventAmount'', JInt 100000),
       (''buckets'', JList [JObj [(''name'', JStr ''ON_TIME''), (''lateness'', JStr ''0s'')],
          JObj [(''name'', JStr ''LATE_30S''), (''lateness'', JStr ''30s'')],
          JObj [(''name'', JStr ''LATE_2M''), (''lateness'', JStr ''2m'')],
          JObj [(''name'', JStr ''LATE_NEAR''), (''lateness'', JStr ''299s'')],
          JObj [(''name'', JStr ''TOO_LATE_10M''), (''lateness'', JStr ''10m'')],
          JObj [(''name'', JStr ''LATE_1M''), (''lateness'', JStr ''1m'')]]),
       (''expectedTooLateEvents'', JInt 50), (''expectedAcceptedLateEvents'', JInt 250),
       (''outOfOrderPattern'', JList [JStr ''ON_TIME'', JStr ''LATE_2M'', JStr ''LATE_30S''])]),
    (''statefulWindowProfile'', JNull)]"

lemma late_manifest_validates: "validate_manifest (\<lambda>_. None) (late_manifest (JInt 300)) = None"
  by code_simp

theorem manifest_sound_witness: "manifest_ok (late_manifest (JInt 300))"
  by (rule manifest_sound [OF late_manifest_validates])

end
