(* ===== verification/WorkloadManifestTypes.thy ===== *)
theory WorkloadManifestTypes
  imports WorkloadManifestProperties
begin

text \<open>
  What the JSON schema of the manifests (\<open>load-test/workloads/v3/workload-manifest.schema.json\<close>) says of the types
  of the fields, and the exceptions that are left once a manifest has passed it: besides \<open>ManifestError\<close> only
  those of arithmetic on extreme numbers and, for late events, of an event limit written as a \<open>float\<close>.
\<close>

section \<open>The schema\<close>

text \<open>The types \<open>"number"\<close> and \<open>"integer"\<close> of JSON Schema: a \<open>float\<close> without fraction is an integer.\<close>

definition number :: "json \<Rightarrow> bool" where
  "number v \<longleftrightarrow> is_num v \<and> \<not> is_bool v"

definition integer :: "json \<Rightarrow> bool" where
  "integer v \<longleftrightarrow> (case v of JInt i \<Rightarrow> True | JFloat (Fin r) \<Rightarrow> of_int \<lfloor>r\<rfloor> = r | _ \<Rightarrow> False)"

definition at_least :: "int \<Rightarrow> json \<Rightarrow> bool" where
  "at_least n v \<longleftrightarrow> (case num_val v of Some x \<Rightarrow> \<not> flt x (Fin (of_int n)) | None \<Rightarrow> False)"

definition or_null :: "(json \<Rightarrow> bool) \<Rightarrow> json \<Rightarrow> bool" where
  "or_null P v \<longleftrightarrow> v = JNull \<or> P v"

definition obj_with :: "(string \<times> (json \<Rightarrow> bool)) list \<Rightarrow> json \<Rightarrow> bool" where
  "obj_with fs v \<longleftrightarrow> is_obj v \<and> list_all (\<lambda>(k, P). has_key (the_obj v) k \<and> P (jget (the_obj v) k)) fs"

definition optional :: "(string \<times> (json \<Rightarrow> bool)) list \<Rightarrow> json \<Rightarrow> bool" where
  "optional fs v \<longleftrightarrow> list_all (\<lambda>(k, P). has_key (the_obj v) k \<longrightarrow> P (jget (the_obj v) k)) fs"

text \<open>A name that the pattern \<open>^[0-9]+$\<close> is found in: \<open>$\<close> also matches before a final newline.\<close>

definition digits_key :: "string \<Rightarrow> bool" where
  "digits_key k \<longleftrightarrow> (let ds = (if k \<noteq> [] \<and> code_point (last k) = 10 then butlast k else k) in
     ds \<noteq> [] \<and> list_all is_digit ds)"

definition lateness_schema :: "json \<Rightarrow> bool" where
  "lateness_schema v \<longleftrightarrow> obj_with [(''allowedLateness'', is_str), (''tooLateAge'', is_str), (''eventAmount'', number),
      (''buckets'', \<lambda>b. is_list b \<and> 2 \<le> length (the_list b)
          \<and> list_all (obj_with [(''name'', is_str), (''lateness'', is_str)]) (the_list b)),
      (''expectedTooLateEvents'', integer), (''expectedAcceptedLateEvents'', integer)] v
    \<and> optional [(''outOfOrderPattern'', or_null (\<lambda>p. is_list p \<and> list_all is_str (the_list p)))] v"

definition delay_schema :: "json \<Rightarrow> bool" where
  "delay_schema = obj_with [(''allowedLateness'', is_str), (''sourceDelay'', is_str), (''eventAmount'', number),
     (''expectedSourceDelaySeconds'', integer), (''expectedAcceptedEvents'', integer), (''expectedTooLateEvents'', integer)]"

definition isolation_schema :: "json \<Rightarrow> bool" where
  "isolation_schema = obj_with [(''liveTopic'', is_str), (''replayTopic'', is_str), (''liveConsumerGroup'', is_str),
     (''replayConsumerGroup'', is_str), (''liveRedisNamespace'', is_str), (''replayRedisNamespace'', is_str),
     (''historicalAge'', is_str), (''eventAmount'', number), (''expectedLiveRedisCollisionKeys'', integer),
     (''expectedReplayAcceptedEvents'', integer)]"

definition window_schema :: "json \<Rightarrow> bool" where
  "window_schema v \<longleftrightarrow> obj_with [(''runtimeWindow'', is_str), (''expectedEventsPerUserInWindow'', number),
     (''expectedMaxEventsPerUserInWindow'', number), (''eventAmount'', number), (''expectedAmountSumPerUserInWindow'', number)] v
    \<and> optional [(''redeliveryDrillTargetIndex'', integer), (''redeliveryDrillNextIndex'', integer),
     (''expectedNextEventTransactionCount'', integer), (''expectedNextEventAmountSum'', number)] v"

definition stage_schema :: "json \<Rightarrow> bool" where
  "stage_schema = obj_with [(''name'', is_str), (''targetEps'', number), (''duration'', is_str)]"

definition manifest_schema :: "jobj \<Rightarrow> bool" where
  "manifest_schema m \<longleftrightarrow>
    obj_with [(''workloadRole'', is_str), (''driverType'', is_str), (''targetEps'', number), (''duration'', is_str),
      (''eventLimit'', \<lambda>v. integer v \<and> at_least 1 v), (''userCardinality'', \<lambda>v. integer v \<and> at_least 1 v),
      (''userDistribution'', is_str), (''heavyUserRatio'', number), (''targetUserConcentration'', or_null is_obj),
      (''targetPartitionDistribution'', or_null (\<lambda>d. is_obj d \<and> list_all (\<lambda>(k, v). digits_key k \<and> number v) (the_obj d))),
      (''partitionAffinityStrategy'', or_null is_str), (''sourceProfile'', is_str), (''eventTimeMode'', is_str),
      (''latenessProfile'', or_null lateness_schema), (''replayRate'', or_null number),
      (''statefulWindowProfile'', or_null window_schema)] (JObj m)
    \<and> optional [(''sourceDelayProfile'', or_null delay_schema), (''replayIsolationProfile'', or_null isolation_schema),
      (''stages'', or_null (\<lambda>s. is_list s \<and> list_all stage_schema (the_list s)))] (JObj m)"

section \<open>Arithmetic on numbers\<close>

lemma as_float_Inl: "is_num v \<Longrightarrow> as_float v = Inl e \<Longrightarrow> e = OverflowError"
  by (cases v) (auto simp: as_float_def py_float_def float_of_int_def Let_def split: if_splits)

lemma num_op_Inl: "is_num a \<Longrightarrow> is_num b \<Longrightarrow> num_op f g a b = Inl e \<Longrightarrow> e = OverflowError"
  by (auto simp: num_op_def bind_res_Inl dest: as_float_Inl split: if_splits)

lemma num_op_Inr: "num_op f g a b = Inr v \<Longrightarrow> is_num v"
  by (auto simp: num_op_def split: if_splits)

lemma drifts_Inl: "is_num a \<Longrightarrow> is_num b \<Longrightarrow> drifts a b = Inl e \<Longrightarrow> e = OverflowError"
proof -
  assume "is_num a" "is_num b" and d: "drifts a b = Inl e"
  have "num_abs v = Inl e \<Longrightarrow> False" "num_abs v = Inr w \<Longrightarrow> is_num w" if "is_num v" for v w e
    using that by (cases v; auto simp: num_abs_def)+
  moreover have "num_less (JFloat x) v = Inl e \<Longrightarrow> is_num v \<Longrightarrow> False" for x v e
    by (auto simp: num_less_def is_num_def split: option.splits)
  ultimately show ?thesis using d num_op_Inl [OF \<open>is_num a\<close> \<open>is_num b\<close>] num_op_Inr
    unfolding drifts_def bind_res_Inl num_sub_def by blast
qed

lemma at_least_float: "at_least 1 v \<Longrightarrow> is_num v \<Longrightarrow> as_float v = Inr y \<Longrightarrow> y \<noteq> Fin 0"
proof (cases v)
  case (JInt i)
  assume a: "at_least 1 v" "as_float v = Inr y"
  have "1 \<le> i" using a(1) JInt by (simp add: at_least_def)
  then have "1 \<le> (of_int i :: rat)" by simp
  then show ?thesis using a(2) JInt to_double_fin_mono [of 1 1 "of_int i"] to_double_nat [of 1]
    by (auto simp: as_float_def py_float_def float_of_int_def Let_def split: if_splits)
qed (auto simp: at_least_def as_float_def py_float_def)

lemma num_div_Inl: "is_num a \<Longrightarrow> is_num b \<Longrightarrow> at_least 1 b \<Longrightarrow> num_div a b = Inl e \<Longrightarrow> e = OverflowError"
proof -
  assume n: "is_num a" "is_num b" "at_least 1 b" "num_div a b = Inl e"
  have "is_int b \<Longrightarrow> the_int b \<noteq> 0" using n(3) by (cases b) (auto simp: at_least_def)
  moreover have "fdiv x y = Inl e \<Longrightarrow> y = Fin 0" for x y e
    by (cases y) (auto split: pyfloat.splits if_splits)
  ultimately show ?thesis using n at_least_float [OF n(3,2)]
    by (auto simp: num_div_def bind_res_Inl true_div_def Let_def dest: as_float_Inl split: if_splits)
qed

lemma num_floordiv_Inl: "is_num a \<Longrightarrow> is_num b \<Longrightarrow> at_least 1 b \<Longrightarrow> num_floordiv a b = Inl e \<Longrightarrow> e = OverflowError"
proof -
  assume n: "is_num a" "is_num b" "at_least 1 b" "num_floordiv a b = Inl e"
  have "is_int b \<Longrightarrow> the_int b \<noteq> 0" using n(3) by (cases b) (auto simp: at_least_def)
  moreover have "float_floordiv x y = Inl e \<Longrightarrow> y = Fin 0" for x y e
    by (cases y) (auto simp: float_floordiv_def Let_def split: pyfloat.splits if_splits)
  ultimately show ?thesis using n at_least_float [OF n(3,2)]
    by (auto simp: num_floordiv_def bind_res_Inl dest: as_float_Inl split: if_splits)
qed

lemma ceil_div_Inl: "is_num a \<Longrightarrow> is_num b \<Longrightarrow> at_least 1 b \<Longrightarrow> ceil_div a b = Inl e \<Longrightarrow> e = OverflowError"
  unfolding ceil_div_def num_add_def num_sub_def bind_res_Inl
  using num_op_Inl num_op_Inr num_floordiv_Inl is_num_int(1) by blast

lemma digits_key_int: "digits_key k \<Longrightarrow> \<exists>i. py_int (JStr k) = Inr i"
proof -
  assume k: "digits_key k"
  define ds where "ds = (if k \<noteq> [] \<and> code_point (last k) = 10 then butlast k else k)"
  have ds: "ds \<noteq> []" "list_all is_digit ds" using k by (simp_all add: digits_key_def ds_def Let_def)
  have dig: "\<not> is_ascii_space c" "is_ascii c" "c \<noteq> CHR ''_''" "c \<noteq> CHR ''-''" "c \<noteq> CHR ''+''" if "is_digit c" for c
    using that by (auto simp: is_digit_def is_ascii_space_def is_ascii_def)
  have trim: "dropWhile is_ascii_space xs = xs" if "list_all is_digit xs" for xs
    using that dig(1) by (cases xs) auto
  obtain c cs where c: "ds = c # cs" using ds(1) by (cases ds) auto
  then have trim_nl: "dropWhile is_ascii_space (ds @ xs) = ds @ xs" for xs using ds(2) dig(1) by simp
  have rev: "list_all is_digit (rev ds)" using ds(2) by simp
  have ascii: "list_all is_ascii ds" using ds(2) dig(2) by (auto simp: list_all_iff)
  have nl: "is_ascii CHR 0x0A" "is_ascii_space CHR 0x0A" by (simp_all add: is_ascii_def is_ascii_space_def)
  have "k = ds \<or> k = ds @ [CHR 0x0A]"
  proof (cases "k \<noteq> [] \<and> code_point (last k) = 10")
    case True
    have "code_point CHR 0x0A = (10 :: nat)" by simp
    with True have "last k = CHR 0x0A" by (metis of_char_eq_iff)
    with True show ?thesis by (simp add: ds_def) (metis append_butlast_last_id)
  qed (auto simp: ds_def)
  then have strip: "num_strip k = ds"
    using ascii nl trim [OF ds(2)] trim [OF rev] by (elim disjE) (simp_all add: num_strip_def Let_def trim_nl)
  have sign: "split_sign ds = (False, ds)" using dig(4,5) [of c] ds(2) c by (simp add: split_sign_def)
  have drop: "drop_underscores ds = ds" using ds(2) dig(3) by (auto simp: drop_underscores_def list_all_iff filter_id_conv)
  have "underscores_ok ds" using ds(2) dig(3) by (auto simp: underscores_ok_def list_all_length)
  then show ?thesis using ds by (simp add: py_int_def int_of_str_def strip sign drop)
qed

section \<open>Fields\<close>

lemma jitem_has: "has_key m k \<Longrightarrow> jitem m k = Inr (jget m k)"
  by (auto simp: has_key_iff jitem_def jget_or_def split: option.splits)

lemma obj_withD: "obj_with fs v \<Longrightarrow> (k, P) \<in> set fs \<Longrightarrow> is_obj v \<and> jitem (the_obj v) k = Inr (jget (the_obj v) k) \<and> P (jget (the_obj v) k)"
  by (auto simp: obj_with_def list_all_iff jitem_has)

lemma obj_item: "obj_with fs v \<Longrightarrow> (k, P) \<in> set fs \<Longrightarrow> item v k = Inr (jget (the_obj v) k)"
  using obj_withD [of fs v k P] by (cases v) (auto simp: item_def)

lemma item_has: "is_obj v \<Longrightarrow> has_key (the_obj v) k \<Longrightarrow> item v k = Inr (jget (the_obj v) k)"
  by (cases v) (auto simp: item_def jitem_has)

lemma optionalD: "optional fs v \<Longrightarrow> (k, P) \<in> set fs \<Longrightarrow> jget (the_obj v) k \<noteq> JNull \<Longrightarrow> P (jget (the_obj v) k)"
  by (cases "has_key (the_obj v) k") (auto simp: optional_def list_all_iff jget_or_default)

lemma parse_duration_Inl: "is_str v \<Longrightarrow> parse_duration_seconds v = Inl e \<Longrightarrow> \<exists>s. e = ManifestError s"
  "is_str v \<Longrightarrow> parse_non_negative_duration_seconds v = Inl e \<Longrightarrow> \<exists>s. e = ManifestError s"
  by (auto simp: parse_duration_seconds_def parse_non_negative_duration_seconds_def split: json.splits option.splits)

lemma in_roles_str: "is_str v \<Longrightarrow> \<exists>b. in_roles v S = Inr b"
  by (cases v) (auto simp: in_roles_def)

section \<open>What can be raised\<close>

text \<open>The exceptions of a manifest that has passed the schema.\<close>

definition manifest_exn :: "jobj \<Rightarrow> exn \<Rightarrow> bool" where
  "manifest_exn m e \<longleftrightarrow> (case e of
     ManifestError _ \<Rightarrow> True
   | OverflowError \<Rightarrow> True
   | ValueError _ \<Rightarrow> (\<exists>stage \<in> set (the_list (jget m ''stages'')). stage_rate stage = JFloat NaN)
   | TypeError \<Rightarrow> role_is m [''LATE_OUT_OF_ORDER''] \<and> \<not> is_int (jget m ''eventLimit'')
   | _ \<Rightarrow> False)"

lemma manifest_exn_simps [simp]: "manifest_exn m (ManifestError s)" "manifest_exn m OverflowError"
  by (simp_all add: manifest_exn_def)

lemma field_must_pred: "jitem m k = Inr v \<Longrightarrow> pred_option (manifest_exn m') (field_must m k ok msg)"
  by (simp add: field_must_def)

lemma raise_when_pred: "(\<And>e. c = Inl e \<Longrightarrow> manifest_exn m e) \<Longrightarrow> pred_option (manifest_exn m) (raise_when c msg)"
  by (auto simp: raise_when_def)

lemma manifest_fields:
  assumes "manifest_schema m"
  shows "jitem m ''workloadRole'' = Inr (jget m ''workloadRole'')" "is_str (jget m ''workloadRole'')"
    "jitem m ''driverType'' = Inr (jget m ''driverType'')"
    "jitem m ''targetEps'' = Inr (jget m ''targetEps'')" "number (jget m ''targetEps'')"
    "jitem m ''duration'' = Inr (jget m ''duration'')" "is_str (jget m ''duration'')"
    "jitem m ''eventLimit'' = Inr (jget m ''eventLimit'')" "integer (jget m ''eventLimit'')" "at_least 1 (jget m ''eventLimit'')"
    "jitem m ''userCardinality'' = Inr (jget m ''userCardinality'')" "integer (jget m ''userCardinality'')" "at_least 1 (jget m ''userCardinality'')"
    "jitem m ''userDistribution'' = Inr (jget m ''userDistribution'')"
    "jitem m ''heavyUserRatio'' = Inr (jget m ''heavyUserRatio'')"
    "jitem m ''targetUserConcentration'' = Inr (jget m ''targetUserConcentration'')"
    "jitem m ''targetPartitionDistribution'' = Inr (jget m ''targetPartitionDistribution'')"
    "jitem m ''partitionAffinityStrategy'' = Inr (jget m ''partitionAffinityStrategy'')"
    "jitem m ''sourceProfile'' = Inr (jget m ''sourceProfile'')" "is_str (jget m ''sourceProfile'')"
    "jitem m ''eventTimeMode'' = Inr (jget m ''eventTimeMode'')"
    "jitem m ''latenessProfile'' = Inr (jget m ''latenessProfile'')" "or_null lateness_schema (jget m ''latenessProfile'')"
    "jitem m ''replayRate'' = Inr (jget m ''replayRate'')"
    "jitem m ''statefulWindowProfile'' = Inr (jget m ''statefulWindowProfile'')" "or_null window_schema (jget m ''statefulWindowProfile'')"
    "or_null (\<lambda>d. is_obj d \<and> list_all (\<lambda>(k, v). digits_key k \<and> number v) (the_obj d)) (jget m ''targetPartitionDistribution'')"
  using assms unfolding manifest_schema_def obj_with_def list.pred_inject prod.case the_obj.simps
  by (elim conjE, simp only: jitem_has)+

lemma manifest_options:
  assumes "manifest_schema m"
  shows
    "jget m ''sourceDelayProfile'' \<noteq> JNull \<Longrightarrow> delay_schema (jget m ''sourceDelayProfile'')"
    "jget m ''replayIsolationProfile'' \<noteq> JNull \<Longrightarrow> isolation_schema (jget m ''replayIsolationProfile'')"
    "jget m ''stages'' \<noteq> JNull \<Longrightarrow> is_list (jget m ''stages'') \<and> list_all stage_schema (the_list (jget m ''stages''))"
proof -
  have o: "optional [(''sourceDelayProfile'', or_null delay_schema), (''replayIsolationProfile'', or_null isolation_schema),
      (''stages'', or_null (\<lambda>s. is_list s \<and> list_all stage_schema (the_list s)))] (JObj m)"
    using assms unfolding manifest_schema_def by blast
  show "jget m ''sourceDelayProfile'' \<noteq> JNull \<Longrightarrow> delay_schema (jget m ''sourceDelayProfile'')"
    using optionalD [OF o, of "''sourceDelayProfile''" "or_null delay_schema"] by (simp add: or_null_def)
  show "jget m ''replayIsolationProfile'' \<noteq> JNull \<Longrightarrow> isolation_schema (jget m ''replayIsolationProfile'')"
    using optionalD [OF o, of "''replayIsolationProfile''" "or_null isolation_schema"] by (simp add: or_null_def)
  show "jget m ''stages'' \<noteq> JNull \<Longrightarrow> is_list (jget m ''stages'') \<and> list_all stage_schema (the_list (jget m ''stages''))"
    using optionalD [OF o, of "''stages''" "or_null (\<lambda>s. is_list s \<and> list_all stage_schema (the_list s))"] by (simp add: or_null_def)
qed

lemma delay_fields:
  assumes "delay_schema p"
  shows "item p ''allowedLateness'' = Inr (jget (the_obj p) ''allowedLateness'')" "is_str (jget (the_obj p) ''allowedLateness'')"
    "item p ''sourceDelay'' = Inr (jget (the_obj p) ''sourceDelay'')" "is_str (jget (the_obj p) ''sourceDelay'')"
    "jitem (the_obj p) ''expectedSourceDelaySeconds'' = Inr (jget (the_obj p) ''expectedSourceDelaySeconds'')"
    "jitem (the_obj p) ''expectedTooLateEvents'' = Inr (jget (the_obj p) ''expectedTooLateEvents'')"
    "jitem (the_obj p) ''expectedAcceptedEvents'' = Inr (jget (the_obj p) ''expectedAcceptedEvents'')"
  using assms unfolding delay_schema_def obj_with_def list.pred_inject prod.case
  by (elim conjE, simp only: jitem_has item_has)+

lemma isolation_fields:
  assumes "isolation_schema p"
  shows "item p ''liveTopic'' = Inr (jget (the_obj p) ''liveTopic'')" "item p ''replayTopic'' = Inr (jget (the_obj p) ''replayTopic'')"
    "item p ''liveConsumerGroup'' = Inr (jget (the_obj p) ''liveConsumerGroup'')"
    "item p ''replayConsumerGroup'' = Inr (jget (the_obj p) ''replayConsumerGroup'')"
    "item p ''liveRedisNamespace'' = Inr (jget (the_obj p) ''liveRedisNamespace'')"
    "item p ''replayRedisNamespace'' = Inr (jget (the_obj p) ''replayRedisNamespace'')"
    "jitem (the_obj p) ''expectedLiveRedisCollisionKeys'' = Inr (jget (the_obj p) ''expectedLiveRedisCollisionKeys'')"
    "item p ''expectedReplayAcceptedEvents'' = Inr (jget (the_obj p) ''expectedReplayAcceptedEvents'')"
  using assms unfolding isolation_schema_def obj_with_def list.pred_inject prod.case
  by (elim conjE, simp only: jitem_has item_has)+

lemma window_fields:
  assumes "window_schema p"
  shows "item p ''runtimeWindow'' = Inr (jget (the_obj p) ''runtimeWindow'')" "is_str (jget (the_obj p) ''runtimeWindow'')"
    "item p ''expectedEventsPerUserInWindow'' = Inr (jget (the_obj p) ''expectedEventsPerUserInWindow'')"
    "number (jget (the_obj p) ''expectedEventsPerUserInWindow'')"
    "jitem (the_obj p) ''expectedMaxEventsPerUserInWindow'' = Inr (jget (the_obj p) ''expectedMaxEventsPerUserInWindow'')"
    "item p ''eventAmount'' = Inr (jget (the_obj p) ''eventAmount'')" "number (jget (the_obj p) ''eventAmount'')"
    "jitem (the_obj p) ''eventAmount'' = Inr (jget (the_obj p) ''eventAmount'')"
    "item p ''expectedAmountSumPerUserInWindow'' = Inr (jget (the_obj p) ''expectedAmountSumPerUserInWindow'')"
    "number (jget (the_obj p) ''expectedAmountSumPerUserInWindow'')"
  using assms unfolding window_schema_def obj_with_def list.pred_inject prod.case
  by (elim conjE, simp only: jitem_has item_has)+

lemma lateness_fields:
  assumes "lateness_schema p"
  shows "item p ''allowedLateness'' = Inr (jget (the_obj p) ''allowedLateness'')" "is_str (jget (the_obj p) ''allowedLateness'')"
    "item p ''tooLateAge'' = Inr (jget (the_obj p) ''tooLateAge'')" "is_str (jget (the_obj p) ''tooLateAge'')"
    "item p ''buckets'' = Inr (jget (the_obj p) ''buckets'')" "is_list (jget (the_obj p) ''buckets'')"
    "2 \<le> length (the_list (jget (the_obj p) ''buckets''))"
    "list_all (obj_with [(''name'', is_str), (''lateness'', is_str)]) (the_list (jget (the_obj p) ''buckets''))"
    "jitem (the_obj p) ''expectedTooLateEvents'' = Inr (jget (the_obj p) ''expectedTooLateEvents'')"
    "jitem (the_obj p) ''expectedAcceptedLateEvents'' = Inr (jget (the_obj p) ''expectedAcceptedLateEvents'')"
  using assms unfolding lateness_schema_def obj_with_def [of _ p] list.pred_inject prod.case
  by (elim conjE, simp only: jitem_has item_has)+

lemma stage_fields:
  assumes "stage_schema s"
  shows "item s ''targetEps'' = Inr (stage_rate s)" "number (stage_rate s)"
    "item s ''duration'' = Inr (jget (the_obj s) ''duration'')" "is_str (jget (the_obj s) ''duration'')"
  using assms unfolding stage_schema_def obj_with_def list.pred_inject prod.case stage_rate_def
  by (elim conjE, simp only: jitem_has item_has)+

section \<open>The parts of the validation\<close>

lemma distribution_pred: "pred_option (manifest_exn m) (validate_distribution v field)"
proof -
  have "manifest_exn m e" if "add_share field acc kv = Inl e" for acc kv e
    using that as_float_Inl [of "snd kv" e]
    by (auto simp: add_share_def is_num_def bind_res_Inl split: option.splits if_splits)
  then show ?thesis unfolding validate_distribution_def by (auto dest!: foldM_Inl)
qed

lemma first_fail_preds: "pred_option P (first_fail [])" "pred_option P c \<Longrightarrow> pred_option P (first_fail cs) \<Longrightarrow> pred_option P (first_fail (c # cs))"
  by (auto simp: first_fail_Cons split: option.splits)

lemma raise_if_pred: "pred_option (manifest_exn m) (raise_if b (ManifestError s))"
  by simp

lemma with_val_pred: "v = Inr x \<Longrightarrow> pred_option P (f x) \<Longrightarrow> pred_option P (with_val v f)"
  by simp

lemma with_parse_pred:
  "is_str v \<Longrightarrow> (\<And>n. parse_duration_seconds v = Inr n \<Longrightarrow> pred_option (manifest_exn m) (f n)) \<Longrightarrow>
    pred_option (manifest_exn m) (with_val (parse_duration_seconds v) f)"
  "is_str v \<Longrightarrow> (\<And>n. pred_option (manifest_exn m) (f n)) \<Longrightarrow> pred_option (manifest_exn m) (with_val (parse_non_negative_duration_seconds v) f)"
  by (auto dest: parse_duration_Inl)

lemma users_preds:
  assumes "manifest_schema m"
  shows "pred_option (manifest_exn m) (no_affinity m msg)" "pred_option (manifest_exn m) (uniform_users m msg)"
  using manifest_fields [OF assms] by (simp_all add: no_affinity_def uniform_users_def field_must_def)

lemmas check_preds = first_fail_preds raise_if_pred field_must_pred with_parse_pred users_preds

lemma integer_num: "integer v \<Longrightarrow> is_num v"
  by (cases v) (simp_all add: integer_def)

lemma number_num: "number v \<Longrightarrow> is_num v"
  by (simp add: number_def)

lemma first_fail_guard: "(\<not> b \<Longrightarrow> pred_option (manifest_exn m) (first_fail cs)) \<Longrightarrow> pred_option (manifest_exn m) (first_fail (raise_if b (ManifestError s) # cs))"
  by (cases b) simp_all

lemma parse_exn:
  "is_str v \<Longrightarrow> parse_duration_seconds v = Inl e \<Longrightarrow> manifest_exn m e"
  "is_str v \<Longrightarrow> parse_non_negative_duration_seconds v = Inl e \<Longrightarrow> manifest_exn m e"
  by (auto dest: parse_duration_Inl)

lemma delay_pred:
  assumes "manifest_schema m"
  shows "pred_option (manifest_exn m) (validate_source_delay_profile m prof d)"
proof (cases "jget m ''sourceDelayProfile'' = JNull")
  case False
  note f = manifest_fields [OF assms] and d = delay_fields [OF manifest_options(1) [OF assms False]]
  have sub: "num_sub (jget m ''eventLimit'') v = Inl e \<Longrightarrow> is_num v \<Longrightarrow> manifest_exn m e" for v e
    using num_op_Inl [OF integer_num [OF f(9)]] unfolding num_sub_def by fastforce
  show ?thesis unfolding validate_source_delay_profile_def Let_def
    by (intro first_fail_preds)
      (auto simp: f d field_must_def users_preds [OF assms] integer_num intro: sub [OF _ integer_num [OF f(9)]] sub [OF _ is_num_int(1)] parse_exn [OF d(2)] parse_exn [OF d(4)] intro!: first_fail_preds)
qed (simp add: validate_source_delay_profile_def)

lemma isolation_pred:
  assumes "manifest_schema m"
  shows "pred_option (manifest_exn m) (validate_replay_isolation_profile m)"
proof (cases "jget m ''replayIsolationProfile'' = JNull")
  case False
  note f = manifest_fields [OF assms] and d = isolation_fields [OF manifest_options(2) [OF assms False]]
  show ?thesis unfolding validate_replay_isolation_profile_def Let_def
    by (intro first_fail_preds) (simp_all add: f d field_must_def fields_differ_def users_preds [OF assms])
qed (simp add: validate_replay_isolation_profile_def)

lemma skew_pred:
  assumes "manifest_schema m" "jget m ''targetPartitionDistribution'' \<noteq> JNull"
  shows "pred_option (manifest_exn m) (validate_partition_skew m)"
proof -
  note f = manifest_fields [OF assms(1)]
  have "\<exists>i. py_int (JStr k) = Inr i" if "(k, v) \<in> set (the_obj (jget m ''targetPartitionDistribution''))" for k v
    using f(27) assms(2) that digits_key_int by (auto simp: or_null_def list_all_iff)
  then have "mapM (\<lambda>kv. py_int (JStr (fst kv))) (the_obj (jget m ''targetPartitionDistribution'')) \<noteq> Inl e" for e
    by (auto dest!: mapM_Inl) (metis Inr_Inl_False)
  then show ?thesis unfolding validate_partition_skew_def
    by (intro first_fail_preds) (auto simp: f field_must_def intro!: first_fail_preds)
qed

lemma optional_has: "optional fs v \<Longrightarrow> (k, P) \<in> set fs \<Longrightarrow> has_key (the_obj v) k \<Longrightarrow> P (jget (the_obj v) k)"
  by (auto simp: optional_def list_all_iff)

lemma window_options:
  assumes "window_schema p"
  shows "has_key (the_obj p) ''redeliveryDrillTargetIndex'' \<Longrightarrow> integer (jget (the_obj p) ''redeliveryDrillTargetIndex'')"
    "has_key (the_obj p) ''redeliveryDrillNextIndex'' \<Longrightarrow> integer (jget (the_obj p) ''redeliveryDrillNextIndex'')"
    "has_key (the_obj p) ''expectedNextEventAmountSum'' \<Longrightarrow> number (jget (the_obj p) ''expectedNextEventAmountSum'')"
proof -
  let ?fs = "[(''redeliveryDrillTargetIndex'', integer), (''redeliveryDrillNextIndex'', integer),
     (''expectedNextEventTransactionCount'', integer), (''expectedNextEventAmountSum'', number)]"
  have o: "optional ?fs p" using assms unfolding window_schema_def by blast
  have m: "(''redeliveryDrillTargetIndex'', integer) \<in> set ?fs" "(''redeliveryDrillNextIndex'', integer) \<in> set ?fs"
    "(''expectedNextEventAmountSum'', number) \<in> set ?fs"
    by (simp_all only: list.set insert_iff simp_thms)
  show "has_key (the_obj p) ''redeliveryDrillTargetIndex'' \<Longrightarrow> integer (jget (the_obj p) ''redeliveryDrillTargetIndex'')"
    by (rule optional_has [OF o m(1)])
  show "has_key (the_obj p) ''redeliveryDrillNextIndex'' \<Longrightarrow> integer (jget (the_obj p) ''redeliveryDrillNextIndex'')"
    by (rule optional_has [OF o m(2)])
  show "has_key (the_obj p) ''expectedNextEventAmountSum'' \<Longrightarrow> number (jget (the_obj p) ''expectedNextEventAmountSum'')"
    by (rule optional_has [OF o m(3)])
qed

lemma num_cmp_ok: "is_num a \<Longrightarrow> is_num b \<Longrightarrow> \<exists>c. num_less a b = Inr c" "is_num a \<Longrightarrow> is_num b \<Longrightarrow> \<exists>c. num_le a b = Inr c"
  by (auto simp: is_num_def num_less_def num_le_def)

lemma raise_when_num:
  "is_num a \<Longrightarrow> is_num b \<Longrightarrow> pred_option (manifest_exn m) (raise_when (num_less a b) s)"
  "is_num a \<Longrightarrow> is_num b \<Longrightarrow> pred_option (manifest_exn m) (raise_when (num_le a b) s)"
  "is_num a \<Longrightarrow> is_num b \<Longrightarrow> pred_option (manifest_exn m) (raise_when (drifts a b) s)"
  using num_cmp_ok [of a b] drifts_Inl [of a b] by (auto simp: raise_when_def)

lemma num_op_exn: "num_op f g a b = Inl e \<Longrightarrow> is_num a \<Longrightarrow> is_num b \<Longrightarrow> manifest_exn m e"
  using num_op_Inl by fastforce

lemma redelivery_pred:
  assumes "manifest_schema m" "window_schema p"
  shows "pred_option (manifest_exn m) (validate_stateful_redelivery_profile m (the_obj p))"
proof (cases "list_all (has_key (the_obj p)) REDELIVERY_FIELDS")
  case True
  note f = manifest_fields [OF assms(1)] and d = window_fields [OF assms(2)]
  have i: "is_num (jget (the_obj p) ''redeliveryDrillTargetIndex'')" "is_num (jget (the_obj p) ''redeliveryDrillNextIndex'')"
     "is_num (jget (the_obj p) ''expectedNextEventAmountSum'')"
    using True window_options [OF assms(2)] by (simp_all add: REDELIVERY_FIELDS_def integer_num number_num)
  have missing: "filter (\<lambda>k. \<not> has_key (the_obj p) k) REDELIVERY_FIELDS = []"
    using True by (simp add: filter_empty_conv list_all_iff)
  show ?thesis unfolding validate_stateful_redelivery_profile_def Let_def
    by (intro first_fail_preds)
      (auto simp: f d i missing num_add_def num_mul_def raise_when_num integer_num number_num
        intro!: num_op_exn raise_when_num first_fail_preds dest!: num_op_Inr)
next
  case False
  then have "filter (\<lambda>k. \<not> has_key (the_obj p) k) REDELIVERY_FIELDS \<noteq> []"
    by (auto simp: filter_empty_conv list_all_iff)
  then show ?thesis unfolding validate_stateful_redelivery_profile_def Let_def by simp
qed

lemma ceil_exn: "ceil_div a b = Inl e \<Longrightarrow> is_num a \<Longrightarrow> is_num b \<Longrightarrow> at_least 1 b \<Longrightarrow> manifest_exn m e"
  using ceil_div_Inl by fastforce

lemma div_exn: "num_div a b = Inl e \<Longrightarrow> is_num a \<Longrightarrow> is_num b \<Longrightarrow> at_least 1 b \<Longrightarrow> manifest_exn m e"
  using num_div_Inl by fastforce

lemma window_pred:
  assumes "manifest_schema m"
  shows "pred_option (manifest_exn m) (validate_stateful_window_profile m)"
proof (cases "jget m ''statefulWindowProfile'' = JNull")
  case False
  let ?p = "jget m ''statefulWindowProfile''"
  note f = manifest_fields [OF assms]
  have w: "window_schema ?p" using f(26) False by (simp add: or_null_def)
  note d = window_fields [OF w]
  show ?thesis unfolding validate_stateful_window_profile_def 
    by (auto simp: f d False field_must_def num_mul_def raise_when_num integer_num number_num redelivery_pred [OF assms w]
        intro!: first_fail_preds raise_when_num
        dest!: num_op_Inr parse_exn(1) [OF d(2), where m = m] parse_exn(1) [OF f(7), where m = m]
          ceil_exn [OF _ integer_num [OF f(9)] integer_num [OF f(12)] f(13), where m = m]
          div_exn [OF _ integer_num [OF f(9)] integer_num [OF f(12)] f(13), where m = m]
          num_op_exn [OF _ is_num_int(3) number_num [OF d(7)], where m = m])
qed (simp add: validate_stateful_window_profile_def manifest_fields [OF assms])


lemma buckets_ok:
  assumes "list_all (obj_with [(''name'', is_str), (''lateness'', is_str)]) bs"
  shows "\<exists>ns. mapM (\<lambda>b. item b ''name'') bs = Inr ns \<and> list_all is_str ns"
    and "count_late allowed bs acc = Inl e \<Longrightarrow> manifest_exn m e"
    and "b \<in> set bs \<Longrightarrow> bucket_lateness b = Inl e \<Longrightarrow> manifest_exn m e"
proof -
  have b: "item b ''name'' = Inr (jget (the_obj b) ''name'')" "is_str (jget (the_obj b) ''name'')"
      "item b ''lateness'' = Inr (jget (the_obj b) ''lateness'')" "is_str (jget (the_obj b) ''lateness'')" if "b \<in> set bs" for b
  proof -
    have o: "obj_with [(''name'', is_str), (''lateness'', is_str)] b" using assms that by (auto simp: list_all_iff)
    show "item b ''name'' = Inr (jget (the_obj b) ''name'')" "is_str (jget (the_obj b) ''name'')"
      "item b ''lateness'' = Inr (jget (the_obj b) ''lateness'')" "is_str (jget (the_obj b) ''lateness'')"
      using o unfolding obj_with_def list.pred_inject prod.case by (elim conjE, simp only: item_has)+
  qed
  show l: "b \<in> set bs \<Longrightarrow> bucket_lateness b = Inl e \<Longrightarrow> manifest_exn m e" for b e
    using b(3,4) [of b] parse_exn(2) by (auto simp: bucket_lateness_def)
  show "count_late allowed bs acc = Inl e \<Longrightarrow> manifest_exn m e"
    unfolding count_late_def by (drule foldM_Inl) (auto simp: bind_res_Inl dest: l)
  show "\<exists>ns. mapM (\<lambda>b. item b ''name'') bs = Inr ns \<and> list_all is_str ns"
    using b(1,2) by (induction bs) (auto simp del: item_def)
qed

lemma unique_strings: "list_all is_str vs \<Longrightarrow> pred_option (manifest_exn m) (unique_or vs (ManifestError s))"
proof -
  have "is_str v \<Longrightarrow> hashable v" for v by (cases v) simp_all
  then show "list_all is_str vs \<Longrightarrow> ?thesis" by (auto simp: unique_or_def list_all_iff)
qed

lemma pattern_pred:
  assumes "list_all (obj_with [(''name'', is_str), (''lateness'', is_str)]) bs" "list_all is_str pattern"
  shows "pred_option (manifest_exn m) (check_pattern pattern names bs)"
proof -
  obtain ns where ns: "mapM (\<lambda>b. item b ''name'') bs = Inr ns" using buckets_ok(1) [OF assms(1)] by blast
  have "manifest_exn m e" if "pattern_lateness pattern bs = Inl e" for e
    using that buckets_ok(3) [OF assms(1)]
    by (auto simp: pattern_lateness_def bind_res_Inl ns dest!: mapM_Inl set_zip_rightD)
  then show ?thesis unfolding check_pattern_def
    by (intro first_fail_preds) (auto intro: unique_strings assms(2))
qed

lemma lateness_pattern:
  assumes "lateness_schema p"
  shows "jget (the_obj p) ''outOfOrderPattern'' = JNull \<or> (\<exists>ps. jget (the_obj p) ''outOfOrderPattern'' = JList ps \<and> list_all is_str ps)"
proof -
  have "optional [(''outOfOrderPattern'', or_null (\<lambda>p. is_list p \<and> list_all is_str (the_list p)))] p"
    using assms by (simp add: lateness_schema_def)
  from optionalD [OF this list.set_intros(1)] show ?thesis
    by (cases "jget (the_obj p) ''outOfOrderPattern''") (auto simp: or_null_def)
qed

lemma late_pred:
  assumes "manifest_schema m" "role_is m [''LATE_OUT_OF_ORDER'']"
  shows "pred_option (manifest_exn m) (validate_lateness_profile m)"
proof (cases "jget m ''latenessProfile'' = JNull")
  case False
  let ?p = "jget m ''latenessProfile''"
  note f = manifest_fields [OF assms(1)]
  have l: "lateness_schema ?p" using f(23) False by (simp add: or_null_def)
  note d = lateness_fields [OF l]
  obtain bs where bs: "jget (the_obj ?p) ''buckets'' = JList bs" using d(6) by (cases "jget (the_obj ?p) ''buckets''") auto
  note b = d(8) [unfolded bs the_list.simps]
  obtain ns where ns: "mapM (\<lambda>b. item b ''name'') bs = Inr ns" "list_all is_str ns" using buckets_ok(1) [OF b] by blast
  have "bs \<noteq> []" using d(7) bs by auto
  have e: "expected_late allowed bs (jget m ''eventLimit'') acc = Inl e \<Longrightarrow> manifest_exn m e" for allowed acc e
  proof -
    have "count_late allowed (take r bs) acc' = Inl e \<Longrightarrow> manifest_exn m e" for r acc'
      by (rule buckets_ok(2)) (use b in \<open>auto simp: list_all_iff dest: in_set_takeD\<close>)
    then show "expected_late allowed bs (jget m ''eventLimit'') acc = Inl e \<Longrightarrow> manifest_exn m e"
      using f(9) assms(2) \<open>bs \<noteq> []\<close>
      by (auto simp: expected_late_def Let_def integer_num manifest_exn_def split: if_splits)
  qed
  have pat: "jget (the_obj ?p) ''outOfOrderPattern'' = JNull \<or> (\<exists>ps. jget (the_obj ?p) ''outOfOrderPattern'' = JList ps \<and> list_all is_str ps)"
    by (rule lateness_pattern [OF l])
  have items: "jget (the_obj ?p) ''outOfOrderPattern'' \<noteq> JNull \<Longrightarrow>
      \<exists>ps. iter_items (jget (the_obj ?p) ''outOfOrderPattern'') = Inr ps \<and> list_all is_str ps"
    using pat by (auto simp: iter_items_def)
  have bs_items: "iter_items (JList bs) = Inr bs" by (simp add: iter_items_def)
  have sp: "in_roles (jget m ''sourceProfile'') S \<noteq> Inl e" for S e using in_roles_str [OF f(20), of S] by auto
  show ?thesis unfolding validate_lateness_profile_def f d bind_res_simps with_val_simps bs
    by (intro first_fail_preds)
      (auto simp: False f d bs_items ns field_must_def users_preds [OF assms(1)] sp
        intro!: first_fail_preds unique_strings [OF ns(2)] pattern_pred [OF b]
        dest!: e buckets_ok(2) [OF b, where m = m] parse_exn(1) [OF d(2), where m = m] parse_exn(1) [OF d(4), where m = m] items)
qed (simp add: validate_lateness_profile_def manifest_fields [OF assms(1)])

lemma as_float_int: "as_float (JInt n) = Inr y \<longleftrightarrow> (\<exists>r. y = Fin r \<and> to_double (of_int n) = Fin r)"
  by (cases "to_double (of_int n)") (auto simp: as_float_def py_float_def float_of_int_def)

lemma fmul_NaN: "fmul x (Fin r) = NaN \<Longrightarrow> r \<noteq> 0 \<Longrightarrow> x = NaN"
  by (cases x) (auto simp: to_double_def inf_with_sign_def Let_def split: if_splits)

text \<open>A rate that is not NaN and a positive duration have a product that is not NaN.\<close>

lemma stage_events_Inl:
  assumes "stage_schema s" "stage_events s = Inl e"
  shows "(\<exists>msg. e = ManifestError msg) \<or> e = OverflowError \<or> (stage_rate s = JFloat NaN \<and> (\<exists>msg. e = ValueError msg))"
proof -
  note d = stage_fields [OF assms(1)]
  consider (parse) "parse_duration_seconds (jget (the_obj s) ''duration'') = Inl e"
    | (mul) n where "num_mul (stage_rate s) (JInt n) = Inl e"
    | (int) n v where "parse_duration_seconds (jget (the_obj s) ''duration'') = Inr n" "num_mul (stage_rate s) (JInt n) = Inr v" "py_int v = Inl e"
    using assms(2) by (auto simp: stage_events_def d bind_res_Inl)
  then show ?thesis
  proof cases
    case int
    have "0 < n" using int(1) by (rule parse_duration_pos)
    then have y: "as_float (JInt n) = Inr y \<Longrightarrow> y \<noteq> Fin 0" for y
      by (intro at_least_float [of "JInt n"]) (simp_all add: at_least_def)
    have "v = JFloat NaN \<Longrightarrow> stage_rate s = JFloat NaN"
      using int(2) y by (auto simp: num_mul_def num_op_def as_float_int split: if_splits)
        (auto simp: as_float_def py_float_def dest: fmul_NaN split: json.splits)
    then show ?thesis using int(3) num_op_Inr [OF int(2) [unfolded num_mul_def]] by (cases v) (auto simp: py_int_def split: pyfloat.splits)
  next
    case mul
    then show ?thesis using num_op_Inl [OF number_num [OF d(2)] is_num_int(1)] by (auto simp: num_mul_def)
  next
    case parse
    then show ?thesis using parse_duration_Inl(1) [OF d(4)] by auto
  qed
qed

lemma stages_loop_Inl:
  assumes "list_all stage_schema stages" "is_num (snd acc)" "foldM add_stage acc stages = Inl e"
  shows "(\<exists>msg. e = ManifestError msg) \<or> e = OverflowError \<or> ((\<exists>s \<in> set stages. stage_rate s = JFloat NaN) \<and> (\<exists>msg. e = ValueError msg))"
  using assms
proof (induction stages arbitrary: acc)
  case (Cons s stages)
  have s: "stage_schema s" using Cons.prems(1) by simp
  note d = stage_fields [OF s]
  show ?case
  proof (cases "add_stage acc s")
    case (Inl e')
    have "py_max (snd acc) (stage_rate s) \<noteq> Inl e'"
      using num_cmp_ok(1) [OF Cons.prems(2) number_num [OF d(2)]] by (auto simp: py_max_def)
    then have "stage_events s = Inl e" using Inl Cons.prems(3) by (auto simp: add_stage_def bind_res_Inl d)
    from stage_events_Inl [OF s this] show ?thesis by auto
  next
    case (Inr acc1)
    have "is_num (snd acc1)" using Inr Cons.prems(2) number_num [OF d(2)] by (auto simp: add_stage_def py_max_def d split: if_splits)
    then show ?thesis using Cons.IH [of acc1] Cons.prems(1,3) Inr by auto
  qed
qed simp

lemma stages_pred:
  assumes "manifest_schema m"
  shows "pred_option (manifest_exn m) (validate_stages m)"
proof (cases "jget m ''stages'' = JNull")
  case True
  note f = manifest_fields [OF assms]
  show ?thesis unfolding validate_stages_def using True
    by (auto simp: f num_mul_def integer_num number_num intro!: raise_when_num
        intro: parse_exn [OF f(7)] num_op_exn [OF _ number_num [OF f(5)] is_num_int(1)] dest!: num_op_Inr)
next
  case False
  note f = manifest_fields [OF assms]
  obtain ss where ss: "jget m ''stages'' = JList ss" "list_all stage_schema ss"
    using manifest_options(3) [OF assms False] by (cases "jget m ''stages''") auto
  have "foldM add_stage (0, JInt 0) ss = Inl e \<Longrightarrow> manifest_exn m e" for e
    using stages_loop_Inl [OF ss(2), of "(0, JInt 0)" e] ss(1) by (auto simp: manifest_exn_def)
  then show ?thesis unfolding validate_stages_def using False ss(1)
    by (auto simp: f iter_items_def field_must_def intro!: first_fail_preds)
qed

lemma first_fail_seq:
  "pred_option P c \<Longrightarrow> (c = None \<Longrightarrow> pred_option P (first_fail cs)) \<Longrightarrow> pred_option P (first_fail (c # cs))"
  by (auto simp: first_fail_Cons split: option.splits)

lemma in_roles_ok: "is_str v \<Longrightarrow> in_roles v S \<noteq> Inl e"
  by (cases v) (auto simp: in_roles_def)

lemma time_mode_pred: "is_str role \<Longrightarrow> pred_option (manifest_exn m) (check_time_mode role mode)"
  unfolding check_time_mode_def by (intro first_fail_preds) (auto simp: in_roles_ok)

lemma skew_role_pred:
  assumes "manifest_schema m"
  shows "pred_option (manifest_exn m) (check_skew_role m role)"
proof -
  note f = manifest_fields [OF assms]
  have "field_must m ''targetPartitionDistribution'' (\<lambda>v. v \<noteq> JNull) msg = None \<Longrightarrow>
      pred_option (manifest_exn m) (validate_partition_skew m)" for msg
    by (rule skew_pred [OF assms]) (erule field_must_None)
  then show ?thesis unfolding check_skew_role_def
    by (intro first_fail_preds) (auto simp: f field_must_pred intro!: first_fail_seq first_fail_preds(1))
qed

lemma delay_role_pred: "manifest_schema m \<Longrightarrow> pred_option (manifest_exn m) (check_source_delay_role m role)"
  by (simp add: check_source_delay_role_def delay_pred)

lemma profile_roles_pred:
  assumes "manifest_schema m"
  shows "pred_option (manifest_exn m) (check_profile_roles m (jget m ''workloadRole''))"
proof -
  note f = manifest_fields [OF assms]
  show ?thesis unfolding check_profile_roles_def
    by (intro first_fail_preds)
      (auto simp: f in_roles_ok field_must_pred window_pred [OF assms] late_pred [OF assms] isolation_pred [OF assms] role_one)
qed

text \<open>
  C31: a manifest whose fields have the types its JSON schema asks for is either accepted or refused with a
  \<open>ManifestError\<close>, except that extreme numbers raise \<open>OverflowError\<close>, a NaN rate of a stage raises
  \<open>ValueError\<close>, and for late events an event limit written as a \<open>float\<close> raises \<open>TypeError\<close>: no missing
  key, division by zero or comparison of mixed types.
\<close>

theorem schema_checked_manifest_not_stuck:
  assumes "schema m = None \<Longrightarrow> manifest_schema m" "\<And>e. schema m = Some e \<Longrightarrow> \<exists>msg. e = ManifestError msg"
    and "validate_manifest schema m = Some e"
  shows "manifest_exn m e"
proof (cases "schema m")
  case (Some e')
  then show ?thesis using assms(2,3) by (auto simp: validate_manifest_def)
next
  case None
  note s = assms(1) [OF None]
  note f = manifest_fields [OF s]
  have "pred_option (manifest_exn m) (validate_manifest schema m)"
    unfolding validate_manifest_def None
    by (intro first_fail_preds)
      (auto simp: f distribution_pred stages_pred [OF s] time_mode_pred skew_role_pred [OF s] delay_role_pred [OF s]
        profile_roles_pred [OF s] f(2) intro!: first_fail_preds)
  then show ?thesis using assms(3) by simp
qed

text \<open>With the limit written as \<open>300.0\<close> the slice \<open>buckets[:remainder]\<close> raises.\<close>

lemma late_manifest_float_limit:
  "manifest_schema (late_manifest (JFloat (Fin 300)))"
  "validate_manifest (\<lambda>_. None) (late_manifest (JFloat (Fin 300))) = Some TypeError"
  by code_simp+

theorem schema_checked_manifest_not_stuck_witness: "manifest_exn (late_manifest (JFloat (Fin 300))) TypeError"
  by (rule schema_checked_manifest_not_stuck [of "\<lambda>_. None", OF late_manifest_float_limit(1) _ late_manifest_float_limit(2)]) simp

end
