(* ===== verification/Samples.thy ===== *)
theory Samples
  imports PyNumber JsonText ValidateOutputs
begin

text \<open>
  \<open>scripts/data/generate_paysim_samples.py\<close>: a commit-safe sample of the processed outputs, that is, at most 1000
  events and their labels, in the order the sample was chosen, with a manifest.

  \<open>sample_env\<close> is what the outside gives: the lines of the events and labels and the text of the report
  (\<open>None\<close>: no such file), \<open>json.loads\<close> and the time. The output files are a map from paths to texts, which
  \<open>generate\<close> returns updated: it writes them before the last checks. Creating the output directory is not modelled.
  Ids are any JSON values, compared as Python compares them; \<open>json.loads\<close> returns one and the same NaN object
  each time, which a set or a dict finds by its identity.
\<close>

section \<open>Constants and data\<close>

definition MAX_SAMPLE_SIZE :: int where "MAX_SAMPLE_SIZE = 1000"

definition MAX_SAMPLE_BYTES :: nat where "MAX_SAMPLE_BYTES = 1048576"

definition SAMPLE_SCRIPT_VERSION :: string where "SAMPLE_SCRIPT_VERSION = ''v2-phase-4''"

definition SAMPLE_HASH_ALGORITHM :: string where "SAMPLE_HASH_ALGORITHM = ''HMAC-SHA256''"

definition SAMPLE_HASH_PREFIX_LENGTH :: int where "SAMPLE_HASH_PREFIX_LENGTH = 16"

definition SAMPLE_LABEL_FIELDS :: "string list" where
  "SAMPLE_LABEL_FIELDS = [''isFraud'', ''isFlaggedFraud'', ''sourceFlaggedFraud'']"

definition SAMPLE_RAW_FIELDS :: "string list" where "SAMPLE_RAW_FIELDS = [''nameOrig'', ''nameDest'']"

definition SAMPLE_HASH_IDS :: "(string \<times> char) list" where
  "SAMPLE_HASH_IDS = [(''userId'', CHR ''U''), (''accountId'', CHR ''A''), (''destinationAccountId'', CHR ''D'')]"

definition SAMPLE_SALT_FIELDS :: "string list" where
  "SAMPLE_SALT_FIELDS = [''hashSaltValue'', ''saltValue'', ''salt'', ''rawSalt'']"

datatype strategy = Head | Balanced

definition strategy_name :: "strategy \<Rightarrow> string" where
  "strategy_name s = (case s of Head \<Rightarrow> ''head'' | Balanced \<Rightarrow> ''balanced'')"

text \<open>Paths are the texts \<open>str\<close> gives; the names are their last components.\<close>

record sample_args =
  sa_events :: string
  sa_labels :: string
  sa_report :: string
  sa_events_name :: string
  sa_labels_name :: string
  sa_events_output :: string
  sa_labels_output :: string
  sa_manifest_output :: string
  sa_sample_size :: int
  sa_strategy :: strategy
  sa_force :: bool
  sa_require_non_default_salt :: bool

definition default_sample_args :: sample_args where
  "default_sample_args =
    \<lparr>sa_events = ''data/processed/paysim-events.jsonl'', sa_labels = ''data/processed/paysim-labels.jsonl'',
     sa_report = ''data/processed/paysim-validation-report.json'', sa_events_name = ''paysim-events.jsonl'',
     sa_labels_name = ''paysim-labels.jsonl'', sa_events_output = ''data/samples/paysim-events-sample.jsonl'',
     sa_labels_output = ''data/samples/paysim-labels-sample.jsonl'',
     sa_manifest_output = ''data/samples/paysim-sample-manifest.json'', sa_sample_size = MAX_SAMPLE_SIZE,
     sa_strategy = Balanced, sa_force = False, sa_require_non_default_salt = False\<rparr>"

record sample_env =
  se_events :: "string list option"
  se_labels :: "string list option"
  se_report :: "string option"
  se_loads :: "string \<Rightarrow> json option"
  se_now :: string

type_synonym files = "string \<Rightarrow> string option"

section \<open>Reading and scanning\<close>

definition sample_items :: "(string \<Rightarrow> json option) \<Rightarrow> string \<Rightarrow> string list \<Rightarrow> item list" where
  "sample_items loads name ls = jsonl_items
     (\<lambda>n. SampleError (name @ '':'' @ str_of_nat n @ '': invalid JSON''))
     (\<lambda>n. SampleError (name @ '':'' @ str_of_nat n @ '': row must be object'')) loads 1 ls"

definition sample_salt_key :: "string \<Rightarrow> bool" where
  "sample_salt_key k \<longleftrightarrow> k \<in> set SAMPLE_SALT_FIELDS \<or> contains_text ''salt'' (lower k) \<and> k \<noteq> ''hashSaltSource''"

definition sample_forbidden_key :: "bool \<Rightarrow> bool \<Rightarrow> jobj \<Rightarrow> string \<Rightarrow> string \<Rightarrow> exn option" where
  "sample_forbidden_key forbid_label forbid_salt d path k =
    (if k \<in> set SAMPLE_RAW_FIELDS then Some (SampleError (path @ '' must not contain raw identifier fields''))
     else if forbid_label \<and> k \<in> set SAMPLE_LABEL_FIELDS then Some (SampleError (path @ '' must not contain label fields''))
     else if forbid_salt \<and> sample_salt_key k then Some (SampleError (path @ '' must not contain salt values''))
     else None)"

definition sample_scan :: "bool \<Rightarrow> bool \<Rightarrow> string \<Rightarrow> json \<Rightarrow> exn option" where
  "sample_scan forbid_label forbid_salt path v =
     scan_json (sample_forbidden_key forbid_label forbid_salt)
       (\<lambda>p. SampleError (p @ '' must not contain raw PaySim identifiers'')) path v"

definition load_report :: "(string \<Rightarrow> json option) \<Rightarrow> string \<Rightarrow> bool \<Rightarrow> jobj res" where
  "load_report loads text require_non_default_salt =
    (case loads text of
       None \<Rightarrow> Inl (SampleError ''report must be valid JSON'')
     | Some (JObj report) \<Rightarrow>
         (let salt = jget report ''hashSaltSource'' in
          check_then (first_fail
            [raise_if (jget report ''hashAlgorithm'' \<noteq> JStr SAMPLE_HASH_ALGORITHM)
               (SampleError ''report.hashAlgorithm must be HMAC-SHA256''),
             raise_if (\<not> eq_int (jget report ''hashIdPrefixLength'') SAMPLE_HASH_PREFIX_LENGTH)
               (SampleError ''report.hashIdPrefixLength must be 16''),
             raise_if (\<not> nonempty_str salt) (SampleError ''report.hashSaltSource must be present''),
             raise_if (require_non_default_salt \<and> salt = JStr ''default-local'')
               (SampleError ''--require-non-default-salt requires non-default hashSaltSource''),
             sample_scan False True ''report'' (JObj report)]) (Inr report))
     | Some _ \<Rightarrow> Inl (SampleError ''report must be an object''))"

section \<open>Choosing\<close>

text \<open>Two values that a set or a dict takes for the same key\<close>

definition same_key :: "json \<Rightarrow> json \<Rightarrow> bool" where
  "same_key v w \<longleftrightarrow> v = w \<or> py_eq v w"

fun choose_head :: "int \<Rightarrow> json list \<Rightarrow> item list \<Rightarrow> json list res" where
  "choose_head n ids [] = Inr ids"
| "choose_head n ids (Inl e # is) = Inl e"
| "choose_head n ids (Inr (_, event) # is) =
     bind_res (jitem event ''eventId'') (\<lambda>eid.
       if n \<le> int (length (ids @ [eid])) then Inr (ids @ [eid]) else choose_head n (ids @ [eid]) is)"

definition choose_ids_head :: "int \<Rightarrow> item list \<Rightarrow> json list res" where
  "choose_ids_head n events = choose_head n [] events"

definition add_by_class :: "int \<Rightarrow> jobj \<Rightarrow> json \<Rightarrow> json list \<times> json list \<Rightarrow> json list \<times> json list" where
  "add_by_class n label eid ids =
    (if jget label ''isFraud'' = JBool True \<and> int (length (fst ids)) < n then (fst ids @ [eid], snd ids)
     else if jget label ''isFraud'' = JBool False \<and> int (length (snd ids)) < n then (fst ids, snd ids @ [eid])
     else ids)"

fun choose_classes :: "int \<Rightarrow> json list \<times> json list \<Rightarrow> item list \<Rightarrow> (json list \<times> json list) res" where
  "choose_classes n ids [] = Inr ids"
| "choose_classes n ids (Inl e # is) = Inl e"
| "choose_classes n ids (Inr (_, label) # is) =
     bind_res (jitem label ''eventId'') (\<lambda>eid. let ids' = add_by_class n label eid ids in
       if n \<le> int (length (fst ids')) \<and> n \<le> int (length (snd ids')) then Inr ids' else choose_classes n ids' is)"

definition choose_ids_balanced :: "int \<Rightarrow> item list \<Rightarrow> json list res" where
  "choose_ids_balanced n labels =
    bind_res (choose_classes n ([], []) labels) (\<lambda>(fraud, non_fraud).
      let selected = take (nat n) fraud in Inr (selected @ take (nat (n - int (length selected))) non_fraud))"

definition select_rows :: "json list \<Rightarrow> item list \<Rightarrow> jobj list res" where
  "select_rows ids rows = for_items (\<lambda>acc n row. let eid = jget row ''eventId'' in
     if \<not> hashable eid then Inl TypeError
     else Inr (if list_ex (same_key eid) ids then acc @ [row] else acc)) [] rows"

text \<open>\<open>order[id]\<close>: the last position of the id among the selected ones\<close>

definition order_of :: "json list \<Rightarrow> json \<Rightarrow> nat" where
  "order_of ids eid = Max (set (filter (\<lambda>i. same_key eid (ids ! i)) [0..<length ids]))"

definition sort_rows :: "json list \<Rightarrow> jobj list \<Rightarrow> jobj list res" where
  "sort_rows ids rows =
    bind_res (mapM (\<lambda>r. jitem r ''eventId'') rows) (\<lambda>_. Inr (sort_key (\<lambda>r. order_of ids (jget r ''eventId'')) rows))"

section \<open>Checking the sample\<close>

definition same_ids :: "json list \<Rightarrow> json list \<Rightarrow> bool" where
  "same_ids vs ws \<longleftrightarrow> list_all (\<lambda>v. list_ex (same_key v) ws) vs \<and> list_all (\<lambda>w. list_ex (same_key w) vs) ws"

text \<open>\<open>{row["eventId"] for row in rows}\<close>\<close>

definition id_set :: "jobj list \<Rightarrow> json list res" where
  "id_set rows = mapM (\<lambda>r. bind_res (jitem r ''eventId'') (\<lambda>v. if hashable v then Inr v else Inl TypeError)) rows"

definition sample_event_checks :: "jobj \<Rightarrow> exn option" where
  "sample_event_checks e = first_fail
    (sample_scan True False ''sampleEvent'' (JObj e) #
     map (\<lambda>(k, c). raise_if (\<not> is_str (jget e k) \<or> \<not> hash_id_match c (the_str (jget e k)))
            (SampleError (''sampleEvent.'' @ k @ '' must match ^'' @ [c] @ ''-[0-9a-f]{16}$''))) SAMPLE_HASH_IDS @
     [raise_if (has_key e ''receivedAt'') (SampleError ''sampleEvent.receivedAt must not be present'')])"

definition size_check :: "files \<Rightarrow> string \<Rightarrow> exn option" where
  "size_check fs path =
    (case fs path of
       None \<Rightarrow> None
     | Some text \<Rightarrow> raise_if (MAX_SAMPLE_BYTES < utf8_size text) (SampleError (''sample file is larger than 1MB: '' @ path)))"

definition validate_generated :: "jobj list \<Rightarrow> jobj list \<Rightarrow> jobj \<Rightarrow> files \<Rightarrow> string list \<Rightarrow> exn option" where
  "validate_generated events labels manifest fs paths =
    (if MAX_SAMPLE_SIZE < int (length events) then Some (SampleError ''sample events exceed 1000'')
     else with_val (id_set events) (\<lambda>event_ids. with_val (id_set labels) (\<lambda>label_ids. first_fail
       ([raise_if (\<not> same_ids event_ids label_ids) (SampleError ''sample eventId set must match label eventId set'')] @
        map sample_event_checks events @
        map (\<lambda>l. sample_scan False False ''sampleLabel'' (JObj l)) labels @
        [sample_scan False True ''manifest'' (JObj manifest)] @
        map (size_check fs) paths))))"

section \<open>The run\<close>

definition sample_output_paths :: "sample_args \<Rightarrow> string list" where
  "sample_output_paths a = [sa_events_output a, sa_labels_output a, sa_manifest_output a]"

definition ensure_sample_outputs :: "files \<Rightarrow> sample_args \<Rightarrow> exn option" where
  "ensure_sample_outputs fs a =
    (let present = filter (\<lambda>p. fs p \<noteq> None) (sample_output_paths a) in
     raise_if (present \<noteq> [] \<and> \<not> sa_force a)
       (SampleError (''output file already exists. Use --force: '' @ join '', '' present)))"

definition fraud_count :: "jobj list \<Rightarrow> nat" where
  "fraud_count labels = length (filter (\<lambda>l. jget l ''isFraud'' = JBool True) labels)"

definition sample_manifest :: "sample_env \<Rightarrow> sample_args \<Rightarrow> jobj \<Rightarrow> jobj list \<Rightarrow> jobj list \<Rightarrow> jobj" where
  "sample_manifest env a report events labels =
    [(''scriptVersion'', JStr SAMPLE_SCRIPT_VERSION),
     (''sourceDatasetSlug'', jget report ''datasetSlug''),
     (''sourceRawFileName'', jget report ''rawFileName''),
     (''sourceInputSha256'', jget report ''inputSha256''),
     (''sourceEventsPath'', JStr (sa_events a)),
     (''sourceLabelsPath'', JStr (sa_labels a)),
     (''sampleStrategy'', JStr (strategy_name (sa_strategy a))),
     (''sampleSizeRequested'', JInt (sa_sample_size a)),
     (''sampleEvents'', JInt (int (length events))),
     (''sampleLabels'', JInt (int (length labels))),
     (''sampleFraudRows'', JInt (int (fraud_count labels))),
     (''sampleNonFraudRows'', JInt (int (length labels) - int (fraud_count labels))),
     (''hashAlgorithm'', jget report ''hashAlgorithm''),
     (''hashIdPrefixLength'', jget report ''hashIdPrefixLength''),
     (''hashSaltSource'', jget report ''hashSaltSource''),
     (''eventIdPolicy'', JStr ''row-number-deterministic''),
     (''replayCollisionNote'', JStr (''eventId is deterministic for idempotency tests; Phase 5 replay may add an event-id-prefix option '' @
        ''when mixing datasets or rerunning into the same API/database.'')),
     (''createdAt'', JStr (se_now env)),
     (''containsRuntimeLabels'', JBool False),
     (''containsRawIdentifiers'', JBool False),
     (''outputFiles'', JObj [(''events'', JStr (sa_events_output a)), (''labels'', JStr (sa_labels_output a))])]"

text \<open>The rows of the sample and its manifest, before anything is written\<close>

definition choose_ids :: "sample_env \<Rightarrow> sample_args \<Rightarrow> json list res" where
  "choose_ids env a =
    (case sa_strategy a of
       Head \<Rightarrow> choose_ids_head (sa_sample_size a) (sample_items (se_loads env) (sa_events_name a) (the (se_events env)))
     | Balanced \<Rightarrow> choose_ids_balanced (sa_sample_size a) (sample_items (se_loads env) (sa_labels_name a) (the (se_labels env))))"

definition sample_rows :: "sample_env \<Rightarrow> sample_args \<Rightarrow> (jobj list \<times> jobj list) res" where
  "sample_rows env a =
    bind_res (choose_ids env a) (\<lambda>ids.
    if ids = [] then Inl (SampleError ''no sample eventIds selected'')
    else if \<not> list_all hashable ids then Inl TypeError
    else bind_res (select_rows ids (sample_items (se_loads env) (sa_events_name a) (the (se_events env)))) (\<lambda>events.
    bind_res (select_rows ids (sample_items (se_loads env) (sa_labels_name a) (the (se_labels env)))) (\<lambda>labels.
    bind_res (sort_rows ids events) (\<lambda>events. bind_res (sort_rows ids labels) (\<lambda>labels. Inr (events, labels))))))"

definition write_sample :: "sample_args \<Rightarrow> jobj list \<Rightarrow> jobj list \<Rightarrow> jobj \<Rightarrow> files \<Rightarrow> files" where
  "write_sample a events labels manifest fs =
     fs(sa_events_output a \<mapsto> jsonl_text events, sa_labels_output a \<mapsto> jsonl_text labels,
        sa_manifest_output a \<mapsto> dumps_indent 0 (JObj manifest) @ [char_of (10 :: nat)])"

definition missing_input :: "sample_env \<Rightarrow> sample_args \<Rightarrow> exn option" where
  "missing_input env a = first_fail
    [raise_if (se_events env = None) (FileNotFoundError (sa_events a)),
     raise_if (se_labels env = None) (FileNotFoundError (sa_labels a)),
     raise_if (se_report env = None) (FileNotFoundError (sa_report a))]"

definition generate :: "sample_env \<Rightarrow> files \<Rightarrow> sample_args \<Rightarrow> files \<times> jobj res" where
  "generate env fs a =
    (case first_fail
       [raise_if (sa_sample_size a < 1 \<or> MAX_SAMPLE_SIZE < sa_sample_size a)
          (SampleError ''--sample-size must be between 1 and 1000''),
        missing_input env a, ensure_sample_outputs fs a] of
       Some x \<Rightarrow> (fs, Inl x)
     | None \<Rightarrow>
         (case bind_res (load_report (se_loads env) (the (se_report env)) (sa_require_non_default_salt a)) (\<lambda>report.
            bind_res (sample_rows env a) (\<lambda>(events, labels). Inr (report, events, labels))) of
            Inl x \<Rightarrow> (fs, Inl x)
          | Inr (report, events, labels) \<Rightarrow>
              (let manifest = sample_manifest env a report events labels; fs' = write_sample a events labels manifest fs in
               case validate_generated events labels manifest fs (sample_output_paths a) of
                 Some x \<Rightarrow> (fs, Inl x)
               | None \<Rightarrow> (fs', check_then (validate_generated events labels manifest fs' (sample_output_paths a)) (Inr manifest)))))"

definition sample_exit_status :: "jobj res \<Rightarrow> int res" where
  "sample_exit_status r = (case r of
     Inr _ \<Rightarrow> Inr 0 | Inl (FileNotFoundError _) \<Rightarrow> Inr 2 | Inl (SampleError _) \<Rightarrow> Inr 1 | Inl x \<Rightarrow> Inl x)"

end
