(* ===== verification/SamplesProperties.thy ===== *)
theory SamplesProperties
  imports Samples
begin

text \<open>
  Which rows are chosen from files whose ids are distinct texts and in which order they are written, that nothing
  unsafe is ever written, and how the generation can fail.
\<close>

section \<open>Ids that are texts\<close>

definition str_id :: "jobj \<Rightarrow> bool" where
  "str_id d \<longleftrightarrow> has_key d ''eventId'' \<and> is_str (jget d ''eventId'')"

abbreviation id_of :: "jobj \<Rightarrow> string" where
  "id_of d \<equiv> the_str (jget d ''eventId'')"

lemma str_id_iff: "str_id d \<longleftrightarrow> jitem d ''eventId'' = Inr (JStr (id_of d))"
  by (cases "jget d ''eventId''") (auto simp: str_id_def has_key_iff jitem_def jget_or_def split: option.splits)

lemma str_id_get: "str_id d \<Longrightarrow> jget d ''eventId'' = JStr (id_of d)"
  by (cases "jget d ''eventId''") (auto simp: str_id_def)

lemma same_key_str [simp]: "same_key (JStr s) v \<longleftrightarrow> v = JStr s"
  by (cases v) (auto simp: same_key_def)

lemma list_ex_same_key: "list_ex (same_key (JStr s)) (map JStr ids) \<longleftrightarrow> s \<in> set ids"
  by (auto simp: list_ex_iff)

section \<open>Choosing\<close>

definition is_fraud :: "jobj \<Rightarrow> bool" where
  "is_fraud l \<longleftrightarrow> jget l ''isFraud'' = JBool True"

definition is_legit :: "jobj \<Rightarrow> bool" where
  "is_legit l \<longleftrightarrow> jget l ''isFraud'' = JBool False"

text \<open>The ids of the sample: those of the first \<open>n\<close> events, or of the first frauds, filled up with others.\<close>

definition chosen :: "strategy \<Rightarrow> nat \<Rightarrow> jobj list \<Rightarrow> jobj list \<Rightarrow> string list" where
  "chosen s n events labels =
    (case s of
       Head \<Rightarrow> map id_of (take n events)
     | Balanced \<Rightarrow> (let fraud = take n (filter is_fraud labels) in
         map id_of (fraud @ take (n - length fraud) (filter is_legit labels))))"

lemma choose_head_rows:
  assumes "\<forall>r \<in> set rows. str_id (snd r)" "int (length ids) < n"
  shows "choose_head n ids (map Inr rows) = Inr (ids @ map (JStr \<circ> id_of \<circ> snd) (take (nat n - length ids) rows))"
  using assms
proof (induction rows arbitrary: ids)
  case (Cons r rows)
  obtain k d where r: "r = (k, d)" by (cases r)
  have d: "jitem d ''eventId'' = Inr (JStr (id_of d))" using Cons.prems(1) r by (simp add: str_id_iff)
  show ?case
  proof (cases "n \<le> int (length (ids @ [JStr (id_of d)]))")
    case True
    then have "nat n - length ids = 1" using Cons.prems(2) by simp
    then show ?thesis using True d r by simp
  next
    case False
    then have "nat n - length ids = Suc (nat n - length (ids @ [JStr (id_of d)]))" by simp
    then show ?thesis using False d r Cons.IH [of "ids @ [JStr (id_of d)]"] Cons.prems(1) by simp
  qed
qed simp

lemma choose_classes_rows:
  assumes "\<forall>r \<in> set rows. str_id (snd r)" "length fs \<le> n" "length ns \<le> n"
  shows "choose_classes (int n) (fs, ns) (map Inr rows) =
    Inr (take n (fs @ map (JStr \<circ> id_of) (filter is_fraud (map snd rows))),
         take n (ns @ map (JStr \<circ> id_of) (filter is_legit (map snd rows))))"
  using assms
proof (induction rows arbitrary: fs ns)
  case (Cons r rows)
  obtain k d where r: "r = (k, d)" by (cases r)
  have d: "jitem d ''eventId'' = Inr (JStr (id_of d))" using Cons.prems(1) r by (simp add: str_id_iff)
  obtain fs' ns' where a: "add_by_class (int n) d (JStr (id_of d)) (fs, ns) = (fs', ns')" by fastforce
  have l: "length fs' \<le> n" "length ns' \<le> n"
    using a Cons.prems(2,3) by (auto simp: add_by_class_def split: if_splits)
  have t: "take n (fs' @ map (JStr \<circ> id_of) (filter is_fraud (map snd rows))) =
      take n (fs @ map (JStr \<circ> id_of) (filter is_fraud (map snd (r # rows))))"
    "take n (ns' @ map (JStr \<circ> id_of) (filter is_legit (map snd rows))) =
      take n (ns @ map (JStr \<circ> id_of) (filter is_legit (map snd (r # rows))))"
    using a Cons.prems(2,3) r by (auto simp: add_by_class_def is_fraud_def is_legit_def take_Cons' split: if_splits)
  show ?case
  proof (cases "int n \<le> int (length fs') \<and> int n \<le> int (length ns')")
    case True
    then have "take n (fs' @ map (JStr \<circ> id_of) (filter is_fraud (map snd rows))) = fs'"
      "take n (ns' @ map (JStr \<circ> id_of) (filter is_legit (map snd rows))) = ns'" using l by simp_all
    moreover have "choose_classes (int n) (fs, ns) (map Inr (r # rows)) = Inr (fs', ns')"
      using True d r a by (simp add: Let_def)
    ultimately show ?thesis unfolding t by (simp only:)
  next
    case False
    then have "choose_classes (int n) (fs, ns) (map Inr (r # rows)) = choose_classes (int n) (fs', ns') (map Inr rows)"
      using d r a by (auto simp: Let_def)
    moreover have "\<forall>r \<in> set rows. str_id (snd r)" using Cons.prems(1) by simp
    ultimately show ?thesis using Cons.IH [OF _ l] unfolding t by (simp only:)
  qed
qed simp

lemma choose_ids_rows:
  assumes "\<forall>r \<in> set er. str_id (snd r)" "\<forall>r \<in> set lr. str_id (snd r)" "0 < n"
    and "se_events env = Some els" "sample_items (se_loads env) (sa_events_name a) els = map Inr er"
    and "se_labels env = Some lls" "sample_items (se_loads env) (sa_labels_name a) lls = map Inr lr"
    and "sa_sample_size a = int n"
  shows "choose_ids env a = Inr (map JStr (chosen (sa_strategy a) n (map snd er) (map snd lr)))"
proof (cases "sa_strategy a")
  case Head
  then show ?thesis using choose_head_rows [OF assms(1), of "[]" "int n"] assms(3-)
    by (simp add: choose_ids_def choose_ids_head_def chosen_def take_map)
next
  case Balanced
  have "nat (int n - int k) = n - k" for k by simp
  then show ?thesis using Balanced choose_classes_rows [OF assms(2), of "[]" n "[]"] assms(3-)
    by (simp add: choose_ids_def choose_ids_balanced_def chosen_def Let_def take_map)
qed

lemma select_rows_rows:
  assumes "\<forall>r \<in> set rows. str_id (snd r)"
  shows "select_rows (map JStr ids) (map Inr rows) = Inr (filter (\<lambda>r. id_of r \<in> set ids) (map snd rows))"
proof -
  have "foldM (\<lambda>acc (n, row). let eid = jget row ''eventId'' in
     if \<not> hashable eid then Inl TypeError
     else Inr (if list_ex (same_key eid) (map JStr ids) then acc @ [row] else acc)) acc rows
    = Inr (acc @ filter (\<lambda>r. id_of r \<in> set ids) (map snd rows))" for acc
    using assms
  proof (induction rows arbitrary: acc)
    case (Cons r rows)
    obtain k d where r: "r = (k, d)" by (cases r)
    obtain s where "jget d ''eventId'' = JStr s" using Cons.prems r by (auto dest: str_id_get)
    then show ?case using Cons r by (simp add: list_ex_same_key Let_def)
  qed simp
  then show ?thesis by (simp add: select_rows_def for_items_map_Inr)
qed

section \<open>The order of the sample\<close>

lemma order_of_nth:
  assumes "distinct ids" "i < length ids"
  shows "order_of (map JStr ids) (JStr (ids ! i)) = i"
proof -
  have "same_key (JStr (ids ! i)) (map JStr ids ! j) \<longleftrightarrow> j = i" if "j < length ids" for j
    using assms that by (simp add: nth_eq_iff_index_eq)
  then have "\<forall>j \<in> set [0..<length ids]. same_key (JStr (ids ! i)) (map JStr ids ! j) \<longleftrightarrow> j = i" by simp
  then have "filter (\<lambda>j. same_key (JStr (ids ! i)) (map JStr ids ! j)) [0..<length ids] = filter (\<lambda>j. j = i) [0..<length ids]"
    by (intro filter_cong) simp_all
  moreover have "set (filter (\<lambda>j. j = i) [0..<length ids]) = {i}" using assms(2) by auto
  ultimately show ?thesis unfolding order_of_def length_map by simp
qed

lemma sort_rows_order:
  assumes "distinct ids" "distinct (map id_of rows)" "\<forall>r \<in> set rows. str_id r" "set (map id_of rows) = set ids"
  shows "\<exists>rows'. sort_rows (map JStr ids) rows = Inr rows' \<and> map id_of rows' = ids \<and> mset rows' = mset rows"
proof -
  let ?k = "\<lambda>r. order_of (map JStr ids) (jget r ''eventId'')" and ?o = "\<lambda>s. order_of (map JStr ids) (JStr s)"
  have k: "?k r = ?o (id_of r)" if "r \<in> set rows" for r
    using str_id_get [of r] assms(3) that by (simp only:)
  have o: "map ?o ids = [0..<length ids]" by (rule nth_equalityI) (simp_all add: order_of_nth [OF assms(1)])
  then have inj: "inj_on ?o (set ids)" by (metis distinct_map distinct_upt)
  define rows' where "rows' = sort_key ?k rows"
  have m: "mset rows' = mset rows" by (simp add: rows'_def)
  then have s: "set rows' = set rows" by (metis set_mset_mset)
  have "sorted (map ?k rows')" by (simp add: rows'_def)
  moreover have "map ?k rows' = map ?o (map id_of rows')" using k s by simp
  ultimately have sorted: "sorted (map ?o (map id_of rows'))" by simp
  have d: "distinct (map id_of rows')" using assms(2) m by (metis distinct_map mset_eq_imp_distinct_iff s)
  have set: "set (map id_of rows') = set ids" using s assms(4) by simp
  have "map id_of rows' = ids"
  proof (rule map_sorted_distinct_set_unique [of ?o])
    show "inj_on ?o (set (map id_of rows') \<union> set ids)" using inj set by simp
    show "distinct (map ?o (map id_of rows'))" using d inj set by (simp add: distinct_map del: map_map)
  qed (use sorted o assms(1) inj set in \<open>simp_all add: distinct_map del: map_map\<close>)
  moreover have "sort_rows (map JStr ids) rows = Inr rows'"
  proof -
    have "mapM (\<lambda>r. jitem r ''eventId'') rows = Inr (map (JStr \<circ> id_of) rows)"
      using assms(3) by (induction rows) (simp_all add: str_id_iff)
    then show ?thesis by (simp add: sort_rows_def rows'_def)
  qed
  ultimately show ?thesis using m by blast
qed

section \<open>What the checks let pass\<close>

definition sample_bad :: "bool \<Rightarrow> bool \<Rightarrow> string \<Rightarrow> bool" where
  "sample_bad forbid_label forbid_salt k \<longleftrightarrow> k \<in> set SAMPLE_RAW_FIELDS
     \<or> forbid_label \<and> k \<in> set SAMPLE_LABEL_FIELDS \<or> forbid_salt \<and> sample_salt_key k"

lemma sample_forbidden_key_None:
  "sample_forbidden_key forbid_label forbid_salt d p k = None \<longleftrightarrow> \<not> sample_bad forbid_label forbid_salt k"
  by (auto simp: sample_forbidden_key_def sample_bad_def)

interpretation ss: forbidden_scanner "sample_scan forbid_label forbid_salt path" "sample_bad forbid_label forbid_salt"
  for forbid_label forbid_salt path
  by unfold_locales (simp add: sample_scan_def scan_json_None_iff [OF sample_forbidden_key_None])

text \<open>An event that may be committed: no label, raw identifier or arrival time, and pseudonymous ids.\<close>

definition safe_event :: "jobj \<Rightarrow> bool" where
  "safe_event e \<longleftrightarrow> clean (sample_bad True False) (JObj e)
     \<and> (\<forall>(k, c) \<in> set SAMPLE_HASH_IDS. is_str (jget e k) \<and> hash_id_match c (the_str (jget e k)))
     \<and> \<not> has_key e ''receivedAt''"

definition sample_safe :: "jobj list \<Rightarrow> jobj list \<Rightarrow> jobj \<Rightarrow> bool" where
  "sample_safe events labels manifest \<longleftrightarrow>
     length events \<le> 1000 \<and> (\<forall>e \<in> set events. safe_event e)
     \<and> (\<forall>l \<in> set labels. clean (sample_bad False False) (JObj l)) \<and> clean (sample_bad False True) (JObj manifest)
     \<and> (\<exists>eis lis. id_set events = Inr eis \<and> id_set labels = Inr lis \<and> same_ids eis lis)"

definition sizes_ok :: "files \<Rightarrow> string list \<Rightarrow> bool" where
  "sizes_ok fs paths \<longleftrightarrow> (\<forall>p \<in> set paths. \<forall>text. fs p = Some text \<longrightarrow> utf8_size text \<le> MAX_SAMPLE_BYTES)"

lemma sample_event_checks_None: "sample_event_checks e = None \<longleftrightarrow> safe_event e"
proof -
  have ids: "(\<forall>c \<in> set (map (\<lambda>(k, c). raise_if (\<not> is_str (jget e k) \<or> \<not> hash_id_match c (the_str (jget e k))) (x k c)) ks). c = None)
      \<longleftrightarrow> (\<forall>(k, c) \<in> set ks. is_str (jget e k) \<and> hash_id_match c (the_str (jget e k)))" for x :: "string \<Rightarrow> char \<Rightarrow> exn" and ks
    by auto
  show ?thesis
    unfolding sample_event_checks_def first_fail_None_iff set_append ball_Un ids list.set ball_simps raise_if_None
      ss.scan_passes safe_event_def by blast
qed

lemma size_checks_None: "(\<forall>c \<in> set (map (size_check fs) paths). c = None) \<longleftrightarrow> sizes_ok fs paths"
  by (auto simp: sizes_ok_def size_check_def not_less split: option.splits)

lemma validate_generated_None:
  "validate_generated events labels manifest fs paths = None \<longleftrightarrow> sample_safe events labels manifest \<and> sizes_ok fs paths"
proof -
  have len: "MAX_SAMPLE_SIZE < int (length events) \<longleftrightarrow> \<not> length events \<le> 1000" by (auto simp: MAX_SAMPLE_SIZE_def)
  have scans: "(\<forall>c \<in> set (map sample_event_checks events). c = None) \<longleftrightarrow> (\<forall>e \<in> set events. safe_event e)"
    "(\<forall>c \<in> set (map (\<lambda>l. sample_scan False False ''sampleLabel'' (JObj l)) labels). c = None)
      \<longleftrightarrow> (\<forall>l \<in> set labels. clean (sample_bad False False) (JObj l))"
    by (simp_all add: sample_event_checks_None ss.scan_passes del: clean_simps)
  have "first_fail ([raise_if (\<not> same_ids eis lis) x] @ map sample_event_checks events @
      map (\<lambda>l. sample_scan False False ''sampleLabel'' (JObj l)) labels @
      [sample_scan False True ''manifest'' (JObj manifest)] @ map (size_check fs) paths) = None \<longleftrightarrow>
    same_ids eis lis \<and> (\<forall>e \<in> set events. safe_event e) \<and> (\<forall>l \<in> set labels. clean (sample_bad False False) (JObj l))
      \<and> clean (sample_bad False True) (JObj manifest) \<and> sizes_ok fs paths" for eis lis and x :: exn
    unfolding first_fail_None_iff set_append ball_Un scans size_checks_None list.set ball_simps raise_if_None ss.scan_passes
    by blast
  then show ?thesis unfolding validate_generated_def sample_safe_def len by auto
qed

section \<open>What is written\<close>

lemma generate_cases:
  obtains (refused) x where "generate env fs a = (fs, Inl x)"
    | (written) report events labels manifest where
        "load_report (se_loads env) (the (se_report env)) (sa_require_non_default_salt a) = Inr report"
        "sample_rows env a = Inr (events, labels)" "manifest = sample_manifest env a report events labels"
        "sample_safe events labels manifest"
        "generate env fs a = (write_sample a events labels manifest fs,
           if sizes_ok (write_sample a events labels manifest fs) (sample_output_paths a) then Inr manifest
           else Inl (the (validate_generated events labels manifest (write_sample a events labels manifest fs) (sample_output_paths a))))"
proof (cases "bind_res (load_report (se_loads env) (the (se_report env)) (sa_require_non_default_salt a)) (\<lambda>report.
      bind_res (sample_rows env a) (\<lambda>(events, labels). Inr (report, events, labels)))")
  case (Inl x)
  then have "\<exists>y. generate env fs a = (fs, Inl y)" by (auto simp: generate_def split: option.split)
  then show ?thesis using refused by blast
next
  case (Inr r)
  then obtain report events labels where r: "r = (report, events, labels)"
      "load_report (se_loads env) (the (se_report env)) (sa_require_non_default_salt a) = Inr report"
      "sample_rows env a = Inr (events, labels)" by auto
  define manifest where "manifest = sample_manifest env a report events labels"
  define fs' where "fs' = write_sample a events labels manifest fs"
  show ?thesis
  proof (cases "first_fail [raise_if (sa_sample_size a < 1 \<or> MAX_SAMPLE_SIZE < sa_sample_size a)
          (SampleError ''--sample-size must be between 1 and 1000''), missing_input env a, ensure_sample_outputs fs a] = None
      \<and> validate_generated events labels manifest fs (sample_output_paths a) = None")
    case True
    then have safe: "sample_safe events labels manifest" by (simp add: validate_generated_None)
    have "check_then (validate_generated events labels manifest fs' (sample_output_paths a)) (Inr manifest) =
        (if sizes_ok fs' (sample_output_paths a) then Inr manifest
         else Inl (the (validate_generated events labels manifest fs' (sample_output_paths a))))"
      using safe validate_generated_None [of events labels manifest fs' "sample_output_paths a"]
      by (cases "validate_generated events labels manifest fs' (sample_output_paths a)") auto
    then have "generate env fs a = (fs', if sizes_ok fs' (sample_output_paths a) then Inr manifest
         else Inl (the (validate_generated events labels manifest fs' (sample_output_paths a))))"
      using True Inr unfolding r(1) by (simp add: generate_def manifest_def [symmetric] fs'_def [symmetric] Let_def)
    then show ?thesis using written [OF r(2,3) manifest_def safe] unfolding fs'_def by blast
  next
    case False
    then have "\<exists>y. generate env fs a = (fs, Inl y)"
      using Inr unfolding r(1) by (auto simp: generate_def manifest_def [symmetric] Let_def split: option.split)
    then show ?thesis using refused by blast
  qed
qed

lemma first_fail_skip: "\<forall>c \<in> set xs. c = None \<Longrightarrow> first_fail (xs @ ys) = first_fail ys"
  by (simp add: first_fail_append first_fail_None_iff [symmetric])

lemma size_failure:
  assumes "sample_safe events labels manifest" "validate_generated events labels manifest fs paths = Some x"
  shows "\<exists>p \<in> set paths. x = SampleError (''sample file is larger than 1MB: '' @ p)"
proof -
  obtain eis lis where ids: "id_set events = Inr eis" "id_set labels = Inr lis" "same_ids eis lis"
    using assms(1) unfolding sample_safe_def by blast
  have none: "\<forall>c \<in> set ([raise_if (\<not> same_ids eis lis) (SampleError ''sample eventId set must match label eventId set'')] @
        map sample_event_checks events @
        map (\<lambda>l. sample_scan False False ''sampleLabel'' (JObj l)) labels @
        [sample_scan False True ''manifest'' (JObj manifest)]). c = None"
    using assms(1) ids(3) unfolding sample_safe_def
    by (auto simp: sample_event_checks_None ss.scan_passes simp del: clean_simps)
  have "validate_generated events labels manifest fs paths =
      first_fail (([raise_if (\<not> same_ids eis lis) (SampleError ''sample eventId set must match label eventId set'')] @
        map sample_event_checks events @
        map (\<lambda>l. sample_scan False False ''sampleLabel'' (JObj l)) labels @
        [sample_scan False True ''manifest'' (JObj manifest)]) @ map (size_check fs) paths)"
    using assms(1) unfolding validate_generated_def sample_safe_def by (simp add: ids MAX_SAMPLE_SIZE_def)
  also have "\<dots> = first_fail (map (size_check fs) paths)" by (rule first_fail_skip [OF none])
  finally have "first_fail (map (size_check fs) paths) = Some x" using assms(2) by simp
  then have "Some x \<in> set (map (size_check fs) paths)" by (rule first_fail_mem)
  moreover have "size_check fs p = Some x \<Longrightarrow> x = SampleError (''sample file is larger than 1MB: '' @ p)" for p
    by (auto simp: size_check_def split: option.splits)
  moreover obtain p where "p \<in> set paths" "size_check fs p = Some x" using calculation(1) by (metis imageE set_map)
  ultimately show ?thesis by blast
qed

text \<open>The rows of a file, up to its first bad line\<close>

definition rows_in :: "item list \<Rightarrow> jobj set" where
  "rows_in items = {d. \<exists>n. Inr (n, d) \<in> set items}"

definition event_items :: "sample_env \<Rightarrow> sample_args \<Rightarrow> item list" where
  "event_items env a = sample_items (se_loads env) (sa_events_name a) (the (se_events env))"

definition label_items :: "sample_env \<Rightarrow> sample_args \<Rightarrow> item list" where
  "label_items env a = sample_items (se_loads env) (sa_labels_name a) (the (se_labels env))"

lemma rows_inI: "Inr (n, d) \<in> set items \<Longrightarrow> d \<in> rows_in items"
  by (auto simp: rows_in_def)

lemma select_rows_subset: "select_rows ids items = Inr rows \<Longrightarrow> set rows \<subseteq> rows_in items"
  unfolding select_rows_def
  by (rule for_items_invariant [where P = "\<lambda>rows. set rows \<subseteq> rows_in items"], assumption)
     (auto simp: Let_def dest: rows_inI split: if_splits)

lemma sort_rows_set: "sort_rows ids rows = Inr rows' \<Longrightarrow> set rows' = set rows"
  by (auto simp: sort_rows_def)

lemma sample_rows_subset:
  assumes "sample_rows env a = Inr (events, labels)"
  shows "set events \<subseteq> rows_in (event_items env a)" "set labels \<subseteq> rows_in (label_items env a)"
  using assms by (auto simp: sample_rows_def event_items_def label_items_def split: if_splits
      dest!: select_rows_subset sort_rows_set)

text \<open>C14: whatever happens, the generation either leaves all files as they are and fails, or it writes the three
  files of a sample with at most 1000 events, all rows of the events and labels files, in which no event holds a label,
  a raw identifier or an arrival time, no label holds a raw identifier, the manifest holds neither identifiers nor salts,
  and events and labels are about the same ids; then it succeeds exactly when no file is larger than one megabyte.\<close>

theorem samples_safe:
  "case generate env fs a of (fs', r) \<Rightarrow> fs' = fs \<and> (\<exists>x. r = Inl x)
    \<or> (\<exists>events labels manifest. fs' = write_sample a events labels manifest fs \<and> sample_safe events labels manifest
        \<and> set events \<subseteq> rows_in (event_items env a) \<and> set labels \<subseteq> rows_in (label_items env a)
        \<and> (if sizes_ok fs' (sample_output_paths a) then r = Inr manifest
           else \<exists>p \<in> set (sample_output_paths a). r = Inl (SampleError (''sample file is larger than 1MB: '' @ p))))"
proof (cases rule: generate_cases [of env fs a])
  case (refused x)
  then show ?thesis by simp
next
  case (written report events labels manifest)
  let ?fs' = "write_sample a events labels manifest fs"
  have "\<exists>p \<in> set (sample_output_paths a). the (validate_generated events labels manifest ?fs' (sample_output_paths a))
      = SampleError (''sample file is larger than 1MB: '' @ p)" if n: "\<not> sizes_ok ?fs' (sample_output_paths a)"
  proof -
    obtain x where "validate_generated events labels manifest ?fs' (sample_output_paths a) = Some x"
      using n validate_generated_None [of events labels manifest ?fs' "sample_output_paths a"]
      by (cases "validate_generated events labels manifest ?fs' (sample_output_paths a)") auto
    then show ?thesis using size_failure [OF written(4)] by simp
  qed
  moreover obtain r where r: "generate env fs a = (?fs', r)" "r = (if sizes_ok ?fs' (sample_output_paths a) then Inr manifest
      else Inl (the (validate_generated events labels manifest ?fs' (sample_output_paths a))))"
    using written(5) by blast
  ultimately have "if sizes_ok ?fs' (sample_output_paths a) then r = Inr manifest
      else \<exists>p \<in> set (sample_output_paths a). r = Inl (SampleError (''sample file is larger than 1MB: '' @ p))"
    by (simp only: split: if_split) blast
  then show ?thesis unfolding r(1) prod.case using written(4) sample_rows_subset [OF written(2)] by blast
qed

section \<open>Failures\<close>

definition sample_exn :: "jobj set \<Rightarrow> exn \<Rightarrow> bool" where
  "sample_exn rows x \<longleftrightarrow> (\<exists>m. x = SampleError m) \<or> (\<exists>p. x = FileNotFoundError p)
     \<or> (x = KeyError ''eventId'' \<or> x = TypeError) \<and> (\<exists>r \<in> rows. \<not> str_id r)"

lemma sample_exn_simps [simp]: "sample_exn rows (SampleError m)" "sample_exn rows (FileNotFoundError p)"
  by (simp_all add: sample_exn_def)

lemma sample_exn_mono: "sample_exn rows x \<Longrightarrow> rows \<subseteq> rows' \<Longrightarrow> sample_exn rows' x"
  by (auto simp: sample_exn_def)

lemma id_exn:
  "r \<in> rows \<Longrightarrow> jitem r ''eventId'' = Inl x \<Longrightarrow> sample_exn rows x"
  "r \<in> rows \<Longrightarrow> \<not> hashable (jget r ''eventId'') \<Longrightarrow> sample_exn rows TypeError"
  "r \<in> rows \<Longrightarrow> jitem r ''eventId'' = Inr v \<Longrightarrow> \<not> hashable v \<Longrightarrow> sample_exn rows TypeError"
proof -
  have "jitem r k = Inl x \<Longrightarrow> x = KeyError k \<and> \<not> has_key r k" for k
    by (auto simp: jitem_def has_key_iff split: option.splits)
  then show "r \<in> rows \<Longrightarrow> jitem r ''eventId'' = Inl x \<Longrightarrow> sample_exn rows x"
    by (fastforce simp: sample_exn_def str_id_def)
  have "is_str v \<Longrightarrow> hashable v" for v by (cases v) auto
  then show "r \<in> rows \<Longrightarrow> \<not> hashable (jget r ''eventId'') \<Longrightarrow> sample_exn rows TypeError"
    by (auto simp: sample_exn_def str_id_def)
  have "jitem r k = Inr v \<Longrightarrow> jget r k = v" for k by (auto simp: jitem_def jget_or_def split: option.splits)
  then show "r \<in> rows \<Longrightarrow> jitem r ''eventId'' = Inr v \<Longrightarrow> \<not> hashable v \<Longrightarrow> sample_exn rows TypeError"
    using \<open>r \<in> rows \<Longrightarrow> \<not> hashable (jget r ''eventId'') \<Longrightarrow> sample_exn rows TypeError\<close> by blast
qed

lemma sample_items_exn: "Inl y \<in> set (sample_items loads name ls) \<Longrightarrow> \<exists>m. y = SampleError m"
  unfolding sample_items_def by (fastforce dest: jsonl_items_exn)

lemma sample_scan_exn: "sample_scan fl fs p v = Some x \<Longrightarrow> \<exists>m. x = SampleError m"
  unfolding sample_scan_def
  by (erule scan_json_Some(1) [where P = "\<lambda>x. \<exists>m. x = SampleError m", rotated 2])
    (auto simp: sample_forbidden_key_def split: if_splits)

lemma choose_head_exn:
  assumes "choose_head n ids items = Inl x" "\<forall>y. Inl y \<in> set items \<longrightarrow> (\<exists>m. y = SampleError m)" "rows_in items \<subseteq> rows"
  shows "sample_exn rows x"
  using assms
proof (induction n ids items rule: choose_head.induct)
  case (3 n ids k event "is")
  have m: "event \<in> rows" "rows_in is \<subseteq> rows" using "3.prems"(3) by (auto simp: rows_in_def)
  show ?case
  proof (cases "jitem event ''eventId''")
    case (Inl y)
    then show ?thesis using "3.prems"(1) id_exn(1) [OF m(1)] by simp
  next
    case (Inr eid)
    then show ?thesis using "3.IH" [OF Inr] "3.prems"(1,2) m(2) by (auto split: if_splits)
  qed
qed auto

lemma choose_classes_exn:
  assumes "choose_classes n ids items = Inl x" "\<forall>y. Inl y \<in> set items \<longrightarrow> (\<exists>m. y = SampleError m)" "rows_in items \<subseteq> rows"
  shows "sample_exn rows x"
  using assms
proof (induction n ids items rule: choose_classes.induct)
  case (3 n ids k label "is")
  have m: "label \<in> rows" "rows_in is \<subseteq> rows" using "3.prems"(3) by (auto simp: rows_in_def)
  show ?case
  proof (cases "jitem label ''eventId''")
    case (Inl y)
    then show ?thesis using "3.prems"(1) id_exn(1) [OF m(1)] by simp
  next
    case (Inr eid)
    then show ?thesis using "3.IH" [OF Inr] "3.prems"(1,2) m(2) by (auto simp: Let_def split: if_splits)
  qed
qed auto

lemma choose_ids_exn:
  assumes "choose_ids env a = Inl x"
  shows "sample_exn (rows_in (event_items env a) \<union> rows_in (label_items env a)) x"
proof (cases "sa_strategy a")
  case Head
  then have "choose_head (sa_sample_size a) [] (event_items env a) = Inl x"
    using assms by (simp add: choose_ids_def choose_ids_head_def event_items_def)
  then show ?thesis by (rule choose_head_exn) (auto simp: event_items_def dest: sample_items_exn)
next
  case Balanced
  then have "choose_classes (sa_sample_size a) ([], []) (label_items env a) = Inl x"
    using assms by (auto simp: choose_ids_def choose_ids_balanced_def label_items_def bind_res_Inl Let_def)
  then show ?thesis by (rule choose_classes_exn) (auto simp: label_items_def dest: sample_items_exn)
qed

lemma choose_head_from:
  "choose_head n ids items = Inr out \<Longrightarrow> \<forall>v \<in> set ids. \<exists>d \<in> rows. jitem d ''eventId'' = Inr v \<Longrightarrow> rows_in items \<subseteq> rows \<Longrightarrow>
   \<forall>v \<in> set out. \<exists>d \<in> rows. jitem d ''eventId'' = Inr v"
proof (induction n ids items rule: choose_head.induct)
  case (3 n ids k event "is")
  have m: "event \<in> rows" "rows_in is \<subseteq> rows" using "3.prems"(3) by (auto simp: rows_in_def)
  obtain eid where e: "jitem event ''eventId'' = Inr eid" using "3.prems"(1) by auto
  have "\<forall>v \<in> set (ids @ [eid]). \<exists>d \<in> rows. jitem d ''eventId'' = Inr v" using e m(1) "3.prems"(2) by auto
  then show ?case using "3.IH" [OF e] "3.prems"(1) e m(2) by (auto split: if_splits)
qed auto

lemma choose_classes_from:
  "choose_classes n ids items = Inr out \<Longrightarrow> \<forall>v \<in> set (fst ids) \<union> set (snd ids). \<exists>d \<in> rows. jitem d ''eventId'' = Inr v \<Longrightarrow>
   rows_in items \<subseteq> rows \<Longrightarrow> \<forall>v \<in> set (fst out) \<union> set (snd out). \<exists>d \<in> rows. jitem d ''eventId'' = Inr v"
proof (induction n ids items rule: choose_classes.induct)
  case (3 n ids k label "is")
  have m: "label \<in> rows" "rows_in is \<subseteq> rows" using "3.prems"(3) by (auto simp: rows_in_def)
  obtain eid where e: "jitem label ''eventId'' = Inr eid" using "3.prems"(1) by auto
  define ids' where "ids' = add_by_class n label eid ids"
  have "\<forall>v \<in> set (fst ids') \<union> set (snd ids'). \<exists>d \<in> rows. jitem d ''eventId'' = Inr v"
    using e m(1) "3.prems"(2) by (auto simp: ids'_def add_by_class_def)
  then show ?case using "3.IH" [OF e ids'_def] "3.prems"(1) e m(2)
    by (auto simp: Let_def ids'_def [symmetric] split: if_splits)
qed auto

lemma chosen_from:
  assumes "choose_ids env a = Inr ids" "v \<in> set ids"
  shows "\<exists>d \<in> rows_in (event_items env a) \<union> rows_in (label_items env a). jitem d ''eventId'' = Inr v"
proof (cases "sa_strategy a")
  case Head
  then have "choose_head (sa_sample_size a) [] (event_items env a) = Inr ids"
    using assms by (simp add: choose_ids_def choose_ids_head_def event_items_def)
  then show ?thesis using choose_head_from [of _ "[]" _ ids "rows_in (event_items env a)"] assms(2) by fastforce
next
  case Balanced
  then obtain out where "choose_classes (sa_sample_size a) ([], []) (label_items env a) = Inr out"
      "v \<in> set (fst out) \<union> set (snd out)"
    using assms by (auto simp: choose_ids_def choose_ids_balanced_def label_items_def Let_def dest!: in_set_takeD)
  then show ?thesis using choose_classes_from [of _ "([], [])" _ out "rows_in (label_items env a)"] by fastforce
qed

lemma for_items_exn_in:
  assumes "for_items f s is = Inl x" "\<And>y. Inl y \<in> set is \<Longrightarrow> P y" "\<And>s n row y. Inr (n, row) \<in> set is \<Longrightarrow> f s n row = Inl y \<Longrightarrow> P y"
  shows "P x"
  using assms
proof (induction f s "is" rule: for_items.induct)
  case (3 f s n d "is")
  show ?case
  proof (cases "f s n d")
    case (Inl y)
    then show ?thesis using "3.prems"(1) "3.prems"(3) [of n d s y] by simp
  next
    case (Inr s')
    show ?thesis
      by (rule "3.IH" [OF Inr]) (use "3.prems" Inr in \<open>auto intro: "3.prems"(3)\<close>)
  qed
qed auto

lemma select_rows_exn:
  assumes "select_rows ids items = Inl x" "\<forall>y. Inl y \<in> set items \<longrightarrow> (\<exists>m. y = SampleError m)"
  shows "sample_exn (rows_in items) x"
  using assms(1) unfolding select_rows_def
proof (rule for_items_exn_in)
  show "sample_exn (rows_in items) y" if "Inl y \<in> set items" for y using assms(2) that by auto
  show "sample_exn (rows_in items) y" if "Inr (n, row) \<in> set items"
    "(let eid = jget row ''eventId'' in if \<not> hashable eid then Inl TypeError
      else Inr (if list_ex (same_key eid) ids then acc @ [row] else acc)) = Inl y" for acc n row y
    using that id_exn(2) [OF rows_inI [OF that(1)]] by (auto simp: Let_def split: if_splits)
qed

lemma sample_select_exn:
  "set rows \<subseteq> S \<Longrightarrow> sort_rows ids rows = Inl x \<Longrightarrow> sample_exn S x"
  "set rows \<subseteq> S \<Longrightarrow> id_set rows = Inl x \<Longrightarrow> sample_exn S x"
proof -
  show "set rows \<subseteq> S \<Longrightarrow> sort_rows ids rows = Inl x \<Longrightarrow> sample_exn S x"
    by (auto simp: sort_rows_def bind_res_Inl dest!: mapM_Inl intro: id_exn(1))
  show "set rows \<subseteq> S \<Longrightarrow> id_set rows = Inl x \<Longrightarrow> sample_exn S x"
    by (auto simp: id_set_def bind_res_Inl dest!: mapM_Inl split: if_splits) (use id_exn(1,3) in blast)+
qed

lemma load_report_exn: "load_report loads text strict = Inl x \<Longrightarrow> \<exists>m. x = SampleError m"
  by (auto simp: load_report_def Let_def check_then_Inl_iff first_fail_Cons raise_if_def dest: sample_scan_exn
      split: option.splits json.splits if_splits)

lemma validate_generated_exn:
  assumes "validate_generated events labels manifest fs paths = Some x" "set events \<subseteq> S" "set labels \<subseteq> S"
  shows "sample_exn S x"
proof -
  have e: "sample_event_checks e = Some x \<Longrightarrow> \<exists>m. x = SampleError m" for e x
    unfolding sample_event_checks_def by (drule first_fail_mem) (auto dest!: sym [of "Some x"] dest: sample_scan_exn)
  have z: "size_check fs p = Some x \<Longrightarrow> \<exists>m. x = SampleError m" for p x
    by (auto simp: size_check_def split: option.splits)
  show ?thesis
  proof (cases "MAX_SAMPLE_SIZE < int (length events)")
    case True
    then show ?thesis using assms(1) by (auto simp: validate_generated_def)
  next
    case False
    then consider "id_set events = Inl x" | "id_set labels = Inl x"
      | eis lis where "Some x \<in> set ([raise_if (\<not> same_ids eis lis) (SampleError ''sample eventId set must match label eventId set'')] @
        map sample_event_checks events @
        map (\<lambda>l. sample_scan False False ''sampleLabel'' (JObj l)) labels @
        [sample_scan False True ''manifest'' (JObj manifest)] @ map (size_check fs) paths)"
      using assms(1) unfolding validate_generated_def with_val_def
      by (auto split: sum.splits simp del: append.simps dest: first_fail_mem)
    then show ?thesis
    proof cases
      case 3
      then show ?thesis by (auto dest!: sym [of "Some x"] dest: e z sample_scan_exn)
    qed (use assms(2,3) sample_select_exn(2) in blast)+
  qed
qed

lemma sample_rows_exn:
  assumes "sample_rows env a = Inl x"
  shows "sample_exn (rows_in (event_items env a) \<union> rows_in (label_items env a)) x"
proof (cases "choose_ids env a")
  case (Inl y)
  then show ?thesis using assms choose_ids_exn by (simp add: sample_rows_def)
next
  case (Inr ids)
  let ?S = "rows_in (event_items env a) \<union> rows_in (label_items env a)"
  note select = select_rows_exn [of ids "event_items env a"] select_rows_exn [of ids "label_items env a"]
  have items: "\<forall>y. Inl y \<in> set (event_items env a) \<longrightarrow> (\<exists>m. y = SampleError m)"
    "\<forall>y. Inl y \<in> set (label_items env a) \<longrightarrow> (\<exists>m. y = SampleError m)"
    by (auto simp: event_items_def label_items_def dest: sample_items_exn)
  consider "x = SampleError ''no sample eventIds selected''" | "x = TypeError" "\<not> list_all hashable ids"
    | "select_rows ids (event_items env a) = Inl x" | "select_rows ids (label_items env a) = Inl x"
    | rows where "select_rows ids (event_items env a) = Inr rows" "sort_rows ids rows = Inl x"
    | rows where "select_rows ids (label_items env a) = Inr rows" "sort_rows ids rows = Inl x"
    using assms by (auto simp: sample_rows_def Inr bind_res_Inl event_items_def label_items_def split: if_splits)
  then show ?thesis
  proof cases
    case 2
    then obtain v where "v \<in> set ids" "\<not> hashable v" by (auto simp: list_all_iff)
    then show ?thesis using chosen_from [OF Inr] id_exn(3) 2(1) by blast
  next
    case 3
    show ?thesis by (rule sample_exn_mono [OF select(1) [OF 3 items(1)]]) simp
  next
    case 4
    show ?thesis by (rule sample_exn_mono [OF select(2) [OF 4 items(2)]]) simp
  next
    case 5
    then show ?thesis by (intro sample_select_exn(1) [OF _ 5(2)]) (use select_rows_subset in blast)
  next
    case 6
    then show ?thesis by (intro sample_select_exn(1) [OF _ 6(2)]) (use select_rows_subset in blast)
  qed simp
qed

text \<open>C38: a generation that fails has raised \<open>SampleError\<close> (exit status 1), \<open>FileNotFoundError\<close> (exit status 2) or,
  only when a row has no text as its \<open>eventId\<close>, a \<open>KeyError\<close> or \<open>TypeError\<close> that the script does not handle.\<close>

theorem sample_failures:
  assumes "snd (generate env fs a) = Inl x"
  shows "(\<exists>m. x = SampleError m) \<and> sample_exit_status (Inl x) = Inr 1
    \<or> (\<exists>p. x = FileNotFoundError p) \<and> sample_exit_status (Inl x) = Inr 2
    \<or> (x = KeyError ''eventId'' \<or> x = TypeError) \<and> sample_exit_status (Inl x) = Inl x
      \<and> (\<exists>r \<in> rows_in (event_items env a) \<union> rows_in (label_items env a). \<not> str_id r)"
proof -
  let ?S = "rows_in (event_items env a) \<union> rows_in (label_items env a)"
  have first: "first_fail [raise_if b (SampleError m), missing_input env a, ensure_sample_outputs f a] = Some y \<Longrightarrow> sample_exn ?S y" for b m f y
    by (drule first_fail_mem) (auto simp: missing_input_def ensure_sample_outputs_def Let_def raise_if_def first_fail_Cons split: if_splits)
  have checks: "validate_generated e l m f ps = Some y \<Longrightarrow> sample_rows env a = Inr (e, l) \<Longrightarrow> sample_exn ?S y" for e l m f ps y
    using sample_rows_subset [of env a e l] by (auto dest!: validate_generated_exn [where S = ?S])
  have "sample_exn ?S x" using assms unfolding generate_def
    by (auto split: option.splits sum.splits prod.splits simp: bind_res_Inl Let_def check_then_Inl_iff
        dest: load_report_exn sample_rows_exn first checks)
  then show ?thesis by (auto simp: sample_exn_def sample_exit_status_def)
qed

text \<open>A file of one event, one of its label, and a report; with the strategy \<open>Head\<close>.\<close>

definition demo_sample_args :: sample_args where
  "demo_sample_args = default_sample_args\<lparr>sa_strategy := Head\<rparr>"

definition demo_sample_env :: "jobj \<Rightarrow> sample_env" where
  "demo_sample_env event =
    \<lparr>se_events = Some [''e''], se_labels = Some [''l''], se_report = Some ''r'',
     se_loads = (\<lambda>s. if s = ''e'' then Some (JObj event)
        else if s = ''l'' then Some (JObj [(''eventId'', JStr ''p-1''), (''isFraud'', JBool True)])
        else if s = ''r'' then Some (JObj [(''hashAlgorithm'', JStr ''HMAC-SHA256''), (''hashIdPrefixLength'', JInt 16),
           (''hashSaltSource'', JStr ''env'')])
        else None),
     se_now = ''2024-01-01T00:00:00Z''\<rparr>"

definition demo_sample_event :: jobj where
  "demo_sample_event = [(''eventId'', JStr ''p-1''), (''userId'', JStr ''U-0123456789abcdef''),
     (''accountId'', JStr ''A-0123456789abcdef''), (''destinationAccountId'', JStr ''D-0123456789abcdef'')]"

lemma demo_sample_fails: "snd (generate (demo_sample_env []) (\<lambda>_. None) demo_sample_args) = Inl (KeyError ''eventId'')"
  by code_simp

theorem sample_failures_witness:
  "sample_exit_status (Inl (KeyError ''eventId'')) = Inl (KeyError ''eventId'')
    \<and> (\<exists>r \<in> rows_in (event_items (demo_sample_env []) demo_sample_args) \<union> rows_in (label_items (demo_sample_env []) demo_sample_args).
         \<not> str_id r)"
  using sample_failures [OF demo_sample_fails] by auto

end
