(* ===== verification/ValidateThenSample.thy ===== *)
theory ValidateThenSample
  imports SamplesProperties ValidateProperties
begin

text \<open>
  The validation of the outputs and the generation of a sample from them, composed: a dataset that the validator
  lets pass is sampled without failure, and the sample holds exactly the chosen rows, in the order they were chosen.
\<close>

text \<open>The inputs of the generation are the files the validation read.\<close>

definition same_files :: "validate_env \<Rightarrow> sample_env \<Rightarrow> bool" where
  "same_files venv env \<longleftrightarrow> se_events env = vo_events venv \<and> se_labels env = vo_labels venv \<and> se_report env = vo_report venv
     \<and> se_loads env = vo_loads venv"

text \<open>The generation is allowed to write, and the texts that reach the manifest hold no raw identifier.\<close>

definition sampling_allowed :: "sample_env \<Rightarrow> sample_args \<Rightarrow> files \<Rightarrow> bool" where
  "sampling_allowed env a fs \<longleftrightarrow> 1 \<le> sa_sample_size a \<and> sa_sample_size a \<le> 1000
     \<and> (sa_force a \<or> (\<forall>p \<in> set (sample_output_paths a). fs p = None)) \<and> sizes_ok fs (sample_output_paths a)
     \<and> (\<forall>s \<in> {sa_events a, sa_labels a, sa_events_output a, sa_labels_output a, se_now env}. \<not> raw_identifier_search s)"

text \<open>Blank lines aside, the items of a file do not depend on the messages for bad lines when there is none.\<close>

lemma jsonl_items_rows:
  "jsonl_items f g loads n ls = map Inr rows \<Longrightarrow> jsonl_items f' g' loads n ls = map Inr rows"
proof (induction f g loads n ls arbitrary: rows rule: jsonl_items.induct)
  case (2 f g loads n l ls)
  show ?case
  proof (cases "strip l = []")
    case False
    then obtain d where d: "loads (strip l) = Some (JObj d)"
      using 2(3) by (cases rows) (auto split: option.splits json.splits)
    then obtain rows' where "rows = (n, d) # rows'" "jsonl_items f g loads (Suc n) ls = map Inr rows'"
      using 2(3) False by (cases rows) auto
    with d show ?thesis using False 2(2) [OF False d refl] by simp
  qed (use 2 in auto)
qed simp

lemma file_holds_sample:
  assumes "file_holds venv name file rows"
  shows "\<exists>nrows. file \<noteq> None \<and> sample_items (vo_loads venv) name' (the file) = map Inr nrows \<and> rows = map snd nrows"
proof -
  obtain ls nrows where f: "file = Some ls" "output_items (vo_loads venv) name ls = map Inr nrows" "rows = map snd nrows"
    using assms unfolding file_holds_def by blast
  have "sample_items (vo_loads venv) name' ls = map Inr nrows"
    using f(2) unfolding output_items_def sample_items_def by (rule jsonl_items_rows)
  with f show ?thesis by auto
qed

lemma same_bad: "sample_bad fl fs k \<longleftrightarrow> output_bad fl fs k"
  by (simp add: sample_bad_def output_bad_def SAMPLE_RAW_FIELDS_def RAW_IDENTIFIER_FIELDS_def SAMPLE_LABEL_FIELDS_def
      LABEL_LEAKAGE_FIELDS_def sample_salt_key_def salt_key_def SAMPLE_SALT_FIELDS_def SALT_VALUE_FIELDS_def)

lemma same_clean: "clean (sample_bad fl fs) v \<longleftrightarrow> clean (output_bad fl fs) v"
  by (simp add: clean_def same_bad)

lemma valid_event_safe: "event_ok fromiso e \<Longrightarrow> safe_event e \<and> str_id e"
  by (auto simp: event_ok_def safe_event_def same_clean SAMPLE_HASH_IDS_def OUTPUT_HASH_IDS_def str_id_def
      has_fields_def EVENT_REQUIRED_FIELDS_def nonempty_str_def Let_def simp del: clean_simps)

lemma valid_label_safe: "label_ok l \<Longrightarrow> clean (sample_bad False False) (JObj l) \<and> str_id l"
  by (auto simp: label_ok_def same_clean str_id_def has_fields_def LABEL_REQUIRED_FIELDS_def simp del: clean_simps)

lemma valid_label_class: "label_ok l \<Longrightarrow> is_legit l \<longleftrightarrow> \<not> is_fraud l"
  by (cases "jget l ''isFraud''") (auto simp: label_ok_def is_legit_def is_fraud_def)

lemma chosen_ids:
  assumes "distinct (map id_of E)" "distinct (map id_of L)" "set (map id_of L) = set (map id_of E)" "\<forall>l \<in> set L. is_legit l \<longleftrightarrow> \<not> is_fraud l"
  shows "distinct (chosen s n E L)" "set (chosen s n E L) \<subseteq> set (map id_of E)" "length (chosen s n E L) = min n (length E)"
proof -
  have "length (map id_of L) = length (map id_of E)"
    unfolding distinct_card [OF assms(1), symmetric] distinct_card [OF assms(2), symmetric] assms(3) ..
  then have len: "length L = length E" by simp
  define F where "F = take n (filter is_fraud L)"
  define N where "N = take (n - length F) (filter is_legit L)"
  have legit: "filter is_legit L = filter (\<lambda>l. \<not> is_fraud l) L" using assms(4) by (intro filter_cong) auto
  have sub: "set (F @ N) \<subseteq> set L" unfolding F_def N_def by (auto dest: in_set_takeD)
  have "distinct L" using assms(2) by (simp add: distinct_map)
  then have "distinct (F @ N)" unfolding F_def N_def legit by (auto dest!: in_set_takeD)
  then have d: "distinct (map id_of (F @ N))" using inj_on_subset [OF conjunct2 [OF assms(2) [unfolded distinct_map]] sub]
    unfolding distinct_map by blast
  have "length (filter is_fraud L) + length (filter is_legit L) = length L"
    unfolding legit by (rule sum_length_filter_compl)
  then have l: "length (F @ N) = min n (length E)" unfolding F_def N_def len [symmetric] by simp
  have c: "chosen Balanced n E L = map id_of (F @ N)" by (simp add: chosen_def F_def N_def Let_def)
  show "distinct (chosen s n E L)"
    using d c assms(1) by (cases s) (simp_all add: chosen_def take_map [symmetric])
  show "set (chosen s n E L) \<subseteq> set (map id_of E)"
  proof (cases s)
    case Balanced
    have "set (map id_of (F @ N)) \<subseteq> set (map id_of L)" unfolding set_map by (rule image_mono [OF sub])
    then show ?thesis unfolding Balanced c assms(3) .
  qed (auto simp: chosen_def dest: in_set_takeD)
  show "length (chosen s n E L) = min n (length E)"
    using l c by (cases s) (simp_all add: chosen_def min.commute)
qed

text \<open>The rows of the sample\<close>

lemma selected_rows:
  assumes "distinct ids" "distinct (map id_of R)" "\<forall>r \<in> set R. str_id r" "set ids \<subseteq> set (map id_of R)" "items = map Inr nrows" "R = map snd nrows"
  shows "\<exists>sel rows. select_rows (map JStr ids) items = Inr sel \<and> sort_rows (map JStr ids) sel = Inr rows
    \<and> map id_of rows = ids \<and> set rows \<subseteq> set R"
proof -
  have r: "\<forall>r \<in> set nrows. str_id (snd r)" using assms(3,6) by auto
  define sel where "sel = filter (\<lambda>r. id_of r \<in> set ids) R"
  have "select_rows (map JStr ids) items = Inr sel" unfolding assms(5) sel_def assms(6) by (rule select_rows_rows [OF r])
  moreover have "distinct (map id_of sel)" using assms(2) unfolding sel_def by (rule distinct_map_filter)
  moreover have "set (map id_of sel) = set ids" using assms(4) by (auto simp: sel_def)
  moreover have "\<forall>r \<in> set sel. str_id r" using assms(3) by (simp add: sel_def)
  ultimately obtain rows where "sort_rows (map JStr ids) sel = Inr rows" "map id_of rows = ids" "mset rows = mset sel"
    using sort_rows_order [OF assms(1)] by blast
  moreover from calculation(3) have "set rows \<subseteq> set R" unfolding sel_def by (metis filter_is_subset set_mset_mset)
  ultimately show ?thesis using \<open>select_rows (map JStr ids) items = Inr sel\<close> by blast
qed

lemma id_set_rows: "\<forall>r \<in> set rows. str_id r \<Longrightarrow> id_set rows = Inr (map JStr (map id_of rows))"
  by (induction rows) (auto simp: id_set_def str_id_iff)

lemma same_ids_refl: "same_ids (map JStr ids) (map JStr ids)"
  by (auto simp: same_ids_def list_all_iff list_ex_iff)

lemma clean_report_field: "clean bad (JObj r) \<Longrightarrow> clean bad (jget r k)"
  using jget_non_null [of r k] by (cases "jget r k = JNull") (auto simp: clean_simps(1))

lemma manifest_clean:
  assumes "clean (sample_bad False True) (JObj report)" "sampling_allowed env a fs"
  shows "clean (sample_bad False True) (JObj (sample_manifest env a report E L))"
proof -
  have keys: "list_all (\<lambda>k. \<not> sample_bad False True k) (map fst (sample_manifest env a report E L))"
    "\<not> sample_bad False True ''events''" "\<not> sample_bad False True ''labels''"
    unfolding sample_manifest_def list.map fst_conv by code_simp+
  have texts: "list_all (\<lambda>s. \<not> raw_identifier_search s) [SAMPLE_SCRIPT_VERSION, ''head'', ''balanced'', ''row-number-deterministic'',
     ''eventId is deterministic for idempotency tests; Phase 5 replay may add an event-id-prefix option '' @
        ''when mixing datasets or rerunning into the same API/database.'']" by code_simp
  have "\<not> raw_identifier_search (strategy_name (sa_strategy a))"
    using texts by (cases "sa_strategy a") (simp_all add: strategy_name_def)
  then show ?thesis
    using keys texts assms(2) clean_report_field [OF assms(1)]
    by (simp add: sample_manifest_def sampling_allowed_def)
qed


lemma sample_of_rows:
  assumes "file_holds venv (va_events_name va) (vo_events venv) E" "file_holds venv (va_labels_name va) (vo_labels venv) L"
    and "events_ok fromiso E" "labels_ok (map id_of E) L" "same_files venv env" "1 \<le> sa_sample_size a" "E \<noteq> []"
  defines "ids \<equiv> chosen (sa_strategy a) (nat (sa_sample_size a)) E L"
  shows "\<exists>evs lbs. sample_rows env a = Inr (evs, lbs) \<and> map id_of evs = ids \<and> map id_of lbs = ids \<and> set evs \<subseteq> set E \<and> set lbs \<subseteq> set L"
proof -
  obtain er where er: "vo_events venv \<noteq> None" "sample_items (vo_loads venv) (sa_events_name a) (the (vo_events venv)) = map Inr er" "E = map snd er"
    using file_holds_sample [OF assms(1)] by blast
  obtain lr where lr: "vo_labels venv \<noteq> None" "sample_items (vo_loads venv) (sa_labels_name a) (the (vo_labels venv)) = map Inr lr" "L = map snd lr"
    using file_holds_sample [OF assms(2)] by blast
  have E: "distinct (map id_of E)" "\<forall>e \<in> set E. str_id e" using assms(3) valid_event_safe by (auto simp: events_ok_def)
  have L: "distinct (map id_of L)" "\<forall>l \<in> set L. str_id l" "set (map id_of L) = set (map id_of E)" "\<forall>l \<in> set L. is_legit l \<longleftrightarrow> \<not> is_fraud l"
    using assms(4) valid_label_safe valid_label_class unfolding labels_ok_def by blast+
  note ids = chosen_ids [OF E(1) L(1,3,4), of "sa_strategy a" "nat (sa_sample_size a)", folded ids_def]
  have n: "sa_sample_size a = int (nat (sa_sample_size a))" "0 < nat (sa_sample_size a)" using assms(6) by simp_all
  have files: "se_events env = Some (the (vo_events venv))" "se_labels env = Some (the (vo_labels venv))" "se_loads env = vo_loads venv"
    using assms(5) er(1) lr(1) by (simp_all add: same_files_def)
  have strs: "\<forall>r \<in> set er. str_id (snd r)" "\<forall>r \<in> set lr. str_id (snd r)" using E(2) L(2) er(3) lr(3) by simp_all
  have choice: "choose_ids env a = Inr (map JStr ids)"
    unfolding ids_def er(3) lr(3)
    by (rule choose_ids_rows [OF strs n(2) files(1) _ files(2) _ n(1)]) (simp_all only: files(3) er(2) lr(2))
  have "length ids \<noteq> 0" using ids(3) n(2) assms(7) by simp
  then have ne: "map JStr ids \<noteq> []" by auto
  obtain s1 evs where e: "select_rows (map JStr ids) (map Inr er) = Inr s1" "sort_rows (map JStr ids) s1 = Inr evs"
      "map id_of evs = ids" "set evs \<subseteq> set E"
    using selected_rows [OF ids(1) E ids(2) refl er(3)] by blast
  have idsL: "set ids \<subseteq> set (map id_of L)" using ids(2) L(3) by simp
  obtain s2 lbs where l: "select_rows (map JStr ids) (map Inr lr) = Inr s2" "sort_rows (map JStr ids) s2 = Inr lbs"
      "map id_of lbs = ids" "set lbs \<subseteq> set L"
    using selected_rows [OF ids(1) L(1,2) idsL refl lr(3)] by blast
  have "sample_rows env a = Inr (evs, lbs)"
    unfolding sample_rows_def choice bind_res_simps files(3) files(1,2) option.sel er(2) lr(2) e(1,2) l(1,2)
    using ne by (simp add: list_all_iff)
  then show ?thesis using e l by blast
qed

section \<open>What the manifest says\<close>

text \<open>The number of the rows \<open>xs\<close> with a property, by the ids of the rows \<open>ys\<close> they are taken from\<close>

lemma count_by_id:
  assumes "distinct (map f ys)" "set xs \<subseteq> set ys" "distinct (map f xs)"
  shows "length (filter P xs) = card {i \<in> set (map f xs). \<exists>y \<in> set ys. f y = i \<and> P y}"
proof -
  have inj: "x = y" if "x \<in> set xs" "y \<in> set ys" "f x = f y" for x y
    using assms(1,2) that unfolding distinct_map by (auto dest: inj_onD)
  have "{i \<in> set (map f xs). \<exists>y \<in> set ys. f y = i \<and> P y} = set (map f (filter P xs))"
    using assms(2) inj by force
  moreover have "distinct (map f (filter P xs))" using assms(3) by (rule distinct_map_filter)
  ultimately show ?thesis by (metis distinct_card length_map)
qed

text \<open>The ids among \<open>ids\<close> whose label in \<open>L\<close> is of the class \<open>b\<close>\<close>

definition ids_of_class :: "bool \<Rightarrow> jobj list \<Rightarrow> string list \<Rightarrow> string set" where
  "ids_of_class b L ids = {i \<in> set ids. \<exists>l \<in> set L. id_of l = i \<and> jget l ''isFraud'' = JBool b}"

text \<open>The manifest of a sample with the ids \<open>ids\<close>, of a dataset with the labels \<open>L\<close> and the report \<open>report\<close>\<close>

definition describes_sample :: "sample_env \<Rightarrow> sample_args \<Rightarrow> jobj \<Rightarrow> jobj list \<Rightarrow> string list \<Rightarrow> jobj \<Rightarrow> bool" where
  "describes_sample env a report L ids m \<longleftrightarrow>
     jget m ''sampleEvents'' = JInt (int (length ids)) \<and> jget m ''sampleLabels'' = JInt (int (length ids))
     \<and> jget m ''sampleFraudRows'' = JInt (int (card (ids_of_class True L ids)))
     \<and> jget m ''sampleNonFraudRows'' = JInt (int (card (ids_of_class False L ids)))
     \<and> jget m ''sampleSizeRequested'' = JInt (sa_sample_size a)
     \<and> jget m ''sampleStrategy'' = JStr (case sa_strategy a of Head \<Rightarrow> ''head'' | Balanced \<Rightarrow> ''balanced'')
     \<and> jget m ''sourceDatasetSlug'' = JStr EXPECTED_DATASET \<and> jget m ''sourceRawFileName'' = JStr EXPECTED_RAW_FILE
     \<and> jget m ''hashAlgorithm'' = JStr EXPECTED_HASH_ALGORITHM
     \<and> (\<forall>k \<in> {''hashIdPrefixLength'', ''hashSaltSource''}. jget m k = jget report k)
     \<and> jget m ''sourceInputSha256'' = jget report ''inputSha256''
     \<and> jget m ''sourceEventsPath'' = JStr (sa_events a) \<and> jget m ''sourceLabelsPath'' = JStr (sa_labels a)
     \<and> jget m ''outputFiles'' = JObj [(''events'', JStr (sa_events_output a)), (''labels'', JStr (sa_labels_output a))]
     \<and> jget m ''createdAt'' = JStr (se_now env)
     \<and> jget m ''containsRuntimeLabels'' = JBool False \<and> jget m ''containsRawIdentifiers'' = JBool False"

lemma manifest_describes:
  assumes "report_ok strict report" "map id_of evs = ids" "map id_of lbs = ids" "distinct ids" "set lbs \<subseteq> set L"
    and "distinct (map id_of L)" "\<forall>l \<in> set L. is_legit l \<longleftrightarrow> \<not> is_fraud l"
  shows "describes_sample env a report L ids (sample_manifest env a report evs lbs)"
proof -
  have len: "length evs = length ids" "length lbs = length ids" using arg_cong [OF assms(2), of length] arg_cong [OF assms(3), of length] by simp_all
  have ids: "distinct (map id_of lbs)" "set ids = set (map id_of lbs)" using assms(3,4) by simp_all
  have "fraud_count lbs = card (ids_of_class True L ids)"
    using count_by_id [OF assms(6,5) ids(1), of is_fraud] unfolding fraud_count_def ids_of_class_def ids(2) is_fraud_def .
  moreover have "length (filter is_legit lbs) = card (ids_of_class False L ids)"
    using count_by_id [OF assms(6,5) ids(1), of is_legit] unfolding ids_of_class_def ids(2) is_legit_def .
  moreover have "filter is_legit lbs = filter (\<lambda>l. \<not> is_fraud l) lbs" using assms(5,7) by (intro filter_cong) auto
  then have "fraud_count lbs + length (filter is_legit lbs) = length lbs"
    unfolding fraud_count_def is_fraud_def [symmetric] by (simp add: sum_length_filter_compl)
  ultimately have "fraud_count lbs = card (ids_of_class True L ids)"
    "int (length ids) - int (card (ids_of_class True L ids)) = int (card (ids_of_class False L ids))"
    using len(2) by simp_all
  note counts = this
  show ?thesis
    unfolding describes_sample_def sample_manifest_def
    using assms(1) len counts by (simp add: jget_or_Cons strategy_name_def report_ok_def split: strategy.split)
qed

section \<open>The run\<close>

lemma report_loads:
  assumes "report_ok strict report" "se_report env = Some doc" "se_loads env doc = Some (JObj report)" "require \<longrightarrow> strict"
  shows "load_report (se_loads env) (the (se_report env)) require = Inr report"
proof -
  have "sample_scan False True ''report'' (JObj report) = None"
    using assms(1) unfolding ss.scan_passes same_clean report_ok_def by blast
  then show ?thesis
    using assms by (auto simp: load_report_def report_ok_def Let_def EXPECTED_HASH_ALGORITHM_def
        SAMPLE_HASH_ALGORITHM_def EXPECTED_HASH_PREFIX_LENGTH_def SAMPLE_HASH_PREFIX_LENGTH_def)
qed

text \<open>A run whose rows are chosen and safe writes them.\<close>

lemma generate_writes:
  fixes evs lbs :: "jobj list"
  assumes "load_report (se_loads env) (the (se_report env)) (sa_require_non_default_salt a) = Inr report"
    and "sample_rows env a = Inr (evs, lbs)" "sampling_allowed env a fs" "se_events env \<noteq> None" "se_labels env \<noteq> None" "se_report env = Some doc"
    and "sample_safe evs lbs (sample_manifest env a report evs lbs)"
  defines "m \<equiv> sample_manifest env a report evs lbs"
  shows "fst (generate env fs a) = write_sample a evs lbs m fs"
    and "sizes_ok (write_sample a evs lbs m fs) (sample_output_paths a) \<Longrightarrow> snd (generate env fs a) = Inr m"
proof -
  have guards: "first_fail [raise_if (sa_sample_size a < 1 \<or> MAX_SAMPLE_SIZE < sa_sample_size a)
          (SampleError ''--sample-size must be between 1 and 1000''), missing_input env a, ensure_sample_outputs fs a] = None"
    using assms(3-6) by (auto simp: MAX_SAMPLE_SIZE_def missing_input_def
        ensure_sample_outputs_def sampling_allowed_def Let_def filter_empty_conv)
  have first: "validate_generated evs lbs m fs (sample_output_paths a) = None"
    using assms(3,7) by (simp add: validate_generated_None sampling_allowed_def m_def)
  have gen: "generate env fs a = (write_sample a evs lbs m fs,
      check_then (validate_generated evs lbs m (write_sample a evs lbs m fs) (sample_output_paths a)) (Inr m))"
    using guards first by (simp add: generate_def assms(1,2) m_def [symmetric] Let_def)
  then show "fst (generate env fs a) = write_sample a evs lbs m fs" by simp
  show "snd (generate env fs a) = Inr m" if "sizes_ok (write_sample a evs lbs m fs) (sample_output_paths a)"
    using that assms(7) by (simp add: gen validate_generated_None m_def)
qed

text \<open>
  C9: a dataset with at least one event that the validator lets pass is sampled as it should be, when writing is
  allowed: the events and the labels written are exactly the rows with the chosen ids, in the order of the choice,
  as many as asked for or all there are; the manifest written beside them counts these rows and, by the labels of the
  dataset, the frauds and the others among them, and names the dataset, its raw file, hash and salt source, the
  strategy, the size asked for and the files; and the run succeeds unless a file exceeds one megabyte.
\<close>

theorem validated_dataset_samples:
  assumes "validate venv va = Inr v" "0 < vs_events v"
    and "same_files venv env" "sampling_allowed env a fs"
    and "sa_require_non_default_salt a \<longrightarrow> va_require_non_default_salt va"
  shows "\<exists>E L report evs lbs manifest. file_holds venv (va_events_name va) (vo_events venv) E
    \<and> file_holds venv (va_labels_name va) (vo_labels venv) L
    \<and> vo_loads venv (the (vo_report venv)) = Some (JObj report)
    \<and> (let ids = chosen (sa_strategy a) (nat (sa_sample_size a)) E L in
        map id_of evs = ids \<and> map id_of lbs = ids \<and> length ids = min (nat (sa_sample_size a)) (length E)
        \<and> describes_sample env a report L ids manifest)
    \<and> set evs \<subseteq> set E \<and> set lbs \<subseteq> set L
    \<and> fst (generate env fs a) = write_sample a evs lbs manifest fs
    \<and> (sizes_ok (write_sample a evs lbs manifest fs) (sample_output_paths a) \<longrightarrow> snd (generate env fs a) = Inr manifest)"
proof -
  obtain E L R doc report where v: "file_holds venv (va_events_name va) (vo_events venv) E"
      "file_holds venv (va_labels_name va) (vo_labels venv) L" "vo_report venv = Some doc"
      "vo_loads venv doc = Some (JObj report)" "files_ok (vo_fromiso venv) E L R" "report_ok (va_require_non_default_salt va) report"
      "v = summary_of E L R"
    using assms(1) unfolding validate_iff outputs_valid_def by blast
  have ok: "events_ok (vo_fromiso venv) E" "labels_ok (map id_of E) L" using v(5) by (simp_all add: files_ok_def)
  have E: "E \<noteq> []" using assms(2) v(7) by (auto simp: summary_of_def)
  have size: "1 \<le> sa_sample_size a" "sa_sample_size a \<le> 1000" using assms(4) by (simp_all add: sampling_allowed_def)
  define ids where "ids = chosen (sa_strategy a) (nat (sa_sample_size a)) E L"
  obtain evs lbs where rows: "sample_rows env a = Inr (evs, lbs)" "map id_of evs = ids" "map id_of lbs = ids" "set evs \<subseteq> set E" "set lbs \<subseteq> set L"
    using sample_of_rows [OF v(1,2) ok assms(3) size(1) E] unfolding ids_def by blast
  have evs: "\<forall>e \<in> set evs. safe_event e \<and> str_id e" using rows(4) ok(1) valid_event_safe unfolding events_ok_def by blast
  have lbs: "\<forall>l \<in> set lbs. clean (sample_bad False False) (JObj l) \<and> str_id l" using rows(5) ok(2) valid_label_safe unfolding labels_ok_def by blast
  have L: "distinct (map id_of L)" "set (map id_of L) = set (map id_of E)" "\<forall>l \<in> set L. is_legit l \<longleftrightarrow> \<not> is_fraud l"
    using ok(2) valid_label_class unfolding labels_ok_def by blast+
  have dE: "distinct (map id_of E)" using ok(1) by (simp add: events_ok_def)
  note ids = chosen_ids [OF dE L, of "sa_strategy a" "nat (sa_sample_size a)", folded ids_def]
  define manifest where "manifest = sample_manifest env a report evs lbs"
  have files: "se_events env \<noteq> None" "se_labels env \<noteq> None" "se_report env = Some doc" "se_loads env doc = Some (JObj report)"
    using assms(3) v(1-4) by (auto simp: same_files_def file_holds_def)
  have mc: "clean (sample_bad False True) (JObj manifest)"
    unfolding manifest_def by (rule manifest_clean [OF _ assms(4)]) (use v(6) in \<open>unfold same_clean report_ok_def, blast\<close>)
  have sets: "id_set evs = Inr (map JStr ids)" "id_set lbs = Inr (map JStr ids)"
    using id_set_rows [of evs] id_set_rows [of lbs] evs lbs unfolding rows(2,3) by blast+
  have "length evs = length ids" unfolding rows(2) [symmetric] by simp
  then have "length evs \<le> 1000" using ids(3) size(2) by simp
  then have "sample_safe evs lbs manifest"
    unfolding sample_safe_def using evs lbs mc sets same_ids_refl by blast
  note gen = generate_writes [OF report_loads [OF v(6) files(3,4) assms(5)] rows(1) assms(4) files(1-3) this [unfolded manifest_def],
      folded manifest_def]
  have described: "describes_sample env a report L ids manifest"
    unfolding manifest_def by (rule manifest_describes [OF v(6) rows(2,3) ids(1) rows(5) L(1,3)])
  have loaded: "vo_loads venv (the (vo_report venv)) = Some (JObj report)" using v(3,4) by simp
  show ?thesis
    using v(1,2) rows(2-5) ids(3) gen described loaded unfolding Let_def ids_def by blast
qed

section \<open>A dataset of one event\<close>

definition small_event :: jobj where
  "small_event = [(''eventId'', JStr ''p-1''), (''userId'', JStr ''U-0123456789abcdef''),
     (''accountId'', JStr ''A-0123456789abcdef''), (''destinationAccountId'', JStr ''D-0123456789abcdef''),
     (''eventType'', JStr ''PAYMENT''), (''amount'', JStr ''10''), (''currency'', JStr ''KRW''), (''eventTime'', JStr ''t1Z''),
     (''traceId'', JStr ''t-1''), (''schemaVersion'', JStr ''v2-paysim''), (''source'', JStr ''PAYSIM''),
     (''balanceFeatures'', JObj [(''sourceStep'', JInt 1), (''oldBalanceOrig'', JStr ''0''), (''newBalanceOrig'', JStr ''0''),
        (''oldBalanceDest'', JStr ''0''), (''newBalanceDest'', JStr ''0'')])]"

definition small_label :: jobj where
  "small_label = [(''eventId'', JStr ''p-1''), (''isFraud'', JBool True), (''sourceFlaggedFraud'', JBool False),
     (''sourceStep'', JInt 1), (''sourceType'', JStr ''PAYMENT'')]"

definition small_report :: jobj where
  "small_report = [(''scriptVersion'', JStr ''v''), (''datasetSlug'', JStr EXPECTED_DATASET), (''rawFileName'', JStr EXPECTED_RAW_FILE),
     (''inputPath'', JStr ''i''), (''inputSha256'', JStr (replicate 64 CHR ''a'')), (''baseTime'', JNull), (''startedAt'', JNull),
     (''finishedAt'', JNull), (''totalRows'', JInt 1), (''acceptedRows'', JInt 1), (''rejectedRows'', JInt 0), (''fraudRows'', JInt 1),
     (''flaggedFraudRows'', JInt 0),
     (''eventTypeCounts'', JObj [(''TRANSFER'', JInt 0), (''CASH_OUT'', JInt 0), (''PAYMENT'', JInt 1), (''CASH_IN'', JInt 0), (''DEBIT'', JInt 0)]),
     (''outputFiles'', JNull), (''hashAlgorithm'', JStr ''HMAC-SHA256''), (''hashIdPrefixLength'', JInt 16), (''hashSaltSource'', JStr ''env'')]"

definition small_validate_env :: validate_env where
  "small_validate_env =
    \<lparr>vo_events = Some [''e''], vo_labels = Some [''l''], vo_rejected = Some [], vo_report = Some ''r'',
     vo_loads = (\<lambda>s. if s = ''e'' then Some (JObj small_event) else if s = ''l'' then Some (JObj small_label)
        else if s = ''r'' then Some (JObj small_report) else None),
     vo_fromiso = (\<lambda>s. if s = ''t1+00:00'' then Some (Some 0) else None)\<rparr>"

lemma small_valid:
  "case validate small_validate_env default_validate_args of Inr v \<Rightarrow> vs_events v = 1 | Inl x \<Rightarrow> False"
  by code_simp

definition small_sample_env :: sample_env where
  "small_sample_env = \<lparr>se_events = vo_events small_validate_env, se_labels = vo_labels small_validate_env,
     se_report = vo_report small_validate_env, se_loads = vo_loads small_validate_env, se_now = ''2024-01-01T00:00:00Z''\<rparr>"

theorem validated_dataset_samples_witness:
  "\<exists>E L evs lbs manifest. file_holds small_validate_env (va_events_name default_validate_args) (vo_events small_validate_env) E
    \<and> file_holds small_validate_env (va_labels_name default_validate_args) (vo_labels small_validate_env) L
    \<and> map id_of evs = chosen Balanced 1000 E L \<and> map id_of lbs = chosen Balanced 1000 E L
    \<and> fst (generate small_sample_env (\<lambda>_. None) default_sample_args) = write_sample default_sample_args evs lbs manifest (\<lambda>_. None)"
proof -
  obtain v where v: "validate small_validate_env default_validate_args = Inr v" "0 < vs_events v"
    using small_valid by (auto split: sum.splits)
  have files: "same_files small_validate_env small_sample_env" by (simp add: same_files_def small_sample_env_def)
  have texts: "list_all (\<lambda>w. \<not> raw_identifier_search w) [sa_events default_sample_args, sa_labels default_sample_args,
      sa_events_output default_sample_args, sa_labels_output default_sample_args, ''2024-01-01T00:00:00Z'']" by code_simp
  have size: "sa_sample_size default_sample_args = 1000" "sa_strategy default_sample_args = Balanced"
      "\<not> sa_require_non_default_salt default_sample_args" by code_simp+
  have "sampling_allowed small_sample_env default_sample_args (\<lambda>_. None)"
    using texts by (simp add: sampling_allowed_def size sizes_ok_def small_sample_env_def)
  from validated_dataset_samples [OF v files this] show ?thesis by (simp add: size Let_def) blast
qed

end
