(* ===== verification/Profile.thy ===== *)
theory Profile
  imports Prepare JsonText "HOL-Library.Product_Lexorder"
begin

text \<open>
  \<open>scripts/data/profile_paysim_v3.py\<close>: the profile of a corpus, that is, counts, shares and nearest-rank
  quantiles of the rows \<open>prepare_paysim_dataset.normalize_row\<close> accepts.

  The SQLite tables are lists: \<open>events\<close> in the order of insertion (which is the order of \<open>rowid\<close>),
  \<open>users\<close> and \<open>user_steps\<close> what \<open>GROUP BY\<close> makes of it. A query with \<open>ORDER BY\<close> is the sorted
  list, \<open>LIMIT 1 OFFSET k\<close> its row \<open>k\<close>, if there is one. \<open>profile_env\<close> is what the outside gives, as
  in \<open>Prepare\<close>; files are a map from paths to texts.
\<close>

section \<open>Floats in order\<close>

text \<open>SQLite orders the numbers of a column; no NaN is in one (it would be \<open>NULL\<close>), and here it is the last.\<close>

fun float_class :: "pyfloat \<Rightarrow> nat" where
  "float_class NInf = 0"
| "float_class (Fin r) = 1"
| "float_class PInf = 2"
| "float_class NaN = 3"

instantiation pyfloat :: linorder
begin

definition less_eq_pyfloat :: "pyfloat \<Rightarrow> pyfloat \<Rightarrow> bool" where
  "less_eq_pyfloat x y \<longleftrightarrow> (float_class x, fin_val x) \<le> (float_class y, fin_val y)"

definition less_pyfloat :: "pyfloat \<Rightarrow> pyfloat \<Rightarrow> bool" where
  "less_pyfloat x y \<longleftrightarrow> (float_class x, fin_val x) < (float_class y, fin_val y)"

instance
proof
  fix x y z :: pyfloat
  show "x < y \<longleftrightarrow> x \<le> y \<and> \<not> y \<le> x" unfolding less_eq_pyfloat_def less_pyfloat_def by (rule less_le_not_le)
  show "x \<le> x" by (simp add: less_eq_pyfloat_def)
  show "x \<le> y \<Longrightarrow> y \<le> z \<Longrightarrow> x \<le> z" unfolding less_eq_pyfloat_def by (rule order_trans)
  show "x \<le> y \<or> y \<le> x" unfolding less_eq_pyfloat_def by (rule linear)
  assume "x \<le> y" "y \<le> x"
  then have "(float_class x, fin_val x) = (float_class y, fin_val y)" unfolding less_eq_pyfloat_def by (rule order_antisym)
  then show "x = y" by (cases x; cases y) auto
qed

end

lemma float_less_fin [simp]: "Fin r < Fin s \<longleftrightarrow> r < s" "Fin r \<le> Fin s \<longleftrightarrow> r \<le> s"
  by (auto simp: less_eq_pyfloat_def less_pyfloat_def)

section \<open>Data\<close>

record profile_event =
  user_id :: string
  source_step :: int
  amount_numeric :: pyfloat
  amount_text :: string
  native_event_type :: string
  normalized_event_type :: string

record profile_args =
  fa_input :: string
  fa_input_name :: string
  fa_output :: string
  fa_dataset_slug :: string
  fa_base_time :: string
  fa_hash_salt :: "string option"
  fa_hash_salt_env :: string
  fa_limit :: "int option"
  fa_generated_at :: "string option"
  fa_force :: bool

definition default_profile_args :: profile_args where
  "default_profile_args =
    \<lparr>fa_input = pa_input default_prepare_args, fa_input_name = pa_input_name default_prepare_args,
     fa_output = ''data/processed/paysim-v3-profile.json'', fa_dataset_slug = pa_dataset_slug default_prepare_args,
     fa_base_time = pa_base_time default_prepare_args, fa_hash_salt = None,
     fa_hash_salt_env = pa_hash_salt_env default_prepare_args, fa_limit = None, fa_generated_at = None, fa_force = False\<rparr>"

record profile_env =
  fe_bytes :: "byte list option"
  fe_records :: "string list list"
  fe_csv_fault :: "exn option"
  fe_fromiso :: "string \<Rightarrow> (int \<times> int option) option"
  fe_getenv :: "string \<Rightarrow> string option"
  fe_now :: int

record profile_state =
  pr_total :: nat
  pr_accepted :: nat
  pr_rejected :: nat
  pr_fraud :: nat
  pr_reasons :: "string counter"
  pr_table :: "profile_event list"
  pr_batch :: "profile_event list"

definition init_profile_state :: profile_state where
  "init_profile_state =
    \<lparr>pr_total = 0, pr_accepted = 0, pr_rejected = 0, pr_fraud = 0, pr_reasons = [], pr_table = [], pr_batch = []\<rparr>"

section \<open>Numbers\<close>

definition profile_ratio :: "int \<Rightarrow> int \<Rightarrow> pyfloat res" where
  "profile_ratio numerator denominator =
    (if denominator = 0 then Inr (Fin 0)
     else bind_res (true_div numerator denominator) (\<lambda>x. Inr (py_round x 8)))"

definition math_ceil :: "pyfloat \<Rightarrow> int res" where
  "math_ceil x = (case x of Fin r \<Rightarrow> Inr \<lceil>r\<rceil>
     | NaN \<Rightarrow> Inl (ValueError ''cannot convert float NaN to integer'') | _ \<Rightarrow> Inl OverflowError)"

text \<open>\<open>math.ceil(n * x)\<close>\<close>

definition ceil_times :: "nat \<Rightarrow> pyfloat \<Rightarrow> int res" where
  "ceil_times n x = bind_res (float_of_int (int n)) (\<lambda>y. math_ceil (fmul y x))"

definition quantile_offset :: "nat \<Rightarrow> pyfloat \<Rightarrow> nat res" where
  "quantile_offset cnt quantile =
    (if cnt = 0 then Inl (ValueError ''quantile requires at least one value'')
     else bind_res (ceil_times cnt quantile) (\<lambda>c. Inr (nat (max 0 (c - 1)))))"

definition QUANTILES :: "(string \<times> pyfloat) list" where
  "QUANTILES = [(''p50'', to_double (50 / 100)), (''p95'', to_double (95 / 100)), (''p99'', to_double (99 / 100))]"

definition top_user_count :: "nat \<Rightarrow> nat res" where
  "top_user_count unique_users =
    (if unique_users = 0 then Inr 0
     else bind_res (ceil_times unique_users (to_double (1 / 100))) (\<lambda>c. Inr (nat (max 1 c))))"

section \<open>Queries\<close>

text \<open>\<open>LIMIT 1 OFFSET k\<close> and \<open>fetchone()[0]\<close>\<close>

definition row_at :: "'a list \<Rightarrow> nat \<Rightarrow> 'a res" where
  "row_at rows k = (if k < length rows then Inr (rows ! k) else Inl TypeError)"

definition integer_quantiles :: "nat list \<Rightarrow> nat \<Rightarrow> json res" where
  "integer_quantiles vals cnt =
    (if cnt = 0 then Inr (JObj [(''p50'', JInt 0), (''p95'', JInt 0), (''p99'', JInt 0), (''max'', JInt 0)])
     else bind_res (mapM (\<lambda>(name, q). bind_res (quantile_offset cnt q) (\<lambda>k.
            bind_res (row_at vals k) (\<lambda>v. Inr (name, JInt (int v))))) QUANTILES) (\<lambda>ps.
          if vals = [] then Inl TypeError else Inr (JObj (ps @ [(''max'', JInt (int (Max (set vals))))]))))"

definition amount_quantiles :: "profile_event list \<Rightarrow> nat \<Rightarrow> json res" where
  "amount_quantiles events cnt =
    (if cnt = 0 then Inr (JObj [(''p50'', JNull), (''p95'', JNull), (''p99'', JNull)])
     else bind_res (mapM (\<lambda>(name, q). bind_res (quantile_offset cnt q) (\<lambda>k.
            bind_res (row_at (sort_key amount_numeric events) k) (\<lambda>e. Inr (name, JStr (amount_text e))))) QUANTILES)
          (\<lambda>ps. Inr (JObj ps)))"

text \<open>\<open>SELECT key, COUNT(*) FROM ... GROUP BY key ORDER BY key\<close>\<close>

definition group_count :: "'a::linorder list \<Rightarrow> ('a \<times> nat) list" where
  "group_count ks = map (\<lambda>k. (k, count_list ks k)) (sort (remdups ks))"

definition users_table :: "profile_event list \<Rightarrow> (string \<times> nat) list" where
  "users_table events = group_count (map user_id events)"

definition user_steps_table :: "profile_event list \<Rightarrow> ((string \<times> int) \<times> nat) list" where
  "user_steps_table events = group_count (map (\<lambda>e. (user_id e, source_step e)) events)"

text \<open>\<open>SELECT event_count AS value ... ORDER BY event_count, key\<close>\<close>

definition counts_in_order :: "('a::linorder \<times> nat) list \<Rightarrow> nat list" where
  "counts_in_order table = map snd (sort_key (\<lambda>(k, n). (n, k)) table)"

definition top_user_events :: "(string \<times> nat) list \<Rightarrow> nat \<Rightarrow> nat" where
  "top_user_events users n = sum_list (map snd (take n (sort_key (\<lambda>(u, c). (- int c, u)) users)))"

definition users_with :: "nat \<Rightarrow> ((string \<times> int) \<times> nat) list \<Rightarrow> nat" where
  "users_with n user_steps = length (remdups (map (fst \<circ> fst) (filter (\<lambda>(k, c). n \<le> c) user_steps)))"

definition repeated_user_events :: "(string \<times> nat) list \<Rightarrow> nat" where
  "repeated_user_events users = sum_list (map snd (filter (\<lambda>(u, c). 2 \<le> c) users))"

definition type_distribution :: "(string \<times> nat) list \<Rightarrow> nat \<Rightarrow> json res" where
  "type_distribution rows accepted =
    bind_res (mapM (\<lambda>(t, n). bind_res (profile_ratio (int n) (int accepted)) (\<lambda>r.
       Inr (t, JObj [(''count'', JInt (int n)), (''ratio'', JFloat r)]))) rows) (\<lambda>d. Inr (JObj d))"

definition max_count :: "('a \<times> nat) list \<Rightarrow> nat" where
  "max_count rows = fold (\<lambda>(k, n) m. max n m) rows 0"

section \<open>The rows\<close>

definition float_of_decimal :: "decimal \<Rightarrow> pyfloat" where
  "float_of_decimal d = (case d of DFin neg c e \<Rightarrow> to_double (dec_val d) | DInf neg \<Rightarrow> inf_with_sign (\<not> neg) | DNaN \<Rightarrow> NaN)"

definition profile_event_of :: "jobj \<Rightarrow> jobj \<Rightarrow> decimal \<Rightarrow> profile_event" where
  "profile_event_of event label amount =
    \<lparr>user_id = the_str (jget event ''userId''),
     source_step = the_int (jget label ''sourceStep''),
     amount_numeric = float_of_decimal amount,
     amount_text = the_str (jget event ''amount''),
     native_event_type = the_str (jget event ''nativeEventType''),
     normalized_event_type = the_str (jget event ''normalizedEventType'')\<rparr>"

text \<open>\<open>executemany\<close> appends the batch to the table.\<close>

definition flush_batch :: "profile_state \<Rightarrow> profile_state" where
  "flush_batch s = s\<lparr>pr_table := pr_table s @ pr_batch s, pr_batch := []\<rparr>"

definition add_event :: "profile_event \<Rightarrow> profile_state \<Rightarrow> profile_state" where
  "add_event e s = (let s1 = s\<lparr>pr_batch := pr_batch s @ [e]\<rparr> in
     if 10000 \<le> length (pr_batch s1) then flush_batch s1 else s1)"

definition profile_row :: "int \<Rightarrow> string \<Rightarrow> nat \<Rightarrow> csv_row \<Rightarrow> profile_state \<Rightarrow> profile_state res" where
  "profile_row base_time salt row_number row s =
    (let s1 = s\<lparr>pr_total := Suc (pr_total s)\<rparr> in
     case normalize_row row row_number base_time salt of
       Inl (RowRejected reason message) \<Rightarrow>
         Inr (s1\<lparr>pr_rejected := Suc (pr_rejected s1), pr_reasons := cinc reason (pr_reasons s1)\<rparr>)
     | Inl x \<Rightarrow> Inl x
     | Inr (event, label) \<Rightarrow>
         (case decimal_of_str (the_str (jget event ''amount'')) of
            None \<Rightarrow> Inl InvalidOperation
          | Some amount \<Rightarrow>
              Inr (add_event (profile_event_of event label amount)
                (s1\<lparr>pr_accepted := Suc (pr_accepted s1),
                    pr_fraud := pr_fraud s1 + (if the_bool (jget label ''isFraud'') then 1 else 0)\<rparr>))))"

fun profile_rows ::
  "exn option \<Rightarrow> int option \<Rightarrow> int \<Rightarrow> string \<Rightarrow> nat \<Rightarrow> csv_row list \<Rightarrow> profile_state \<Rightarrow> profile_state res" where
  "profile_rows fault limit base_time salt n [] s = (case fault of None \<Rightarrow> Inr s | Some x \<Rightarrow> Inl x)"
| "profile_rows fault limit base_time salt n (row # rows) s =
     (if (case limit of None \<Rightarrow> False | Some k \<Rightarrow> k \<le> int (pr_total s)) then Inr s
      else bind_res (profile_row base_time salt n row s) (profile_rows fault limit base_time salt (Suc n) rows))"

section \<open>The report\<close>

definition generated_at :: "profile_env \<Rightarrow> profile_args \<Rightarrow> string res" where
  "generated_at env a =
    (case fa_generated_at a of
       None \<Rightarrow> Inr (iso_z (fe_now env))
     | Some value \<Rightarrow> bind_res (parse_base_time (fe_fromiso env) value) (\<lambda>t. Inr (iso_z t)))"

abbreviation json_ratio :: "nat \<Rightarrow> nat \<Rightarrow> json res" where
  "json_ratio m n \<equiv> bind_res (profile_ratio (int m) (int n)) (\<lambda>r. Inr (JFloat r))"

definition profile_report :: "profile_env \<Rightarrow> profile_args \<Rightarrow> profile_state \<Rightarrow> jobj res" where
  "profile_report env a s =
    (let events = pr_table s; users = users_table events; user_steps = user_steps_table events;
         accepted = pr_accepted s; unique_users = length users; time_rows = group_count (map source_step events) in
     bind_res (top_user_count unique_users) (\<lambda>top.
     bind_res (type_distribution (group_count (map normalized_event_type events)) accepted) (\<lambda>normalized.
     mapM (\<lambda>(k, r). bind_res r (\<lambda>v. Inr (k, v)))
       [(''profileSchemaVersion'', Inr (JStr ''v3-phase0-profile-v1'')),
        (''profilerVersion'', Inr (JStr ''v3-phase0-v1'')),
        (''datasetSlug'', Inr (JStr (fa_dataset_slug a))),
        (''rawFileName'', Inr (JStr (fa_input_name a))),
        (''inputSha256'', Inr (JStr (hexdigest (sha256 (the (fe_bytes env)))))),
        (''acceptedRows'', Inr (JInt (int accepted))),
        (''rejectedRows'', Inr (JInt (int (pr_rejected s)))),
        (''totalEvents'', Inr (JInt (int accepted))),
        (''uniqueUsers'', Inr (JInt (int unique_users))),
        (''eventsPerUser'', integer_quantiles (counts_in_order users) unique_users),
        (''top1PercentTrafficShare'', json_ratio (top_user_events users top) accepted),
        (''eventsPerUserPerSourceStep'', integer_quantiles (counts_in_order user_steps) (length user_steps)),
        (''maximumEventsPerSourceStepPerUser'', Inr (JInt (int (max_count user_steps)))),
        (''usersWith2PlusEventsPerSourceStepRatio'', json_ratio (users_with 2 user_steps) unique_users),
        (''usersWith5PlusEventsPerSourceStepRatio'', json_ratio (users_with 5 user_steps) unique_users),
        (''nativeTransactionTypeDistribution'', type_distribution (group_count (map native_event_type events)) accepted),
        (''normalizedTransactionTypeDistribution'', Inr normalized),
        (''transactionTypeDistribution'', Inr normalized),
        (''fraudRatio'', json_ratio (pr_fraud s) accepted),
        (''amount'', amount_quantiles events accepted),
        (''timeStepDistribution'', Inr (JObj (map (\<lambda>(t, n). (str_of_int t, JInt (int n))) time_rows))),
        (''peakTimeStepCount'', Inr (JInt (int (max_count time_rows)))),
        (''sameUserRepeatRate'', json_ratio (repeated_user_events users) accepted),
        (''rejectedReasonDistribution'', Inr (counter_json (sorted_items (pr_reasons s)))),
        (''identifierPolicyVersion'', Inr (JStr ''paysim-hmac-sha256-prefix16-v1'')),
        (''sourceTimeResolution'', Inr (JStr ''1h'')),
        (''quantileMethod'', Inr (JStr ''nearest-rank'')),
        (''topPercentRoundingRule'', Inr (JStr ''ceil(uniqueUsers * 0.01), minimum 1 when non-empty'')),
        (''sourceStepBoundaryRule'', Inr (JStr ''PaySim integer step; preprocessing maps one step to one hour'')),
        (''generatedAt'', bind_res (generated_at env a) (\<lambda>t. Inr (JStr t)))])))"

definition profile_salt_args :: "profile_args \<Rightarrow> prepare_args" where
  "profile_salt_args a = default_prepare_args
    \<lparr>pa_hash_salt := fa_hash_salt a, pa_hash_salt_env := fa_hash_salt_env a, pa_require_non_default_salt := False\<rparr>"

definition profile_run :: "profile_env \<Rightarrow> (string \<Rightarrow> string option) \<Rightarrow> profile_args \<Rightarrow> jobj res" where
  "profile_run env fs a =
    check_then (first_fail
      [raise_if (fe_bytes env = None) (SystemExit (''ERROR: input file not found: '' @ fa_input a)),
       raise_if (case fa_limit a of None \<Rightarrow> False | Some n \<Rightarrow> n < 0) (SystemExit ''ERROR: --limit must be >= 0''),
       raise_if (fs (fa_output a) \<noteq> None \<and> \<not> fa_force a)
         (SystemExit (''ERROR: output file already exists. Use --force to overwrite: '' @ fa_output a))])
    (bind_res (parse_base_time (fe_fromiso env) (fa_base_time a)) (\<lambda>base_time.
     bind_res (resolve_salt (profile_salt_args a) (fe_getenv env)) (\<lambda>(salt, _).
     check_then (read_header (fe_records env) (fe_csv_fault env))
     (bind_res (profile_rows (fe_csv_fault env) (fa_limit a) base_time salt 1 (dict_rows (fe_records env)) init_profile_state) (\<lambda>s.
        profile_report env a (flush_batch s))))))"

text \<open>Nothing is written before the report is complete.\<close>

definition profile :: "profile_env \<Rightarrow> (string \<Rightarrow> string option) \<Rightarrow> profile_args \<Rightarrow> (string \<Rightarrow> string option) \<times> jobj res" where
  "profile env fs a =
    (case profile_run env fs a of
       Inl x \<Rightarrow> (fs, Inl x)
     | Inr report \<Rightarrow> (fs(fa_output a \<mapsto> dumps_indent 0 (JObj report) @ [char_of (10 :: nat)]), Inr report))"

end
