(* ===== verification/QuantileRanks.thy ===== *)
theory QuantileRanks
  imports Profile
begin

text \<open>
  The quantiles and groups of the profile. \<open>ceil_times_exact\<close>: the products of a count below 2 to the 44 with the
  floats 0.01, 0.5, 0.95 and 0.99 round so that their ceilings are those of the exact hundredths, so the offsets the
  script computes in floats are the nearest ranks. A sorted query read at such an offset gives the nearest-rank
  percentile (\<open>sorted_rank\<close>), and the grouped tables count what their names say.
\<close>

section \<open>Nearest ranks in floats\<close>

lemma round_half_even_near: "\<bar>y - of_int k\<bar> < 1 / 2 \<Longrightarrow> round_half_even y = k"
proof -
  assume a: "\<bar>y - of_int k\<bar> < 1 / 2"
  then have "\<bar>of_int (round_half_even y) - (of_int k :: rat)\<bar> < 1"
    using round_half_even_err [of y] by linarith
  then have "\<bar>of_int (round_half_even y - k) :: rat\<bar> < of_int 1" by simp
  then have "\<bar>round_half_even y - k\<bar> < 1" by (simp only: of_int_less_iff flip: of_int_abs)
  then show ?thesis by simp
qed

lemma to_double_near_int:
  assumes "0 < m" "m < 2 ^ 52" "\<bar>x - of_int m\<bar> * 2 ^ 54 < of_int m"
  shows "to_double x = Fin (of_int m)"
proof -
  have m: "(of_int m :: rat) < 2 ^ 52" "(0 :: rat) < of_int m"
    using assms(1,2) by (simp_all add: of_int_less_iff [of m "2 ^ 52", symmetric, where 'a = rat] del: of_int_less_iff)
  have d: "\<bar>x - of_int m\<bar> < of_int m / 2 ^ 54" using assms(3) by (simp add: field_simps)
  have "x - of_int m < of_int m / 2 ^ 54" "of_int m - x < of_int m / 2 ^ 54" using d unfolding abs_less_iff by linarith+
  moreover have "(of_int m :: rat) / 2 ^ 54 < of_int m" "(2 :: rat) ^ 53 = 2 ^ 52 + 2 ^ 52" using m(2) by simp_all
  ultimately have x: "0 < x" "x < 2 ^ 53" using m by linarith+
  define e where "e = ulp_exp x"
  have "2 powi ilog2 x < (2 :: rat) powi 53" using ilog2_bounds(1) [OF x(1)] x(2) by simp
  then have "ilog2 x < 53" by (metis linorder_not_less one_le_numeral power_int_increasing)
  then have e: "e \<le> 0" by (simp add: e_def ulp_exp_def)
  define j where "j = nat (- e)"
  define K where "K = m * 2 ^ j"
  have "e = - int j" using e by (simp add: j_def)
  then have pe: "(2 :: rat) powi e = 1 / 2 ^ j" by (simp add: power_int_minus inverse_eq_divide)
  have s: "x / 2 powi e = x * 2 ^ j" by (simp add: pe)
  have K: "(of_int K :: rat) = of_int m * 2 ^ j" by (simp add: K_def)
  have "\<bar>x * 2 ^ j - of_int K\<bar> = \<bar>x - of_int m\<bar> * 2 ^ j" unfolding K by (simp add: abs_mult flip: left_diff_distrib)
  also have "\<dots> < of_int K / 2 ^ 54" using mult_strict_right_mono [OF d, of "2 ^ j"] by (simp add: K)
  finally have near: "\<bar>x * 2 ^ j - of_int K\<bar> < of_int K / 2 ^ 54" .
  have up: "x * 2 ^ j < 2 ^ 53" using scaled_bounds(1) [OF x(1)] by (simp add: s flip: e_def)
  have "of_int K - x * 2 ^ j < of_int K / 2 ^ 54" using near unfolding abs_less_iff by linarith
  then have "of_int K < (2 ^ 53 + 1 :: rat)" using up by simp
  then have "of_int K < (of_int (2 ^ 53 + 1) :: rat)" by simp
  then have "K \<le> 2 ^ 53" by (simp only: of_int_less_iff)
  then have "(of_int K :: rat) \<le> of_int (2 ^ 53)" by (simp only: of_int_le_iff)
  then have "\<bar>x * 2 ^ j - of_int K\<bar> < 1 / 2" using near by simp
  then have "rnd_pos x = of_int K * 2 powi e"
    unfolding rnd_pos_def by (simp only: round_half_even_near s flip: e_def)
  also have "\<dots> = of_int m" by (simp add: pe K)
  finally have r: "rnd_pos x = of_int m" .
  have "\<not> (2 ^ 1024 :: rat) \<le> of_int m" using m(1) by simp
  then show ?thesis using x(1) r by (simp add: to_double_def)
qed

lemma to_double_between:
  assumes "0 \<le> k" "k < 2 ^ 44" "of_int k + 1 / 256 \<le> x" "x \<le> of_int (k + 1)"
  obtains r where "to_double x = Fin r" "of_int k < r" "r \<le> of_int (k + 1)"
proof -
  have k: "(0 :: rat) \<le> of_int k" using assms(1) by simp
  then have x: "0 < x" using assms(3) by simp
  have up: "rnd_pos x \<le> of_int (k + 1)"
    using rnd_pos_mono [OF x assms(4)] rnd_pos_nat [of "k + 1"] assms(1,2) by simp
  have q: "of_int (256 * k + 1) * 2 powi (- 8) = (of_int k + 1 / 256 :: rat)"
    by (simp add: power_int_def field_simps)
  have "rnd_pos (of_int k + 1 / 256) \<le> rnd_pos x" using assms(3) k by (intro rnd_pos_mono) simp_all
  then have "of_int k + 1 / 256 \<le> rnd_pos x"
    using rnd_pos_exact [of "256 * k + 1" "- 8"] assms(1,2) unfolding q by simp
  then have lo: "of_int k < rnd_pos x" by simp
  have "(of_int (k + 1) :: rat) < of_int (2 ^ 53)" using assms(2) by (simp only: of_int_less_iff) simp
  with up have "\<not> 2 ^ 1024 \<le> rnd_pos x" by simp
  then have "to_double x = Fin (rnd_pos x)" using x by (simp add: to_double_def)
  then show thesis using lo up that by blast
qed

text \<open>The four factors are close enough to the hundredths they stand for.\<close>

definition close_to :: "nat \<Rightarrow> pyfloat \<Rightarrow> bool" where
  "close_to p x \<longleftrightarrow> is_fin x \<and> \<bar>fin_val x - of_nat p / 100\<bar> * 2 ^ 54 < of_nat p / 100"

lemma factors_close:
  "close_to 1 (to_double (1 / 100))" "close_to 50 (to_double (50 / 100))"
  "close_to 95 (to_double (95 / 100))" "close_to 99 (to_double (99 / 100))"
  by code_simp+

lemma ceil_times_exact:
  assumes "close_to p q" "0 < p" "p \<le> 100" "0 < n" "n < 2 ^ 44"
  shows "ceil_times n q = Inr \<lceil>of_nat (n * p) / 100 :: rat\<rceil>"
proof -
  define y :: rat where "y = of_nat (n * p) / 100"
  obtain d where q: "q = Fin d" and d: "\<bar>d - of_nat p / 100\<bar> * 2 ^ 54 < of_nat p / 100"
    using assms(1) by (cases q) (auto simp: close_to_def)
  define x :: rat where "x = of_nat n * d"
  have n0: "(0 :: rat) < of_nat n" "(of_nat n :: rat) < 2 ^ 44"
    using assms(4,5) by (simp_all add: of_nat_less_iff [of n "2 ^ 44", symmetric, where 'a = rat] del: of_nat_less_iff)
  have "x - y = of_nat n * (d - of_nat p / 100)" by (simp add: x_def y_def right_diff_distrib)
  then have "\<bar>x - y\<bar> = of_nat n * \<bar>d - of_nat p / 100\<bar>" by (simp add: abs_mult)
  then have near: "\<bar>x - y\<bar> * 2 ^ 54 < y"
    using mult_strict_left_mono [OF d n0(1)] by (simp add: y_def)
  have "float_of_int (int n) = Inr (Fin (of_nat n))"
    using to_double_nat [of "int n"] assms(5) by (simp add: float_of_int_def)
  then have c: "ceil_times n q = math_ceil (to_double x)" by (simp add: ceil_times_def q x_def)
  define k where "k = \<lceil>y\<rceil>"
  have y: "of_int k - 1 < y" "y \<le> of_int k" unfolding k_def by linarith+
  have yn: "y \<le> of_nat n" using assms(3) n0(1) by (simp add: y_def)
  then have "k \<le> int n" by (simp add: k_def ceiling_le_iff)
  have "0 < y" using assms(2,4) by (simp add: y_def)
  then have "0 < k" by (simp add: k_def)
  moreover have "int n < 2 ^ 44" using assms(5) by simp
  ultimately have k: "0 < k" "k < 2 ^ 44" using \<open>k \<le> int n\<close> by linarith+
  show ?thesis
  proof (cases "y = of_int k")
    case True
    then have "to_double x = Fin (of_int k)" using near k by (intro to_double_near_int) simp_all
    then show ?thesis unfolding c y_def [symmetric] k_def [symmetric] by (simp add: math_ceil_def)
  next
    case False
    have h: "100 * y = of_int (int (n * p))" by (simp add: y_def)
    have "of_int (100 * k - 100) < (of_int (int (n * p)) :: rat)" "of_int (int (n * p)) < (of_int (100 * k) :: rat)"
      using y False unfolding h [symmetric] by auto
    then have "100 * k - 100 + 1 \<le> int (n * p)" "int (n * p) + 1 \<le> 100 * k" by (simp_all only: of_int_less_iff)
    then have "of_int (100 * k - 100 + 1) \<le> (of_int (int (n * p)) :: rat)" "of_int (int (n * p) + 1) \<le> (of_int (100 * k) :: rat)"
      by (simp_all only: of_int_le_iff)
    then have gap: "of_int k - 1 + 1 / 100 \<le> y" "y + 1 / 100 \<le> of_int k" using h by simp_all
    have "y < 2 ^ 44" using yn n0(2) by linarith
    then have "\<bar>x - y\<bar> < 1 / 1000" using near by simp
    then have "x - y < 1 / 1000" "y - x < 1 / 1000" unfolding abs_less_iff by linarith+
    then have "of_int (k - 1) + 1 / 256 \<le> x" "x \<le> of_int (k - 1 + 1)" using gap by simp_all
    then obtain r where "to_double x = Fin r" "of_int (k - 1) < r" "r \<le> of_int (k - 1 + 1)"
      using k to_double_between [of "k - 1" x] by (metis add.commute add_le_same_cancel1 diff_ge_0_iff_ge int_one_le_iff_zero_less less_trans zle_diff1_eq order_le_less zless_add1_eq diff_add_cancel)
    then have "\<lceil>r\<rceil> = k" by (simp add: ceiling_eq_iff)
    then show ?thesis using \<open>to_double x = Fin r\<close> unfolding c y_def [symmetric] k_def [symmetric] by (simp add: math_ceil_def)
  qed
qed

text \<open>The nearest-rank percentile: at least \<open>p\<close> percent of the values are at most it, and fewer are below it.\<close>

definition nearest_rank :: "nat \<Rightarrow> 'a::linorder list \<Rightarrow> 'a \<Rightarrow> bool" where
  "nearest_rank p vals v \<longleftrightarrow> v \<in> set vals \<and> 100 * length (filter (\<lambda>x. x < v) vals) < p * length vals
     \<and> p * length vals \<le> 100 * length (filter (\<lambda>x. x \<le> v) vals)"

lemma nearest_rank_perm: "mset xs = mset ys \<Longrightarrow> nearest_rank p xs v \<longleftrightarrow> nearest_rank p ys v"
proof -
  assume m: "mset xs = mset ys"
  have "length (filter P xs) = length (filter P ys)" for P using m by (metis mset_filter size_mset)
  moreover have "set xs = set ys" "length xs = length ys" using m by (auto dest: mset_eq_setD mset_eq_length)
  ultimately show ?thesis by (simp add: nearest_rank_def)
qed

definition rank :: "nat \<Rightarrow> nat \<Rightarrow> nat" where
  "rank p n = nat (\<lceil>of_nat (n * p) / 100 :: rat\<rceil> - 1)"

lemma rank_bounds:
  assumes "0 < p" "p \<le> 100" "0 < n"
  shows "rank p n < n" "100 * rank p n < p * n" "p * n \<le> 100 * Suc (rank p n)"
proof -
  define y :: rat where "y = of_nat (n * p) / 100"
  have y: "0 < y" "y \<le> of_nat n" using assms by (simp_all add: y_def)
  have c: "0 < \<lceil>y\<rceil>" "\<lceil>y\<rceil> \<le> int n" using y by (simp_all add: ceiling_le_iff)
  have k: "int (rank p n) = \<lceil>y\<rceil> - 1" using c by (simp add: rank_def y_def)
  then show "rank p n < n" using c by simp
  have "(of_int (int (rank p n)) :: rat) < y" "y \<le> of_int (int (rank p n) + 1)" unfolding k by linarith+
  moreover have h: "100 * y = of_nat (p * n)" by (simp add: y_def mult.commute)
  ultimately have "(of_nat (100 * rank p n) :: rat) < of_nat (p * n)" "(of_nat (p * n) :: rat) \<le> of_nat (100 * Suc (rank p n))"
    unfolding h [symmetric] by simp_all
  then show "100 * rank p n < p * n" "p * n \<le> 100 * Suc (rank p n)" by (simp_all only: of_nat_less_iff of_nat_le_iff)
qed

lemma sorted_rank:
  assumes "sorted vals" "vals \<noteq> []" "0 < p" "p \<le> 100"
  shows "nearest_rank p vals (vals ! rank p (length vals))"
proof -
  define k where "k = rank p (length vals)"
  note r = rank_bounds [OF assms(3,4), of "length vals", folded k_def]
  have k: "k < length vals" using r(1) assms(2) by simp
  have *: "length (filter P vals) = length (filter P (take m vals)) + length (filter P (drop m vals))" for P m
    by (metis append_take_drop_id filter_append length_append)
  have "filter (\<lambda>x. x < vals ! k) (drop k vals) = []"
    using assms(1) k by (auto simp: filter_empty_conv in_set_conv_nth not_less intro!: sorted_nth_mono)
  then have "length (filter (\<lambda>x. x < vals ! k) vals) \<le> k"
    using length_filter_le [of "\<lambda>x. x < vals ! k" "take k vals"] unfolding * [of _ k] by simp
  moreover have "\<forall>x \<in> set (take (Suc k) vals). x \<le> vals ! k"
    using assms(1) k by (auto simp: in_set_conv_nth intro!: sorted_nth_mono)
  then have "filter (\<lambda>x. x \<le> vals ! k) (take (Suc k) vals) = take (Suc k) vals" by (simp add: filter_id_conv)
  then have "Suc k \<le> length (filter (\<lambda>x. x \<le> vals ! k) vals)" using k unfolding * [of _ "Suc k"] by simp
  ultimately show ?thesis using r(2,3) assms(2) k unfolding nearest_rank_def k_def [symmetric]
    by (simp add: order_le_less_trans [OF mult_le_mono2] order_trans [OF _ mult_le_mono2])
qed

lemma quantile_offset_exact:
  assumes "close_to p q" "0 < p" "p \<le> 100" "0 < n" "n < 2 ^ 44"
  shows "quantile_offset n q = Inr (rank p n)"
  using ceil_times_exact [OF assms] rank_bounds [OF assms(2,3,4)] assms(4) by (simp add: quantile_offset_def rank_def)

lemma quantile_rows:
  assumes "0 < length rows" "length rows < 2 ^ 44"
  shows "mapM (\<lambda>(name, q). bind_res (quantile_offset (length rows) q) (\<lambda>k. bind_res (row_at rows k) (\<lambda>v. Inr (name, f v)))) QUANTILES
    = Inr [(''p50'', f (rows ! rank 50 (length rows))), (''p95'', f (rows ! rank 95 (length rows))), (''p99'', f (rows ! rank 99 (length rows)))]"
proof -
  have "quantile_offset (length rows) (to_double (of_nat p / 100)) = Inr (rank p (length rows)) \<and> rank p (length rows) < length rows"
    if "p \<in> {50, 95, 99}" for p
    using that assms factors_close by (auto intro!: quantile_offset_exact rank_bounds)
  from this [of 50] this [of 95] this [of 99] show ?thesis by (simp add: QUANTILES_def row_at_def)
qed

section \<open>Groups\<close>

lemma group_count_keys: "set (map fst (group_count ks)) = set ks" "distinct (map fst (group_count ks))" "length (group_count ks) = card (set ks)"
  by (simp_all add: group_count_def o_def image_image length_remdups_card_conv)

lemma group_count_mem: "(k, n) \<in> set (group_count ks) \<longleftrightarrow> k \<in> set ks \<and> n = count_list ks k"
  by (auto simp: group_count_def)

lemma counts_in_order_mset: "mset (counts_in_order (group_count ks)) = mset (map (count_list ks) (remdups ks))"
proof -
  have "mset (counts_in_order (group_count ks)) = image_mset snd (mset (group_count ks))"
    by (simp add: counts_in_order_def)
  also have "\<dots> = mset (map (count_list ks) (remdups ks))"
    by (simp add: group_count_def image_mset.compositionality o_def)
  finally show ?thesis .
qed

lemma counts_in_order_sorted: "sorted (counts_in_order table)"
proof -
  have "sorted (map (\<lambda>(k, n). (n, k)) (sort_key (\<lambda>(k, n). (n, k)) table))" by (rule sorted_sort_key)
  then show ?thesis unfolding counts_in_order_def sorted_map by (rule sorted_wrt_mono_rel [rotated]) auto
qed

lemma counts_in_order_length: "length (counts_in_order table) = length table"
  by (simp add: counts_in_order_def)

definition group_sizes :: "'a list \<Rightarrow> nat list" where
  "group_sizes ks = map (count_list ks) (remdups ks)"

text \<open>The quantiles of group sizes: zeros when there is no group, and else nearest ranks and the maximum.\<close>

definition rank_summary :: "nat list \<Rightarrow> json \<Rightarrow> bool" where
  "rank_summary vals v \<longleftrightarrow>
    (if vals = [] then v = JObj [(''p50'', JInt 0), (''p95'', JInt 0), (''p99'', JInt 0), (''max'', JInt 0)]
     else \<exists>a b c. v = JObj [(''p50'', JInt (int a)), (''p95'', JInt (int b)), (''p99'', JInt (int c)),
         (''max'', JInt (int (Max (set vals))))]
       \<and> nearest_rank 50 vals a \<and> nearest_rank 95 vals b \<and> nearest_rank 99 vals c)"

lemma integer_quantiles_groups:
  assumes "length ks < 2 ^ 44"
  shows "\<exists>v. integer_quantiles (counts_in_order (group_count ks)) (length (group_count ks)) = Inr v \<and> rank_summary (group_sizes ks) v"
proof -
  define vals where "vals = counts_in_order (group_count ks)"
  have m: "mset vals = mset (group_sizes ks)" by (simp only: vals_def group_sizes_def counts_in_order_mset)
  have l: "length vals = length (group_count ks)" by (simp add: vals_def counts_in_order_length)
  have e: "group_sizes ks = [] \<longleftrightarrow> vals = []" using m by (metis mset_zero_iff)
  have s: "set (group_sizes ks) = set vals" using m by (metis mset_eq_setD)
  show ?thesis
  proof (cases "vals = []")
    case True
    then show ?thesis using e l by (auto simp: integer_quantiles_def rank_summary_def simp flip: vals_def)
  next
    case False
    have "length vals \<le> length ks" unfolding l group_count_keys(3) by (rule card_length)
    with assms False have n: "0 < length vals" "length vals < 2 ^ 44" by simp_all
    have "nearest_rank p (group_sizes ks) (vals ! rank p (length vals))" if "0 < p" "p \<le> 100" for p
      using sorted_rank [OF counts_in_order_sorted, of "group_count ks", folded vals_def, OF False that]
      by (simp add: nearest_rank_perm [OF m])
    then show ?thesis using False e n
      unfolding vals_def [symmetric] l [symmetric] integer_quantiles_def quantile_rows [OF n]
      by (auto simp: rank_summary_def s)
  qed
qed

lemma max_count_groups: "max_count (group_count ks) = (if ks = [] then 0 else Max (set (group_sizes ks)))"
proof -
  have "fold (\<lambda>(k, n) m. max n m) rows m0 = fold max (map snd rows) m0" for rows :: "('a \<times> nat) list" and m0
    by (simp add: fold_map o_def split_def)
  then have "max_count (group_count ks) = Max (insert 0 (set (map snd (group_count ks))))" by (simp add: max_count_def flip: Max.set_eq_fold)
  also have "set (map snd (group_count ks)) = set (group_sizes ks)" by (auto simp: group_count_def group_sizes_def)
  finally show ?thesis by (auto simp: group_sizes_def)
qed

lemma amount_quantiles_ranks:
  assumes "events \<noteq> []" "length events < 2 ^ 44"
  shows "\<exists>a b c. amount_quantiles events (length events)
      = Inr (JObj [(''p50'', JStr (amount_text a)), (''p95'', JStr (amount_text b)), (''p99'', JStr (amount_text c))])
    \<and> (\<forall>(p, e) \<in> {(50, a), (95, b), (99, c)}. e \<in> set events \<and> nearest_rank p (map amount_numeric events) (amount_numeric e))"
proof -
  define rows where "rows = sort_key amount_numeric events"
  have l: "length rows = length events" by (simp add: rows_def)
  have n: "0 < length rows" "length rows < 2 ^ 44" using assms by (simp_all add: l)
  have m: "mset (map amount_numeric rows) = mset (map amount_numeric events)" by (simp add: rows_def)
  have "rows ! rank p (length rows) \<in> set events \<and> nearest_rank p (map amount_numeric events) (amount_numeric (rows ! rank p (length rows)))"
    if p: "0 < p" "p \<le> 100" for p
  proof
    have r: "rank p (length rows) < length rows" using rank_bounds [OF p n(1)] by simp
    then have "rows ! rank p (length rows) \<in> set rows" by simp
    then show "rows ! rank p (length rows) \<in> set events" by (simp add: rows_def)
    have "sorted (map amount_numeric rows)" by (simp add: rows_def)
    from sorted_rank [OF this _ p] n r show "nearest_rank p (map amount_numeric events) (amount_numeric (rows ! rank p (length rows)))"
      by (simp add: nearest_rank_perm [OF m])
  qed
  then show ?thesis using quantile_rows [OF n, of "\<lambda>e. JStr (amount_text e)"] assms(1)
    unfolding amount_quantiles_def rows_def [symmetric] l
    by (intro exI [of _ "rows ! rank 50 (length events)"] exI [of _ "rows ! rank 95 (length events)"]
        exI [of _ "rows ! rank 99 (length events)"]) simp
qed

text \<open>The sum of the counts of the largest groups\<close>

lemma top_groups:
  assumes "n \<le> card (set us)"
  shows "\<exists>T \<subseteq> set us. card T = n \<and> (\<forall>u \<in> T. \<forall>w \<in> set us - T. count_list us w \<le> count_list us u)
    \<and> top_user_events (group_count us) n = (\<Sum>u\<in>T. count_list us u)"
proof -
  define tb where "tb = sort_key (\<lambda>(u, c). (- int c, u)) (group_count us)"
  define T where "T = set (map fst (take n tb))"
  have st: "set tb = set (group_count us)" and m: "mset (map fst tb) = mset (map fst (group_count us))" by (simp_all add: tb_def)
  have d: "distinct (map fst tb)" using group_count_keys(2) [of us] m by (metis mset_eq_imp_distinct_iff)
  have keys: "set (map fst tb) = set us" using m group_count_keys(1) [of us] by (metis mset_eq_setD)
  have mem: "(u, c) \<in> set tb \<longleftrightarrow> u \<in> set us \<and> c = count_list us u" for u c by (simp add: st group_count_mem)
  have l: "length tb = card (set us)" by (simp add: tb_def group_count_keys(3))
  have dT: "distinct (map fst (take n tb))" using d by (simp flip: take_map)
  have sub: "T \<subseteq> set us" unfolding T_def keys [symmetric] by (auto dest: in_set_takeD)
  have card: "card T = n" unfolding T_def distinct_card [OF dT] using assms l by simp
  have "sorted (map (\<lambda>(u, c). (- int c, u)) (take n tb @ drop n tb))" by (simp add: tb_def)
  then have cross: "\<forall>x \<in> set (take n tb). \<forall>y \<in> set (drop n tb). (- int (snd x), fst x) \<le> (- int (snd y), fst y)"
    unfolding sorted_append map_append by (auto simp: split_def)
  have "count_list us w \<le> count_list us u" if u: "u \<in> T" and w: "w \<in> set us - T" for u w
  proof -
    obtain c where c: "(u, c) \<in> set (take n tb)" using u by (auto simp: T_def)
    then have cu: "c = count_list us u" using mem [of u c] by (meson in_set_takeD)
    have "(w, count_list us w) \<in> set (take n tb @ drop n tb)" using w mem by simp
    moreover have "(w, count_list us w) \<notin> set (take n tb)" using w by (force simp: T_def)
    ultimately have "(w, count_list us w) \<in> set (drop n tb)" unfolding set_append by blast
    from bspec [OF bspec [OF cross c] this] cu show ?thesis by auto
  qed
  moreover have "top_user_events (group_count us) n = (\<Sum>u\<in>T. count_list us u)"
  proof -
    have "map snd (take n tb) = map (count_list us \<circ> fst) (take n tb)"
      by (rule map_cong) (auto dest!: in_set_takeD simp: mem)
    then have "sum_list (map snd (take n tb)) = sum_list (map (count_list us) (map fst (take n tb)))"
      unfolding map_map by (rule arg_cong)
    also have "\<dots> = (\<Sum>u\<in>T. count_list us u)" unfolding T_def by (rule sum_list_distinct_conv_sum_set [OF dT])
    finally show ?thesis by (simp add: top_user_events_def tb_def)
  qed
  ultimately show ?thesis using sub card by blast
qed

lemma users_with_groups:
  "users_with n (group_count ps) = card {u. \<exists>t. (u, t) \<in> set ps \<and> n \<le> count_list ps (u, t)}"
proof -
  have "set (map (fst \<circ> fst) (filter (\<lambda>(k, c). n \<le> c) (group_count ps))) = {u. \<exists>t. (u, t) \<in> set ps \<and> n \<le> count_list ps (u, t)}"
    by (force simp: group_count_def)
  then show ?thesis unfolding users_with_def length_remdups_card_conv by simp
qed

lemma repeated_groups: "repeated_user_events (group_count us) = (\<Sum>u | u \<in> set us \<and> 2 \<le> count_list us u. count_list us u)"
proof -
  have "map snd (filter (\<lambda>(u, c). 2 \<le> c) (group_count us)) = map (count_list us) (filter (\<lambda>u. 2 \<le> count_list us u) (sort (remdups us)))"
    by (simp add: group_count_def filter_map o_def)
  then have "repeated_user_events (group_count us) = sum_list (map (count_list us) (filter (\<lambda>u. 2 \<le> count_list us u) (sort (remdups us))))"
    by (simp add: repeated_user_events_def)
  also have "\<dots> = (\<Sum>u \<in> set (filter (\<lambda>u. 2 \<le> count_list us u) (sort (remdups us))). count_list us u)"
    by (rule sum_list_distinct_conv_sum_set) simp
  also have "set (filter (\<lambda>u. 2 \<le> count_list us u) (sort (remdups us))) = {u. u \<in> set us \<and> 2 \<le> count_list us u}" by auto
  finally show ?thesis .
qed

section \<open>Shares\<close>

definition share :: "nat \<Rightarrow> nat \<Rightarrow> pyfloat" where
  "share m n = (if n = 0 then Fin 0 else py_round (to_double (of_nat m / of_nat n)) 8)"

lemma profile_ratio_share: "m \<le> n \<Longrightarrow> profile_ratio (int m) (int n) = Inr (share m n)"
proof (cases "n = 0")
  case False
  assume "m \<le> n"
  then obtain r where "true_div (int m) (int n) = Inr (Fin r)" using true_div_unit [of "int m" "int n"] False by auto
  then show ?thesis using False by (auto simp: profile_ratio_def share_def true_div_def Let_def split: if_splits)
qed (simp add: profile_ratio_def share_def)

definition shares_json :: "'a::linorder list \<Rightarrow> ('a \<Rightarrow> string) \<Rightarrow> json" where
  "shares_json ts name = JObj (map (\<lambda>t. (name t, JObj [(''count'', JInt (int (count_list ts t))), (''ratio'', JFloat (share (count_list ts t) (length ts)))]))
     (sorted_list_of_set (set ts)))"

lemma sorted_groups: "group_count ks = map (\<lambda>k. (k, count_list ks k)) (sorted_list_of_set (set ks))"
  by (simp add: group_count_def sorted_list_of_set_sort_remdups)

lemma mapM_Inr: "(\<And>x. x \<in> set xs \<Longrightarrow> f x = Inr (g x)) \<Longrightarrow> mapM f xs = Inr (map g xs)"
  by (induction xs) auto

lemma type_distribution_groups: "type_distribution (group_count ts) (length ts) = Inr (shares_json ts (\<lambda>t. t))"
proof -
  have "profile_ratio (int (count_list ts t)) (int (length ts)) = Inr (share (count_list ts t) (length ts))" for t
    by (rule profile_ratio_share) (rule count_le_length)
  then show ?thesis
    unfolding type_distribution_def sorted_groups shares_json_def
    by (subst mapM_Inr [where g = "\<lambda>(t, n). (t, JObj [(''count'', JInt (int n)), (''ratio'', JFloat (share n (length ts)))])"]) auto
qed

lemma top_user_count_exact: "n < 2 ^ 44 \<Longrightarrow> top_user_count n = Inr (nat \<lceil>of_nat n / 100 :: rat\<rceil>)"
proof (cases "n = 0")
  case False
  assume "n < 2 ^ 44"
  moreover have "0 < (of_nat n / 100 :: rat)" using False by simp
  then have "0 < \<lceil>of_nat n / 100 :: rat\<rceil>" by simp
  then have "max 1 \<lceil>of_nat n / 100 :: rat\<rceil> = \<lceil>of_nat n / 100 :: rat\<rceil>" by simp
  ultimately show ?thesis using ceil_times_exact [OF factors_close(1), of n] False by (simp add: top_user_count_def)
qed (simp add: top_user_count_def)

end
