(* ===== verification/ProfileProperties.thy ===== *)
theory ProfileProperties
  imports QuantileRanks PrepareProperties
begin

text \<open>
  A profile of a corpus is exact. The loop over the rows simulates that of the preparation under the row-level policy
  (\<open>profile_rows_simulate\<close>), so its tables hold what the preparation accepts, and the report describes them
  (\<open>profile_report_cases\<close>); the batches of 10000 leave no trace.
\<close>

section \<open>The rows of a profile and of a preparation\<close>

definition event_of_pair :: "jobj \<times> jobj \<Rightarrow> profile_event" where
  "event_of_pair p = profile_event_of (fst p) (snd p) (the (decimal_of_str (the_str (jget (fst p) ''amount''))))"

definition reject_reason :: "jobj \<Rightarrow> string" where
  "reject_reason r = the_str (jget r ''reason'')"

text \<open>A profile state and a preparation state after the same rows\<close>

definition same_run :: "profile_state \<Rightarrow> prepare_state \<Rightarrow> bool" where
  "same_run p s \<longleftrightarrow> pr_total p = total_rows s \<and> pr_accepted p = accepted_rows s \<and> pr_rejected p = rejected_rows s
    \<and> pr_fraud p = fraud_rows s \<and> pr_reasons p = fold cinc (map reject_reason (out_rejected s)) []
    \<and> length (out_labels s) = length (out_events s)
    \<and> pr_table p @ pr_batch p = map event_of_pair (zip (out_events s) (out_labels s))"

lemma add_event_simps [simp]:
  "pr_total (add_event e s) = pr_total s" "pr_accepted (add_event e s) = pr_accepted s" "pr_rejected (add_event e s) = pr_rejected s"
  "pr_fraud (add_event e s) = pr_fraud s" "pr_reasons (add_event e s) = pr_reasons s"
  "pr_table (add_event e s) @ pr_batch (add_event e s) = (pr_table s @ pr_batch s) @ [e]"
  by (simp_all add: add_event_def flush_batch_def Let_def)

lemma accepted_amount_reread:
  assumes "normalize_row row n t0 salt = Inr (e, l)"
  obtains d where "decimal_of_str (the_str (jget e ''amount'')) = Some d"
proof -
  from assms obtain step t nt amount bals orig dest time where r:
    "decimal_from row ''amount'' ''INVALID_AMOUNT'' = Inr amount"
    "e = event_object n t nt (support_level (mapping_for t)) (pseudonym_digest orig salt)
       (hashed_id ''D'' dest salt) time step amount bals"
    by (rule normalize_row_InrE)
  have "jget e ''amount'' = JStr (decimal_string amount)" unfolding r(2) event_object_def by (simp add: jget_or_Cons)
  then show thesis using decimal_reread [of amount] parsed_decimal_ok [OF r(1)] that by auto
qed

lemma profile_row_simulates:
  assumes "same_run p s"
  shows "case (profile_row t0 salt n row p, process_row ''row-level'' t0 salt n row s) of
      (Inr p', Inr s') \<Rightarrow> same_run p' s' | (Inl x, Inl y) \<Rightarrow> x = y | _ \<Rightarrow> False"
proof (cases "normalize_row row n t0 salt")
  case (Inl x)
  then show ?thesis using assms
    by (cases x) (simp_all add: profile_row_def process_row_def same_run_def reject_row_def count_excluded_def Let_def
        reject_reason_def rejected_record_def jget_or_Cons)
next
  case (Inr q)
  then obtain e l where q: "normalize_row row n t0 salt = Inr (e, l)" by (cases q) simp
  obtain d where d: "decimal_of_str (the_str (jget e ''amount'')) = Some d" by (rule accepted_amount_reread [OF q])
  show ?thesis using assms
    by (simp add: q d profile_row_def process_row_def same_run_def accept_row_def event_of_pair_def Let_def)
qed

lemma profile_rows_simulate:
  assumes "same_run p s"
  shows "case (profile_rows fault limit t0 salt n rows p, process_rows fault limit ''row-level'' t0 salt n rows s) of
      (Inr p', Inr s') \<Rightarrow> same_run p' s' | (Inl x, Inl y) \<Rightarrow> x = y | _ \<Rightarrow> False"
  using assms
proof (induction rows arbitrary: n p s)
  case (Cons row rows)
  have t: "pr_total p = total_rows s" using Cons.prems by (simp add: same_run_def)
  show ?case
  proof (cases "case limit of None \<Rightarrow> False | Some k \<Rightarrow> k \<le> int (total_rows s)")
    case False
    then show ?thesis
      using profile_row_simulates [OF Cons.prems, of t0 salt n row] Cons.IH [of _ _ "Suc n"]
      unfolding profile_rows.simps process_rows.simps t
      by (cases "profile_row t0 salt n row p"; cases "process_row ''row-level'' t0 salt n row s") simp_all
  next
    case True
    show ?thesis using Cons.prems unfolding profile_rows.simps process_rows.simps t if_P [OF True] by simp
  qed
qed (simp split: option.splits)

lemma same_run_init: "same_run init_profile_state init_prepare_state"
  by (simp add: same_run_def init_profile_state_def init_prepare_state_def)

text \<open>A loop that ends has taken the rows of the limit; its tables are those of the accepted ones.\<close>

lemma profile_rows_spec:
  assumes "profile_rows fault limit t0 salt 1 rows init_profile_state = Inr p"
  defines "nrows \<equiv> taken limit (enumerate 1 rows)"
  shows "length (accepted_of t0 salt nrows) + length (refused_of t0 salt nrows) = length nrows"
    and "pr_accepted p = length (accepted_of t0 salt nrows)" "pr_rejected p = length (refused_of t0 salt nrows)"
    and "pr_fraud p = length (filter (\<lambda>(e, l). the_bool (jget l ''isFraud'')) (accepted_of t0 salt nrows))"
    and "pr_reasons p = fold cinc (map (\<lambda>(n, r, m, row). r) (refused_of t0 salt nrows)) []"
    and "pr_table (flush_batch p) = map event_of_pair (accepted_of t0 salt nrows)"
    and "read_through fault limit (length rows)"
proof -
  obtain s where s: "process_rows fault limit ''row-level'' t0 salt 1 rows init_prepare_state = Inr s" "same_run p s"
    using profile_rows_simulate [OF same_run_init, of fault limit t0 salt 1 rows] assms(1) by (auto split: sum.splits)
  have "s = run_state t0 salt nrows \<and> all_decided ''row-level'' t0 salt nrows \<and> read_through fault limit (length rows)"
    using process_rows_spec [of fault limit "''row-level''" t0 salt 1 rows "[]" s nrows] s(1)
    by (simp add: run_state_Nil nrows_def option.map_ident)
  then have r: "s = run_state t0 salt nrows" "all_decided ''row-level'' t0 salt nrows"
    and "read_through fault limit (length rows)" by simp_all
  then show "read_through fault limit (length rows)" by simp
  show "length (accepted_of t0 salt nrows) + length (refused_of t0 salt nrows) = length nrows"
    using r(2) by (simp add: all_decided_def)
  show "pr_accepted p = length (accepted_of t0 salt nrows)" "pr_rejected p = length (refused_of t0 salt nrows)"
    "pr_fraud p = length (filter (\<lambda>(e, l). the_bool (jget l ''isFraud'')) (accepted_of t0 salt nrows))"
    using s(2) by (simp_all add: same_run_def r(1) run_state_def Let_def)
  have "map reject_reason (out_rejected s) = map (\<lambda>(n, r, m, row). r) (refused_of t0 salt nrows)"
    by (simp add: r(1) run_state_def Let_def reject_reason_def rejected_record_def jget_or_Cons o_def split_def)
  then show "pr_reasons p = fold cinc (map (\<lambda>(n, r, m, row). r) (refused_of t0 salt nrows)) []"
    using s(2) by (simp add: same_run_def)
  show "pr_table (flush_batch p) = map event_of_pair (accepted_of t0 salt nrows)"
    using s(2) by (simp add: same_run_def flush_batch_def r(1) run_state_def Let_def zip_map_fst_snd)
qed

lemma cget_mem: "distinct (map fst c) \<Longrightarrow> (k, n) \<in> set c \<Longrightarrow> n = cget c k"
  by (simp add: cget_def)

lemma sorted_tally: "sorted_items (fold cinc ks []) = map (\<lambda>k. (k, count_list ks k)) (sorted_list_of_set (set ks))"
proof -
  define c where "c = fold cinc ks []"
  have inv: "distinct (map fst (fold cinc ks c0)) \<and> set (map fst (fold cinc ks c0)) = set (map fst c0) \<union> set ks"
    if "distinct (map fst c0)" for c0
    using that by (induction ks arbitrary: c0) (simp_all add: distinct_cinc keys_cinc del: set_map)
  have d: "distinct (map fst c)" "set (map fst c) = set ks" using inv [of "[]"] by (simp_all add: c_def)
  have "map fst (sorted_items c) = sort (map fst c)"
    unfolding sorted_items_def by (rule properties_for_sort [symmetric]) simp_all
  also have "\<dots> = sorted_list_of_set (set ks)" unfolding d(2) [symmetric] using d(1)
    by (simp only: sorted_list_of_set_sort_remdups distinct_remdups_id)
  finally have k: "map fst (sorted_items c) = sorted_list_of_set (set ks)" .
  have "x = (fst x, count_list ks (fst x))" if "x \<in> set (sorted_items c)" for x
    using that cget_mem [OF d(1), of "fst x" "snd x"] ctr.tally [of ks "fst x"] by (simp add: sorted_items_def c_def prod_eq_iff)
  then have "map (\<lambda>x. x) (sorted_items c) = map (\<lambda>x. (fst x, count_list ks (fst x))) (sorted_items c)"
    by (intro map_cong) simp_all
  then show ?thesis unfolding c_def [symmetric] k [symmetric] by (simp add: o_def)
qed

section \<open>The report\<close>

lemma sum_counts_le: "T \<subseteq> set us \<Longrightarrow> (\<Sum>u\<in>T. count_list us u) \<le> length us"
proof -
  assume "T \<subseteq> set us"
  then have "(\<Sum>u\<in>T. count_list us u) \<le> (\<Sum>u\<in>set us. count_list us u)" by (intro sum_mono2) auto
  then show ?thesis by (simp add: sum_count_set)
qed

definition largest :: "nat \<Rightarrow> 'a list \<Rightarrow> 'a set \<Rightarrow> bool" where
  "largest n us T \<longleftrightarrow> T \<subseteq> set us \<and> card T = n \<and> (\<forall>u \<in> T. \<forall>w \<in> set us - T. count_list us w \<le> count_list us u)"

definition burst_users :: "nat \<Rightarrow> (string \<times> int) list \<Rightarrow> string set" where
  "burst_users k ps = {u. \<exists>t. (u, t) \<in> set ps \<and> k \<le> count_list ps (u, t)}"

definition amount_summary :: "profile_event list \<Rightarrow> json \<Rightarrow> bool" where
  "amount_summary E v \<longleftrightarrow>
    (if E = [] then v = JObj [(''p50'', JNull), (''p95'', JNull), (''p99'', JNull)]
     else \<exists>a b c. v = JObj [(''p50'', JStr (amount_text a)), (''p95'', JStr (amount_text b)), (''p99'', JStr (amount_text c))]
       \<and> (\<forall>(p, e) \<in> {(50, a), (95, b), (99, c)}. e \<in> set E \<and> nearest_rank p (map amount_numeric E) (amount_numeric e)))"

text \<open>What a report says of the accepted events, the number of frauds among them and the reasons of the rejects\<close>

definition describes :: "profile_event list \<Rightarrow> nat \<Rightarrow> string list \<Rightarrow> jobj \<Rightarrow> bool" where
  "describes E fraud reasons report \<longleftrightarrow>
    (let n = length E; us = map user_id E; ps = map (\<lambda>e. (user_id e, source_step e)) E; ts = map source_step E;
         users = card (set us); get = jget report; part = (\<lambda>k. JFloat (share k n)) in
     get ''acceptedRows'' = JInt (int n) \<and> get ''totalEvents'' = JInt (int n)
     \<and> get ''rejectedRows'' = JInt (int (length reasons)) \<and> get ''uniqueUsers'' = JInt (int users)
     \<and> rank_summary (group_sizes us) (get ''eventsPerUser'')
     \<and> rank_summary (group_sizes ps) (get ''eventsPerUserPerSourceStep'')
     \<and> get ''maximumEventsPerSourceStepPerUser'' = JInt (int (if E = [] then 0 else Max (set (group_sizes ps))))
     \<and> (\<exists>T. largest (nat \<lceil>of_nat users / 100 :: rat\<rceil>) us T \<and> get ''top1PercentTrafficShare'' = part (\<Sum>u\<in>T. count_list us u))
     \<and> get ''usersWith2PlusEventsPerSourceStepRatio'' = JFloat (share (card (burst_users 2 ps)) users)
     \<and> get ''usersWith5PlusEventsPerSourceStepRatio'' = JFloat (share (card (burst_users 5 ps)) users)
     \<and> get ''nativeTransactionTypeDistribution'' = shares_json (map native_event_type E) (\<lambda>t. t)
     \<and> get ''normalizedTransactionTypeDistribution'' = shares_json (map normalized_event_type E) (\<lambda>t. t)
     \<and> get ''transactionTypeDistribution'' = get ''normalizedTransactionTypeDistribution''
     \<and> get ''fraudRatio'' = part fraud
     \<and> amount_summary E (get ''amount'')
     \<and> get ''timeStepDistribution'' = JObj (map (\<lambda>t. (str_of_int t, JInt (int (count_list ts t)))) (sorted_list_of_set (set ts)))
     \<and> get ''peakTimeStepCount'' = JInt (int (if E = [] then 0 else Max (set (group_sizes ts))))
     \<and> get ''sameUserRepeatRate'' = part (\<Sum>u | u \<in> set us \<and> 2 \<le> count_list us u. count_list us u)
     \<and> get ''rejectedReasonDistribution'' =
         JObj (map (\<lambda>r. (r, JInt (int (count_list reasons r)))) (sorted_list_of_set (set reasons))))"

lemma top_share:
  assumes "length us < 2 ^ 44"
  shows "\<exists>top T. top_user_count (length (group_count us)) = Inr top \<and> largest (nat \<lceil>of_nat (card (set us)) / 100 :: rat\<rceil>) us T
    \<and> profile_ratio (int (top_user_events (group_count us) top)) (int (length us)) = Inr (share (\<Sum>u\<in>T. count_list us u) (length us))"
proof -
  define k where "k = card (set us)"
  define top where "top = nat \<lceil>of_nat k / 100 :: rat\<rceil>"
  have "k \<le> length us" unfolding k_def by (rule card_length)
  then have t: "top_user_count (length (group_count us)) = Inr top"
    using top_user_count_exact [of k] assms by (simp add: group_count_keys top_def k_def)
  have "\<lceil>of_nat k / 100 :: rat\<rceil> \<le> int k" by (simp add: ceiling_le_iff)
  then have "top \<le> k" by (simp add: top_def)
  then obtain T where T: "T \<subseteq> set us" "card T = top" "\<forall>u \<in> T. \<forall>w \<in> set us - T. count_list us w \<le> count_list us u"
    "top_user_events (group_count us) top = (\<Sum>u\<in>T. count_list us u)"
    using top_groups [of top us] unfolding k_def by blast
  have "profile_ratio (int (top_user_events (group_count us) top)) (int (length us)) = Inr (share (\<Sum>u\<in>T. count_list us u) (length us))"
    unfolding T(4) by (rule profile_ratio_share) (rule sum_counts_le [OF T(1)])
  then show ?thesis using t T(1-3) unfolding largest_def k_def top_def by blast
qed

lemma burst_share:
  "profile_ratio (int (users_with k (group_count (map (\<lambda>e. (user_id e, source_step e)) E)))) (int (length (group_count (map user_id E))))
   = Inr (share (card (burst_users k (map (\<lambda>e. (user_id e, source_step e)) E))) (card (set (map user_id E))))"
  unfolding users_with_groups group_count_keys burst_users_def by (rule profile_ratio_share, rule card_mono) auto

lemma profile_report_cases:
  assumes "pr_accepted s = length (pr_table s)" "length (pr_table s) < 2 ^ 44"
    "pr_fraud s \<le> length (pr_table s)" "pr_reasons s = fold cinc reasons []" "pr_rejected s = length reasons"
  shows "case generated_at env a of Inl x \<Rightarrow> profile_report env a s = Inl x
    | Inr g \<Rightarrow> \<exists>report. profile_report env a s = Inr report \<and> describes (pr_table s) (pr_fraud s) reasons report"
proof -
  define E where "E = pr_table s"
  define us where "us = map user_id E"
  define ps where "ps = map (\<lambda>e. (user_id e, source_step e)) E"
  define ts where "ts = map source_step E"
  have l: "length us = length E" "length ps = length E" "length ts = length E" by (simp_all add: us_def ps_def ts_def)
  have n: "length E < 2 ^ 44" using assms(2) by (simp add: E_def)
  obtain top T where top: "top_user_count (length (group_count us)) = Inr top" "largest (nat \<lceil>of_nat (card (set us)) / 100 :: rat\<rceil>) us T"
    "profile_ratio (int (top_user_events (group_count us) top)) (int (length E)) = Inr (share (\<Sum>u\<in>T. count_list us u) (length E))"
    using top_share [of us] n by (auto simp: l)
  obtain v where v: "integer_quantiles (counts_in_order (group_count us)) (length (group_count us)) = Inr v" "rank_summary (group_sizes us) v"
    using integer_quantiles_groups [of us] n by (auto simp: l)
  obtain w where w: "integer_quantiles (counts_in_order (group_count ps)) (length (group_count ps)) = Inr w" "rank_summary (group_sizes ps) w"
    using integer_quantiles_groups [of ps] n by (auto simp: l)
  obtain q where q: "amount_quantiles E (length E) = Inr q" "amount_summary E q"
  proof (cases "E = []")
    case False
    then show ?thesis using amount_quantiles_ranks [OF False n] that unfolding amount_summary_def by auto
  qed (simp add: that amount_quantiles_def amount_summary_def)
  have dist: "type_distribution (group_count (map f E)) (length E) = Inr (shares_json (map f E) (\<lambda>t. t))" for f :: "profile_event \<Rightarrow> string"
    using type_distribution_groups [of "map f E"] by simp
  have burst: "profile_ratio (int (users_with k (group_count ps))) (int (length (group_count us))) = Inr (share (card (burst_users k ps)) (card (set us)))" for k
    unfolding ps_def us_def by (rule burst_share)
  have fraud: "profile_ratio (int (pr_fraud s)) (int (length E)) = Inr (share (pr_fraud s) (length E))"
    using assms(3) by (simp add: profile_ratio_share E_def)
  have repeat: "profile_ratio (int (repeated_user_events (group_count us))) (int (length E))
      = Inr (share (\<Sum>u | u \<in> set us \<and> 2 \<le> count_list us u. count_list us u) (length E))"
    unfolding repeated_groups l(1) [symmetric] by (rule profile_ratio_share, rule sum_counts_le) auto
  have most: "max_count (group_count ps) = (if E = [] then 0 else Max (set (group_sizes ps)))"
    "max_count (group_count ts) = (if E = [] then 0 else Max (set (group_sizes ts)))"
    by (simp_all add: max_count_groups ps_def ts_def)
  note run = profile_report_def [of env a s, unfolded Let_def users_table_def user_steps_table_def assms(1),
      folded E_def, folded us_def ps_def ts_def, unfolded top(1) bind_res_simps dist top(3) v(1) w(1) q(1) burst fraud repeat most mapM.simps prod.case]
  show ?thesis
  proof (cases "generated_at env a")
    case (Inl x)
    show ?thesis unfolding run unfolding Inl by simp
  next
    case (Inr g)
    show ?thesis
      unfolding run unfolding Inr bind_res_simps sum.case
        describes_def Let_def E_def [symmetric] us_def [symmetric] ps_def [symmetric] ts_def [symmetric]
      by (intro exI conjI, rule refl; (unfold jget_literal)?)
        (use top(2) v(2) w(2) q(2) in \<open>simp_all add: group_count_keys assms(4,5) sorted_tally counter_json_def sorted_groups o_def\<close>)
  qed
qed

section \<open>The run\<close>

lemma flush_batch_simps [simp]:
  "pr_accepted (flush_batch s) = pr_accepted s" "pr_rejected (flush_batch s) = pr_rejected s" "pr_fraud (flush_batch s) = pr_fraud s"
  "pr_reasons (flush_batch s) = pr_reasons s"
  by (simp_all add: flush_batch_def)

abbreviation reject_reasons :: "(nat \<times> string \<times> string \<times> csv_row) list \<Rightarrow> string list" where
  "reject_reasons \<equiv> map (\<lambda>(n, r, m, row). r)"

abbreviation frauds :: "(jobj \<times> jobj) list \<Rightarrow> nat" where
  "frauds acc \<equiv> length (filter (\<lambda>(e, l). the_bool (jget l ''isFraud'')) acc)"

lemma length_dict_rows: "length (dict_rows records) \<le> length records"
  by (cases records) (auto simp: dict_rows_def intro: le_SucI)

lemma profile_rows_report:
  assumes "profile_rows fault (fa_limit a) t0 salt 1 (dict_rows (fe_records env)) init_profile_state = Inr p" "length (fe_records env) < 2 ^ 44"
  defines "nrows \<equiv> taken (fa_limit a) (enumerate 1 (dict_rows (fe_records env)))"
  shows "length (accepted_of t0 salt nrows) + length (refused_of t0 salt nrows) = length nrows"
    and "case generated_at env a of Inl x \<Rightarrow> profile_report env a (flush_batch p) = Inl x
      | Inr g \<Rightarrow> \<exists>report. profile_report env a (flush_batch p) = Inr report
          \<and> describes (map event_of_pair (accepted_of t0 salt nrows)) (frauds (accepted_of t0 salt nrows))
              (reject_reasons (refused_of t0 salt nrows)) report"
proof -
  note p = profile_rows_spec [OF assms(1), folded nrows_def]
  show len: "length (accepted_of t0 salt nrows) + length (refused_of t0 salt nrows) = length nrows" by (rule p(1))
  have "length nrows \<le> length (dict_rows (fe_records env))" by (auto simp: nrows_def taken_def split: option.splits)
  then have "length (accepted_of t0 salt nrows) < 2 ^ 44" using len length_dict_rows [of "fe_records env"] assms(2) by linarith
  then show "case generated_at env a of Inl x \<Rightarrow> profile_report env a (flush_batch p) = Inl x
      | Inr g \<Rightarrow> \<exists>report. profile_report env a (flush_batch p) = Inr report
          \<and> describes (map event_of_pair (accepted_of t0 salt nrows)) (frauds (accepted_of t0 salt nrows))
              (reject_reasons (refused_of t0 salt nrows)) report"
    using profile_report_cases [of "flush_batch p" "reject_reasons (refused_of t0 salt nrows)" env a] p(2-6)
    by (cases "generated_at env a") simp_all
qed

lemma profile_salt: "\<exists>salt source. resolve_salt (profile_salt_args a) (fe_getenv env) = Inr (salt, source)"
  by (simp add: resolve_salt_def profile_salt_args_def)

text \<open>C8: a finished profile is exact: of the rows up to the limit each was accepted or rejected, as the preparation
  decides it, and the report says of the accepted events what its names promise. Its counts are the sizes of the sets
  they name; every p50, p95 and p99 is the nearest-rank percentile (at least p percent of the values are at most it,
  and fewer are below it), though its rank is computed in floats; the top share is that of the largest users, one in a
  hundred rounded up; the shares of types, steps and reasons are counted exactly. The report is what the file holds.
  The reader of the file met no fault before a record after the limit had been read. The number of records of the
  file is below 2 to the 44.\<close>

theorem profile_exact:
  assumes "profile env fs a = (fs', Inr report)" "length (fe_records env) < 2 ^ 44"
  shows "\<exists>t0 salt source nrows. parse_base_time (fe_fromiso env) (fa_base_time a) = Inr t0
    \<and> resolve_salt (profile_salt_args a) (fe_getenv env) = Inr (salt, source)
    \<and> (fe_csv_fault env = None \<or> (\<exists>k. fa_limit a = Some k \<and> k < int (length (dict_rows (fe_records env)))))
    \<and> nrows = taken (fa_limit a) (enumerate 1 (dict_rows (fe_records env)))
    \<and> length (accepted_of t0 salt nrows) + length (refused_of t0 salt nrows) = length nrows
    \<and> describes (map event_of_pair (accepted_of t0 salt nrows)) (frauds (accepted_of t0 salt nrows))
        (reject_reasons (refused_of t0 salt nrows)) report
    \<and> fs' = fs(fa_output a \<mapsto> dumps_indent 0 (JObj report) @ [char_of (10 :: nat)])"
proof -
  have r: "profile_run env fs a = Inr report" and fs': "fs' = fs(fa_output a \<mapsto> dumps_indent 0 (JObj report) @ [char_of (10 :: nat)])"
    using assms(1) by (auto simp: profile_def split: sum.splits)
  from r obtain t0 salt source p where p: "parse_base_time (fe_fromiso env) (fa_base_time a) = Inr t0"
    "resolve_salt (profile_salt_args a) (fe_getenv env) = Inr (salt, source)"
    "profile_rows (fe_csv_fault env) (fa_limit a) t0 salt 1 (dict_rows (fe_records env)) init_profile_state = Inr p"
    "profile_report env a (flush_batch p) = Inr report"
    by (auto simp: profile_run_def)
  show ?thesis using p(1,2) fs' profile_rows_report [OF p(3) assms(2)] profile_rows_spec(7) [OF p(3)] p(4)
    by (auto simp: read_through_def split: sum.splits)
qed

text \<open>What ends a profile: the same crashes of a row as a preparation has, and exit messages\<close>

definition bad_profile :: "profile_env \<Rightarrow> (string \<Rightarrow> string option) \<Rightarrow> profile_args \<Rightarrow> bool" where
  "bad_profile env fs a \<longleftrightarrow> fe_bytes env = None \<or> (\<exists>k. fa_limit a = Some k \<and> k < 0)
     \<or> fs (fa_output a) \<noteq> None \<and> \<not> fa_force a \<or> fe_fromiso env (replace_z (fa_base_time a)) = None
     \<or> validate_header (fe_records env) \<noteq> None \<or> (\<exists>t. fa_generated_at a = Some t \<and> fe_fromiso env (replace_z t) = None)"

text \<open>C39: a profile that does not finish leaves the files as they are, and it ends in one of these ways only: with an
  exit message, for a missing input, a negative limit, an output that exists, a bad time or a header that lacks
  columns; with OverflowError, for a base time or a time of generation whose instant in UTC is not on the calendar;
  with the exception of the CSV reader or of the decoding of the file, if there is one; or at a row that crashes the
  preparation as well (a record that is too short, a step beyond the calendar). No quantile, share or query fails. As
  for the preparation, the files can be read and the memory suffices.\<close>

theorem profile_failures:
  assumes "profile env fs a = (fs', Inl x)" "length (fe_records env) < 2 ^ 44"
  shows "fs' = fs \<and> ((\<exists>m. x = SystemExit m) \<and> bad_profile env fs a
    \<or> x = OverflowError \<and> (\<exists>t. (t = fa_base_time a \<or> fa_generated_at a = Some t) \<and> off_calendar (fe_fromiso env) t)
    \<or> fe_csv_fault env = Some x
    \<or> (\<exists>t0 n row. parse_base_time (fe_fromiso env) (fa_base_time a) = Inr t0 \<and> (n, row) \<in> set (enumerate 1 (dict_rows (fe_records env)))
        \<and> row_crash t0 row x))"
proof -
  have r: "profile_run env fs a = Inl x" and fs': "fs' = fs" using assms(1) by (auto simp: profile_def split: sum.splits)
  obtain salt source where salt: "resolve_salt (profile_salt_args a) (fe_getenv env) = Inr (salt, source)"
    using profile_salt by blast
  have limit: "(case fa_limit a of None \<Rightarrow> False | Some n \<Rightarrow> n < 0) \<longleftrightarrow> (\<exists>k. fa_limit a = Some k \<and> k < 0)"
    by (cases "fa_limit a") auto
  have time: "parse_base_time (fe_fromiso env) v = Inl x \<Longrightarrow>
      fe_fromiso env (replace_z v) = None \<and> (\<exists>m. x = SystemExit m) \<or> x = OverflowError \<and> off_calendar (fe_fromiso env) v" for v
    by (rule parse_base_time_Inl)
  consider "(\<exists>m. x = SystemExit m) \<and> bad_profile env fs a" | "x = OverflowError" "off_calendar (fe_fromiso env) (fa_base_time a)"
    | "fe_csv_fault env = Some x"
    | t0 where "parse_base_time (fe_fromiso env) (fa_base_time a) = Inr t0"
      "bind_res (profile_rows (fe_csv_fault env) (fa_limit a) t0 salt 1 (dict_rows (fe_records env)) init_profile_state) (\<lambda>s. profile_report env a (flush_batch s)) = Inl x"
    using r time [of "fa_base_time a"] read_header_Some [of "fe_records env" "fe_csv_fault env" x]
    unfolding profile_run_def salt check_then_Inl_iff limit bad_profile_def
    by (auto simp: check_then_Inl_iff bind_res_Inl raise_if_def split: if_splits)
  then show ?thesis
  proof cases
    case (4 t0)
    from 4(2) consider "profile_rows (fe_csv_fault env) (fa_limit a) t0 salt 1 (dict_rows (fe_records env)) init_profile_state = Inl x"
      | p where "profile_rows (fe_csv_fault env) (fa_limit a) t0 salt 1 (dict_rows (fe_records env)) init_profile_state = Inr p"
        "profile_report env a (flush_batch p) = Inl x"
      by (auto simp: bind_res_Inl)
    then show ?thesis
    proof cases
      case 1
      then have "process_rows (fe_csv_fault env) (fa_limit a) ''row-level'' t0 salt 1 (dict_rows (fe_records env)) init_prepare_state = Inl x"
        using profile_rows_simulate [OF same_run_init, of "fe_csv_fault env" "fa_limit a" t0 salt 1 "dict_rows (fe_records env)"] by (auto split: sum.splits)
      from process_rows_Inl [OF this] show ?thesis using fs' 4(1) by (auto simp: row_ends_def)
    next
      case (2 p)
      then have "generated_at env a = Inl x" using profile_rows_report(2) [OF 2(1) assms(2)] by (auto split: sum.splits)
      then show ?thesis using fs' time by (fastforce simp: generated_at_def bad_profile_def bind_res_Inl split: option.splits)
    qed
  qed (use fs' in auto)
qed

section \<open>A concrete corpus\<close>

definition demo_profile_env :: profile_env where
  "demo_profile_env =
    \<lparr>fe_bytes = Some [], fe_records = pe_records demo_prepare_env, fe_csv_fault = None,
     fe_fromiso = (\<lambda>_. Some (0, Some 0)), fe_getenv = (\<lambda>_. None), fe_now = 0\<rparr>"

lemma demo_profile_finishes: "\<exists>fs' report. profile demo_profile_env (\<lambda>_. None) default_profile_args = (fs', Inr report)"
proof -
  obtain s where s: "process_rows None None ''row-level'' 0 DEFAULT_LOCAL_SALT 1 (dict_rows (pe_records demo_prepare_env)) init_prepare_state = Inr s"
    using demo_prepares
    by (auto simp: process_def default_prepare_args_def demo_prepare_env_def resolve_salt_def parse_base_time_def
        max_instant_def Let_def)
  then obtain p where p: "profile_rows None None 0 DEFAULT_LOCAL_SALT 1 (dict_rows (fe_records demo_profile_env)) init_profile_state = Inr p"
    using profile_rows_simulate [OF same_run_init, of None None 0 DEFAULT_LOCAL_SALT 1 "dict_rows (pe_records demo_prepare_env)"]
    by (auto simp: demo_profile_env_def split: sum.splits)
  have header: "read_header (fe_records demo_profile_env) None = None" by code_simp
  have args: "fa_limit default_profile_args = None" "parse_base_time (fe_fromiso demo_profile_env) b = Inr 0" "fe_csv_fault demo_profile_env = None" "fe_bytes demo_profile_env = Some []"
    "resolve_salt (profile_salt_args default_profile_args) (fe_getenv demo_profile_env) = Inr (DEFAULT_LOCAL_SALT, ''default-local'')"
    "generated_at demo_profile_env default_profile_args = Inr (iso_z 0)" "length (fe_records demo_profile_env) < 2 ^ 44" for b
    by (simp_all add: default_profile_args_def demo_profile_env_def resolve_salt_def profile_salt_args_def generated_at_def
        default_prepare_args_def demo_prepare_env_def parse_base_time_def max_instant_def)
  obtain report where "profile_report demo_profile_env default_profile_args (flush_batch p) = Inr report"
    using profile_rows_report(2) [of None default_profile_args 0 DEFAULT_LOCAL_SALT demo_profile_env p] p args by auto
  then show ?thesis using p header by (simp add: profile_def profile_run_def args)
qed

theorem profile_exact_witness:
  "\<exists>fs' report acc ref. profile demo_profile_env (\<lambda>_. None) default_profile_args = (fs', Inr report)
    \<and> length acc + length ref = 3 \<and> describes (map event_of_pair acc) (frauds acc) (reject_reasons ref) report"
proof -
  obtain fs' report where r: "profile demo_profile_env (\<lambda>_. None) default_profile_args = (fs', Inr report)"
    using demo_profile_finishes by blast
  have "length (fe_records demo_profile_env) < 2 ^ 44" "length (dict_rows (fe_records demo_profile_env)) = 3" "fa_limit default_profile_args = None"
    by (simp_all add: demo_profile_env_def demo_prepare_env_def dict_rows_def demo_row_def default_profile_args_def)
  with profile_exact [OF r this(1)] r show ?thesis by (fastforce simp: taken_def)
qed

text \<open>The base time \<open>0001-01-01T00:00:00+14:00\<close> is the one that is off the calendar in UTC.\<close>

theorem profile_failures_witness:
  "\<exists>t. snd (profile (demo_profile_env\<lparr>fe_fromiso := \<lambda>_. Some (0, Some 50400000000)\<rparr>) (\<lambda>_. None) default_profile_args) = Inl OverflowError
    \<and> off_calendar (fe_fromiso (demo_profile_env\<lparr>fe_fromiso := \<lambda>_. Some (0, Some 50400000000)\<rparr>)) t"
proof -
  let ?env = "demo_profile_env\<lparr>fe_fromiso := \<lambda>_. Some (0, Some 50400000000)\<rparr>"
  have p: "profile ?env (\<lambda>_. None) default_profile_args = (\<lambda>_. None, Inl OverflowError)"
    by (simp add: profile_def profile_run_def parse_base_time_def demo_profile_env_def default_profile_args_def)
  have "length (fe_records ?env) < 2 ^ 44" "fe_csv_fault ?env = None" "\<not> (\<exists>t0. parse_base_time (fe_fromiso ?env) b = Inr t0)" for b
    by (simp_all add: demo_profile_env_def demo_prepare_env_def parse_base_time_def)
  with profile_failures [OF p] p show ?thesis by auto
qed

end
