(* ===== verification/Pipeline.thy ===== *)
theory Pipeline
  imports OutputFiles ReplayLiveness
begin

text \<open>
  The scripts in sequence: the files a preparation writes, as texts, are read back by the other scripts with all their
  rows and fields, and a replay of the events file posts every event it should. Here \<open>json.loads\<close> is the function of
  \<open>JsonParse\<close>, not a parameter.
\<close>

section \<open>The files of a preparation\<close>

text \<open>C11: what a preparation writes is what the other scripts read: each of the three JSON-lines files, opened and read
  line by line by any of them, gives the rows of the run, all of them, in order and numbered from 1, each with the
  fields and values it was written with (their keys sorted).\<close>

theorem prepared_files_read_back:
  assumes "process env a = Inr (s, rep)" "rows \<in> {out_events s, out_labels s, out_rejected s}"
  shows "jsonl_items f g json_loads 1 (file_lines (jsonl_text rows)) = map Inr (enumerate 1 (map sorted_row rows))
    \<and> (\<forall>row \<in> set rows. \<forall>k. jget (sorted_row row) k = sorted_json (jget row k) \<and> (has_key (sorted_row row) k \<longleftrightarrow> has_key row k))"
proof -
  have p: "\<forall>row \<in> set rows. plain_json (JObj row)" by (rule outputs_plain [OF assms])
  then have "\<forall>row \<in> set rows. distinct (map fst row)" by simp
  then show ?thesis using jsonl_file_read_back [OF p] sorted_row_get by blast
qed

section \<open>From a preparation to a replay\<close>

lemma prepared_event_valid_iff:
  assumes "normalize_row row n t0 salt = Inr (e, l)"
  shows "validate_event (sorted_row e) pol = None \<longleftrightarrow> validate_event e pol = None"
proof -
  have d: "distinct (map fst e)" using prepared_plain(1) [OF assms] by simp
  have g: "jget (sorted_row e) k = jget e k" if "k \<noteq> ''balanceFeatures''" for k
    using sorted_row_get(1) [OF d, of k] prepared_plain(3) [OF assms that] by simp
  note h = sorted_row_get(2) [OF d]
  have c: "clean replay_forbidden (JObj (sorted_row e)) \<longleftrightarrow> clean replay_forbidden (JObj e)"
    using clean_sorted [of replay_forbidden "JObj e"] by (simp add: sorted_row_def del: clean_simps)
  have m: "validate_native_mapping (sorted_row e) = None \<longleftrightarrow> validate_native_mapping e = None"
    unfolding validate_native_mapping_def by (simp add: h g has_mapping_metadata_def Let_def mapping_keys_def is_paysim_event_def)
  show ?thesis unfolding validate_event_None_iff c m by (simp add: h g del: clean_simps)
qed

lemma filter_enumerate: "length (filter (\<lambda>(i, x). P x) (enumerate n xs)) = length (filter P xs)"
  by (induction xs arbitrary: n) (simp_all add: enumerate_simps)

definition positive_amount :: "jobj \<Rightarrow> bool" where
  "positive_amount e \<longleftrightarrow> (case decimal_of_str (the_str (jget e ''amount'')) of None \<Rightarrow> False | Some d \<Rightarrow> 0 < dec_val d)"

lemma prepared_event_taken:
  assumes "normalize_row row n t0 salt = Inr (e, l)"
  shows "validate_event (sorted_row e) ''current-api'' = None \<longleftrightarrow> positive_amount e"
proof -
  obtain d where d: "decimal_from row ''amount'' ''INVALID_AMOUNT'' = Inr d" "jget e ''amount'' = JStr (decimal_string d)"
    using prepared_event [OF assms] by metis
  obtain x where x: "decimal_of_str (decimal_string d) = Some x" "dec_val x = dec_val d"
    using decimal_reread [of d] parsed_decimal_ok [OF d(1)] by blast
  show ?thesis
    using prepared_event_decided [OF assms] d x unfolding prepared_event_valid_iff [OF assms]
    by (auto simp: positive_amount_def)
qed

text \<open>No header of a request for a prepared event holds a line break, unless the token does.\<close>

lemma legal_header_append: "no_break s \<Longrightarrow> illegal_header_value (s @ t) = illegal_header_value t"
  by (induction s) auto

lemma prepared_event_headers:
  assumes "normalize_row row n t0 salt = Inr (e, l)" "\<forall>t. token = Some t \<longrightarrow> \<not> illegal_header_value t"
  shows "\<not> header_refused (request_of a token (sorted_row e))"
proof -
  have "distinct (map fst e)" using prepared_plain(1) [OF assms(1)] by simp
  then have "jget (sorted_row e) ''traceId'' = jget e ''traceId''"
    using prepared_plain(3) [OF assms(1), of "''traceId''"] by (simp add: sorted_row_get)
  also have "\<dots> = JStr (''trace-paysim-'' @ pad 9 n)" by (rule prepared_event [OF assms(1)])
  finally have trace: "the_str (jget (sorted_row e) ''traceId'') = ''trace-paysim-'' @ pad 9 n" by simp
  have "no_break (''trace-paysim-'' @ pad 9 n)" using no_break_digits [OF pad_digits [of 9 n]] by simp
  then have "\<not> illegal_header_value (the_str (jget (sorted_row e) ''traceId''))"
    using legal_header_append [of _ "[]"] unfolding trace by force
  moreover have "\<not> illegal_header_value (''Bearer '' @ the token)" if "truthy_opt token"
    using assms(2) legal_header_append [of "''Bearer ''" "the token"] that by (cases token) (simp_all add: truthy_opt_def)
  moreover have "\<not> illegal_header_value ''application/json''" by code_simp
  ultimately show ?thesis by (simp add: header_refused_def request_of_def request_for_def)
qed

text \<open>C3: the pipeline gets through: when a preparation has finished and the replay is run on the events file it wrote,
  with valid arguments, neither dry nor limited nor stopping at errors, on a network that answers every request in
  some handled way, at a rate of at least one event in a million seconds by a monotonic clock, with a token (if any)
  that can stand in a header, then the replay ends with a report, every prepared event whose amount is positive has
  been posted, and the outcomes counted are as many as these events.\<close>

theorem prepared_events_are_replayed:
  assumes "process penv pa = Inr (s, prep)"
    and "validate_replay_args a (env_report_exists renv) = None"
    and "env_lines renv = Some (file_lines (jsonl_text (out_events s)))" "env_loads renv = json_loads"
    and "\<not> ra_dry_run a" "\<not> ra_stop_on_error a" "ra_max_events a = None" "ra_event_type_policy a = ''current-api''"
    and "\<forall>n. env_http renv n \<noteq> OtherRaised" "paced renv a"
    and "\<forall>t. fst (resolve_auth_token a (env_getenv renv)) = Some t \<longrightarrow> \<not> illegal_header_value t"
  shows "\<exists>t rep. replay renv a = (t, Inr rep)
    \<and> (\<forall>e \<in> set (out_events s). positive_amount e \<longrightarrow>
         request_of a (fst (resolve_auth_token a (env_getenv renv))) (sorted_row e) \<in> set (sent t))
    \<and> attempted (stats t) = length (filter positive_amount (out_events s))"
proof -
  let ?es = "out_events s" and ?token = "fst (resolve_auth_token a (env_getenv renv))"
  have items: "replay_items renv = map Inr (enumerate 1 (map sorted_row ?es))"
    using jsonl_file_read_back [OF outputs_plain [OF assms(1)], of ?es] assms(3,4) by (simp add: replay_items_def)
  obtain t0 salt nrows where s: "s = run_state t0 salt nrows" by (rule process_InrE [OF assms(1)])
  have prepared: "\<exists>n row l. normalize_row row n t0 salt = Inr (e, l)" if "e \<in> set ?es" for e
    using that by (fastforce simp: s run_state_simps accepted_of_mem)
  have "\<not> header_refused (request_of a ?token (sorted_row e))" if "e \<in> set ?es" for e
    using prepared [OF that] prepared_event_headers assms(11) by blast
  then have "undisturbed renv a ?token (map snd (enumerate 1 (map sorted_row ?es)))"
    using assms(9,10) by (auto simp: undisturbed_def)
  from valid_rows_posted [OF assms(2,3) items assms(5,6,7) this] obtain t rep where t: "replay renv a = (t, Inr rep)"
    and posted: "\<forall>(row, e) \<in> set (enumerate 1 (map sorted_row ?es)). validate_event e ''current-api'' = None \<longrightarrow> request_of a ?token e \<in> set (sent t)"
    and att: "attempted (stats t) = length (filter (\<lambda>(row, e). validate_event e ''current-api'' = None) (enumerate 1 (map sorted_row ?es)))"
    unfolding assms(8) by blast
  have valid: "validate_event (sorted_row e) ''current-api'' = None \<longleftrightarrow> positive_amount e" if e: "e \<in> set ?es" for e
    using prepared [OF e] prepared_event_taken by blast
  have "request_of a ?token (sorted_row e) \<in> set (sent t)" if e: "e \<in> set ?es" and pos: "positive_amount e" for e
  proof -
    obtain i where "i < length ?es" "?es ! i = e" using e by (auto simp: in_set_conv_nth)
    then have "(1 + i, sorted_row e) \<in> set (enumerate 1 (map sorted_row ?es))" by (auto simp: in_set_enumerate_eq)
    from bspec [OF posted this] pos valid [OF e] show ?thesis by simp
  qed
  moreover have "attempted (stats t) = length (filter positive_amount ?es)"
  proof -
    have "attempted (stats t) = length (filter (\<lambda>e. validate_event e ''current-api'' = None) (map sorted_row ?es))"
      unfolding att by (rule filter_enumerate)
    also have "\<dots> = length (filter (\<lambda>e. validate_event (sorted_row e) ''current-api'' = None) ?es)" by (simp add: filter_map o_def)
    also have "filter (\<lambda>e. validate_event (sorted_row e) ''current-api'' = None) ?es = filter positive_amount ?es"
      using valid by (intro filter_cong) simp_all
    finally show ?thesis .
  qed
  ultimately show ?thesis using t by blast
qed

theorem prepared_files_read_back_witness:
  "\<exists>s rep. process demo_prepare_env default_prepare_args = Inr (s, rep) \<and> length (out_events s) = 2
    \<and> (\<forall>f g. jsonl_items f g json_loads 1 (file_lines (jsonl_text (out_events s))) = map Inr (enumerate 1 (map sorted_row (out_events s))))"
proof -
  obtain s rep where p: "process demo_prepare_env default_prepare_args = Inr (s, rep)" "accepted_rows s = 2" using demo_prepares by blast
  obtain t0 salt nrows where "s = run_state t0 salt nrows" by (rule process_InrE [OF p(1)])
  then have "length (out_events s) = accepted_rows s" by (simp add: run_state_def Let_def)
  with prepared_files_read_back [OF p(1), of "out_events s"] p show ?thesis by auto
qed

theorem prepared_events_are_replayed_witness:
  "\<exists>s prep t rep. process demo_prepare_env default_prepare_args = Inr (s, prep)
    \<and> replay (demo_env\<lparr>env_lines := Some (file_lines (jsonl_text (out_events s))), env_loads := json_loads\<rparr>) (demo_args\<lparr>ra_max_events := None\<rparr>)
        = (t, Inr rep)
    \<and> attempted (stats t) = length (filter positive_amount (out_events s))"
proof -
  obtain s prep where p: "process demo_prepare_env default_prepare_args = Inr (s, prep)" using demo_prepares by blast
  let ?a = "demo_args\<lparr>ra_max_events := None\<rparr>"
  let ?env = "demo_env\<lparr>env_lines := Some (file_lines (jsonl_text (out_events s))), env_loads := json_loads\<rparr>"
  have "validate_replay_args ?a (env_report_exists demo_env) = None" by code_simp
  then have "validate_replay_args ?a (env_report_exists ?env) = None" by simp
  moreover have "\<not> ra_dry_run ?a" "\<not> ra_stop_on_error ?a" "ra_max_events ?a = None" "ra_event_type_policy ?a = ''current-api''"
    "\<forall>n. env_http ?env n \<noteq> OtherRaised" "env_loads ?env = json_loads" "env_lines ?env = Some (file_lines (jsonl_text (out_events s)))"
    "\<forall>t. fst (resolve_auth_token ?a (env_getenv ?env)) = Some t \<longrightarrow> \<not> illegal_header_value t"
    by (simp_all add: demo_args_def demo_env_def default_replay_args_def resolve_auth_token_def truthy_opt_def)
  moreover have "paced ?env ?a" using demo_paced by (simp add: paced_def)
  ultimately show ?thesis using prepared_events_are_replayed [OF p, of ?a ?env] p by blast
qed

end
