(* ===== verification/Spec2Isabelle.thy ===== *)
theory Spec2Isabelle
  imports ReplayLiveness EvaluateProperties PartitionProperties PrepareThenValidate EvaluationPolicy WorkloadManifestTypes ValidateThenSample ProfileProperties Pipeline
begin

text \<open>
  The data scripts of a streaming fraud-detection system (Python, \<open>src/scripts/data\<close>), with what makes them correct.

  \<^bold>\<open>The program.\<close> The scripts take the PaySim data set through a chain of files.
  \<open>prepare_paysim_dataset.py\<close> turns the CSV into normalised events, a label sidecar, reject records and a report, with
  customer names replaced by a keyed hash; \<open>profile_paysim_v3.py\<close> counts the same rows. \<open>validate_paysim_outputs.py\<close>
  checks the four files against the contract and each other, and \<open>generate_paysim_samples.py\<close> takes from them a sample
  that may be committed. \<open>replay_paysim_events.py\<close> posts the events to the transaction API with retries;
  \<open>evaluate_paysim_replay_results.py\<close> joins what the detection services answered with the label sidecar and reports a
  confusion matrix. \<open>paysim_native_type_mapping.py\<close> and \<open>paysim_evaluation_policy.py\<close> are the policies several of them
  read. Beside this chain, \<open>validate_v3_workload_manifest.py\<close> checks the manifests of the load tests and
  \<open>verify_v3_phase3_partition_assignment.py\<close> rebuilds the partition-affinity workloads. The scripts share no state but
  the files.

  \<^bold>\<open>The Python they use.\<close> Constants, functions and report fields have the names of the source; a name that clashes has a
  prefix or suffix.
  \<^item> \<open>Prelude\<close>: exceptions as values (\<open>exn\<close>), early returns (\<open>first_fail\<close>), loops that may raise (\<open>foldM\<close>), strings.
  \<^item> \<open>PyFloat\<close>, \<open>PyValue\<close>, \<open>PyNumber\<close>: binary64 floats, the values of \<open>json.loads\<close> and the operations on them, counters.
  \<^item> \<open>JsonText\<close>, \<open>JsonParse\<close>, \<open>JsonRoundTrip\<close>: \<open>json.dumps\<close>, \<open>json.loads\<close>, and that the one reads what the other writes.
  \<^item> \<open>Scanning\<close>, \<open>DateTime\<close>, \<open>Sha256\<close>: the regular expressions and the walk for forbidden fields, UTC times, SHA-256 and
    HMAC.

  \<^bold>\<open>One theory per script.\<close> \<open>Prepare\<close>, \<open>Profile\<close>, \<open>ValidateOutputs\<close>, \<open>Samples\<close>, \<open>Replay\<close>, \<open>Evaluate\<close>,
  \<open>TypeMapping\<close>, \<open>EvaluationPolicy\<close>, \<open>WorkloadManifest\<close> and \<open>Partition\<close> hold the definitions, in the order of the
  source: a record for the command line, one for what the outside gives (\<open>prepare_env\<close>, \<open>replay_env\<close> and so on), one for
  the state the main loop threads, then one definition per function, up to the function \<open>main\<close> calls and its exit status.
  A run is a value of a sum type: the exception that ended it, or its outputs. \<open>replay\<close> also returns its last state, which
  holds the requests posted.

  \<^bold>\<open>What is proved.\<close>
  \<^item> \<open>ReplayCorrect\<close>, \<open>ReplayProperties\<close>, \<open>ReplayLiveness\<close>: a finished run posts exactly the requests of the valid rows, in
    order, each at most retry count + 1 times; no request holds a label or a raw identifier; the counters add up; the run
    gets through the whole file when the network answers, no pause is too long and no header holds a line break. \<open>send_with_retry\<close> refines a description by the first outcome
    that is not retried.
  \<^item> \<open>PrepareCorrect\<close>, \<open>PrepareProperties\<close>: a preparation refines a row-by-row specification; its outputs hold no raw
    name, are aligned, and keep the amounts; the replay takes a prepared event exactly when its amount is positive.
  \<^item> \<open>ValidateProperties\<close>, \<open>OutputFiles\<close>, \<open>PrepareThenValidate\<close>: the validator accepts what a description without order or
    state calls valid, and which prepared data sets those are, read from the texts of their files.
  \<^item> \<open>SamplesProperties\<close>, \<open>ValidateThenSample\<close>: nothing unsafe is written, and a validated data set is sampled as it should,
    with a manifest that counts what was taken.
  \<^item> \<open>QuantileRanks\<close>, \<open>ProfileProperties\<close>: a profile states the exact counts, shares and nearest-rank quantiles.
  \<^item> \<open>EvaluateCorrect\<close>, \<open>EvaluateProperties\<close>: the cells of the matrix and the coverage are counts over the labels, the
    metrics lie between 0 and 1, and what a loaded file is.
  \<^item> \<open>WorkloadManifestProperties\<close>, \<open>WorkloadManifestTypes\<close>: what a manifest that validates satisfies, and which exceptions
    are left once the schema has fixed the types.
  \<^item> \<open>PartitionProperties\<close>: the hash is Kafka's murmur2 on 32 bit words, the search for users finds the first that
    match, a manifest that verifies is even.
  \<^item> \<open>Pipeline\<close>: the chain itself. The files of a preparation, as texts, are read back with all rows, and a replay of the
    events file posts every prepared event of a positive amount.

  For each script one theorem lists every way a run can fail. Two locales state interfaces: \<open>counter_ops\<close>, the laws of
  \<open>collections.Counter\<close>, and \<open>forbidden_scanner\<close>, the contract of the walk for forbidden fields, interpreted on the copy of
  each script.

  \<^bold>\<open>Recursion.\<close> Every definition is total. Loops over files and lists recurse on the list, a send on the retries left, the
  search for users on the candidates up to the bound of the source, which raises when it is passed. The JSON reader is
  bounded by twice the length of the text plus 2: every nested value is shorter than the text around it, and
  \<open>loads_dumps\<close> and \<open>loads_report\<close> show the bound enough for every text \<open>json.dumps\<close> writes. The quantiles of the profile are stated for
  fewer than \<open>2 ^ 44\<close> rows, below which the products the script computes in floats have the right ceilings.

  \<^bold>\<open>What is taken from outside.\<close> The network, the clocks, the environment variables, \<open>csv.reader\<close> (its records and the
  exception that ends them, if any), \<open>datetime.fromisoformat\<close>, the validator of \<open>jsonschema\<close>, and (outside \<open>Pipeline\<close>
  and \<open>PrepareThenValidate\<close>) \<open>json.loads\<close> are parameters: a theorem that relies on one says so in a hypothesis, which the
  concrete run of its witness meets. Of \<open>http.client\<close> the check of header values is modelled, of \<open>time.sleep\<close> the longest
  pause. The endpoint is taken to be a URL of HTTP, and the memory to suffice. Files are lists of lines or maps from
  paths to texts. Texts are over the code points below 256; negative zero is not told from zero;
  Python's limits on recursion depth and on the digits of an \<open>int\<close> are not modelled; where a script iterates over a set of
  checks, the order is fixed.

  \<^bold>\<open>What is not modelled.\<close> Progress lines, the creation of directories and the errors of the file system. The download
  of the data set, which calls a client of its host and moves files. The five \<open>verify_paysim_*\<close> scripts and the unit
  tests, which run the other scripts on literal inputs and compare with literal results. The services, which are written
  in Java and appear as the answers to requests and as result files.
\<close>

end
